(* ===== verification/Prelude.thy ===== *)
theory Prelude
  imports "HOL-Library.Word" "HOL-Library.Monad_Syntax" "HOL-Library.Signed_Division"
begin

text \<open>
  Shared vocabulary of the development.

  \<^item> The machine types of the C++ sources: \<open>byte\<close> is \<^verbatim>\<open>uint8_t\<close>, \<open>u32\<close> and \<open>u64\<close> are the
    unsigned 32- and 64-bit integers, \<open>uint256\<close> is \<^verbatim>\<open>intx::uint256\<close> and \<open>bytes\<close> is
    \<^verbatim>\<open>std::basic_string<uint8_t>\<close>.
  \<^item> Code that may run into undefined behaviour is a function into \<open>option\<close>: \<open>None\<close> is
    undefined behaviour (an access outside an array, a broken \<^verbatim>\<open>assert\<close>, reading the wrong
    member of a union), \<open>Some\<close> is an ordinary result. The predicate \<open>wp m Q\<close> says that \<open>m\<close> is
    free of undefined behaviour and its result satisfies \<open>Q\<close>.
  \<^item> The interpreter loops of the program are instances of one combinator, \<open>loop\<close>, with a
    step bound; the locale \<open>terminating_loop\<close> is the total-correctness rule for it.
\<close>

unbundle bit_operations_syntax

type_synonym byte = "8 word"
type_synonym u32 = "32 word"
type_synonym u64 = "64 word"
type_synonym uint256 = "256 word"
type_synonym bytes = "byte list"

named_theorems wp_rules
named_theorems frame_simps
named_theorems instr_defs

section \<open>Undefined behaviour and weakest preconditions\<close>

definition wp :: "'a option \<Rightarrow> ('a \<Rightarrow> bool) \<Rightarrow> bool" where
  "wp m Q = (case m of None \<Rightarrow> False | Some x \<Rightarrow> Q x)"

lemma wp_Some [wp_rules, simp]: "wp (Some x) Q = Q x"
  by (simp add: wp_def)

lemma wp_None [wp_rules, simp]: "wp None Q = False"
  by (simp add: wp_def)

lemma wp_bind [wp_rules]: "wp (m \<bind> f) Q = wp m (\<lambda>x. wp (f x) Q)"
  by (cases m) (simp_all add: wp_def)

lemma wp_if [wp_rules]: "wp (if c then a else b) Q = (if c then wp a Q else wp b Q)"
  by simp

lemma wp_let [wp_rules]: "wp (Let x f) Q = (let y = x in wp (f y) Q)"
  by (simp add: Let_def)

lemma wp_case_prod [wp_rules]: "wp (case p of (x, y) \<Rightarrow> f x y) Q = (case p of (x, y) \<Rightarrow> wp (f x y) Q)"
  by (cases p) simp

lemma wp_mono: "wp m P \<Longrightarrow> (\<And>x. P x \<Longrightarrow> Q x) \<Longrightarrow> wp m Q"
  by (cases m) simp_all

lemma wpD: "wp m Q \<Longrightarrow> \<exists>x. m = Some x \<and> Q x"
  by (cases m) simp_all

lemma wpI: "m = Some x \<Longrightarrow> Q x \<Longrightarrow> wp m Q"
  by simp

lemma wp_iff: "wp m Q \<longleftrightarrow> (\<exists>x. m = Some x \<and> Q x)"
  by (cases m) simp_all

section \<open>Lists with a known least length\<close>

lemmas length_ge = Suc_le_length_iff numeral_eq_Suc

section \<open>Bytes\<close>

lemma unat_byte_less: "unat (b :: byte) < 256"
proof -
  have "unat b < 2 ^ LENGTH(8)" by (rule unsigned_less)
  then show ?thesis by simp
qed

lemma sint_byte: "sint (b :: byte) = (if unat b < 128 then int (unat b) else int (unat b) - 256)"
proof -
  define n where "n = unat b"
  have u: "uint b = int n" by (simp add: n_def)
  have n: "n < 256" using unat_byte_less [of b] by (simp add: n_def)
  have "signed_take_bit 7 (int n) = (if n < 128 then int n else int n - 256)"
  proof (cases "n < 128")
    case True
    then show ?thesis by (simp add: signed_take_bit_int_eq_self)
  next
    case False
    have "take_bit (Suc 7) (int n) = take_bit (Suc 7) (int n - 256)"
      by (simp add: take_bit_eq_mod minus_mod_self2)
    then have "signed_take_bit 7 (int n) = signed_take_bit 7 (int n - 256)"
      by (simp only: signed_take_bit_eq_iff_take_bit_eq)
    with False n show ?thesis by (simp add: signed_take_bit_int_eq_self)
  qed
  then show ?thesis by (simp add: sint_uint u flip: n_def)
qed

section \<open>Interpreter loops\<close>

datatype 's outcome = Undefined | Running | Exited 's

text \<open>
  \<^verbatim>\<open>while (p != nullptr) p = step(p, state)\<close> with at most \<open>n\<close> iterations: \<open>Exited s\<close> when
  the position becomes null in state \<open>s\<close>, \<open>Undefined\<close> when a step has undefined behaviour,
  \<open>Running\<close> when the bound is used up.
\<close>

fun loop :: "('s \<Rightarrow> 'p \<Rightarrow> ('s \<times> 'p option) option) \<Rightarrow> nat \<Rightarrow> 's \<Rightarrow> 'p \<Rightarrow> 's outcome" where
  "loop step 0 s p = Running"
| "loop step (Suc n) s p =
     (case step s p of
        None \<Rightarrow> Undefined
      | Some (s', None) \<Rightarrow> Exited s'
      | Some (s', Some q) \<Rightarrow> loop step n s' q)"

lemma loop_mono: "loop step n s p = Exited r \<Longrightarrow> n \<le> m \<Longrightarrow> loop step m s p = Exited r"
proof (induction n arbitrary: m s p)
  case 0
  then show ?case by simp
next
  case (Suc n)
  then obtain k where m: "m = Suc k" "n \<le> k" by (cases m) auto
  with Suc show ?case by (auto split: option.splits prod.splits)
qed

lemma loop_unique:
  "loop step n s p = Exited r \<Longrightarrow> loop step m s p = Exited r' \<Longrightarrow> r = r'"
  by (metis loop_mono nle_le outcome.inject)

locale terminating_loop =
  fixes step :: "'s \<Rightarrow> 'p \<Rightarrow> ('s \<times> 'p option) option"
    and inv :: "'s \<Rightarrow> 'p \<Rightarrow> bool"
    and mu :: "'s \<Rightarrow> 'p \<Rightarrow> nat"
    and final :: "'s \<Rightarrow> 's \<Rightarrow> bool"
  assumes step_defined: "inv s p \<Longrightarrow> \<exists>s' q. step s p = Some (s', q)"
    and step_keeps: "inv s p \<Longrightarrow> step s p = Some (s', Some q) \<Longrightarrow> inv s' q"
    and step_decreases: "inv s p \<Longrightarrow> step s p = Some (s', Some q) \<Longrightarrow> mu s' q < mu s p"
    and step_final: "inv s p \<Longrightarrow> step s p = Some (s', None) \<Longrightarrow> final s s'"
    and final_trans: "inv s p \<Longrightarrow> step s p = Some (s', Some q) \<Longrightarrow> final s' s'' \<Longrightarrow> final s s''"
begin

lemma loop_exits: "inv s p \<Longrightarrow> mu s p < n \<Longrightarrow> \<exists>s'. loop step n s p = Exited s' \<and> final s s'"
proof (induction n arbitrary: s p)
  case 0
  then show ?case by simp
next
  case (Suc n)
  from step_defined [OF Suc.prems(1)] obtain s' q where st: "step s p = Some (s', q)" by blast
  show ?case
  proof (cases q)
    case None
    with st step_final [OF Suc.prems(1)] show ?thesis by simp
  next
    case (Some q')
    with st have st': "step s p = Some (s', Some q')" by simp
    from step_decreases [OF Suc.prems(1) st'] Suc.prems(2) have "mu s' q' < n" by simp
    from Suc.IH [OF step_keeps [OF Suc.prems(1) st'] this] obtain s'' where
      "loop step n s' q' = Exited s''" "final s' s''" by blast
    with st' final_trans [OF Suc.prems(1) st'] show ?thesis by auto
  qed
qed

lemma loop_defined: "inv s p \<Longrightarrow> loop step n s p \<noteq> Undefined"
proof (induction n arbitrary: s p)
  case 0
  then show ?case by simp
next
  case (Suc n)
  from step_defined [OF Suc.prems] obtain s' q where st: "step s p = Some (s', q)" by blast
  with Suc.IH step_keeps [OF Suc.prems] show ?case by (cases q) auto
qed

lemma loop_result:
  assumes "inv s p" and "loop step n s p = Exited s'"
  shows "final s s'"
proof -
  from loop_exits [OF assms(1) lessI] obtain t where
    "loop step (Suc (mu s p)) s p = Exited t" and fin: "final s t" by blast
  from loop_unique [OF this(1) assms(2)] fin show ?thesis by simp
qed

end

end
