(* ===== verification/Ivmc.thy ===== *)
theory Ivmc
  imports Prelude
begin

text \<open>
  The interface between the virtual machine and its surroundings, which the sources take from
  packages that are not part of the repository.

  \<^item> The IVMC types: revisions, status codes, messages, results, transaction context. The data
    is modelled as the sources use it; addresses and hashes are the byte strings they are in C.
  \<^item> The host (\<^verbatim>\<open>ivmc::HostContext\<close>): a record of functions over an arbitrary host state \<open>'h\<close>.
    The read-only methods of the interface read the host state, the others return a new one.
  \<^item> The library (\<^verbatim>\<open>intx\<close>, \<^verbatim>\<open>ethash\<close>): a record of the algorithms the instructions call. A value of
    \<^verbatim>\<open>intx::uint256\<close> is a 256-bit word, whose wrap-around addition, subtraction and
    multiplication, bitwise operators, comparisons, truncating conversions and 64-bit limbs are
    those of words; every named function and division, shifts by a \<open>uint256\<close> amount and byte
    order conversions are parameters.

  Nothing is assumed here about the parameters. \<open>lib_ok\<close> and \<open>host_ok\<close> state the documented
  behaviour some properties rely on, as hypotheses of those properties.
\<close>

section \<open>Revisions and status codes\<close>

datatype ivmc_revision =
    IVMC_FRONTIER | IVMC_HOMESTEAD | IVMC_TANGERINE_WHISTLE | IVMC_SPURIOUS_DRAGON
  | IVMC_BYZANTIUM | IVMC_CONSTANTINOPLE | IVMC_PETERSBURG | IVMC_ISTANBUL
  | IVMC_BERLIN | IVMC_LONDON | IVMC_SHANGHAI

fun rev_number :: "ivmc_revision \<Rightarrow> nat" where
  "rev_number IVMC_FRONTIER = 0"
| "rev_number IVMC_HOMESTEAD = 1"
| "rev_number IVMC_TANGERINE_WHISTLE = 2"
| "rev_number IVMC_SPURIOUS_DRAGON = 3"
| "rev_number IVMC_BYZANTIUM = 4"
| "rev_number IVMC_CONSTANTINOPLE = 5"
| "rev_number IVMC_PETERSBURG = 6"
| "rev_number IVMC_ISTANBUL = 7"
| "rev_number IVMC_BERLIN = 8"
| "rev_number IVMC_LONDON = 9"
| "rev_number IVMC_SHANGHAI = 10"

lemma rev_number_inject [simp]: "rev_number a = rev_number b \<longleftrightarrow> a = b"
  by (cases a; cases b) simp_all

text \<open>Revisions are compared by number, as the C enumeration is.\<close>

instantiation ivmc_revision :: linorder
begin

definition less_eq_ivmc_revision :: "ivmc_revision \<Rightarrow> ivmc_revision \<Rightarrow> bool" where
  "a \<le> b \<longleftrightarrow> rev_number a \<le> rev_number b"

definition less_ivmc_revision :: "ivmc_revision \<Rightarrow> ivmc_revision \<Rightarrow> bool" where
  "a < b \<longleftrightarrow> rev_number a < rev_number b"

instance
  by standard (auto simp: less_eq_ivmc_revision_def less_ivmc_revision_def)

end

lemmas rev_order = less_eq_ivmc_revision_def less_ivmc_revision_def

datatype ivmc_status_code =
    IVMC_SUCCESS | IVMC_FAILURE | IVMC_REVERT | IVMC_OUT_OF_GAS | IVMC_INVALID_INSTRUCTION
  | IVMC_UNDEFINED_INSTRUCTION | IVMC_STACK_OVERFLOW | IVMC_STACK_UNDERFLOW
  | IVMC_BAD_JUMP_DESTINATION | IVMC_INVALID_MEMORY_ACCESS | IVMC_CALL_DEPTH_EXCEEDED
  | IVMC_STATIC_MODE_VIOLATION | IVMC_INTERNAL_ERROR

datatype ivmc_call_kind =
    IVMC_CALL | IVMC_DELEGATECALL | IVMC_CALLCODE | IVMC_CREATE | IVMC_CREATE2

datatype ivmc_access_status = IVMC_ACCESS_COLD | IVMC_ACCESS_WARM

datatype ivmc_storage_status =
    IVMC_STORAGE_UNCHANGED | IVMC_STORAGE_MODIFIED | IVMC_STORAGE_MODIFIED_AGAIN
  | IVMC_STORAGE_ADDED | IVMC_STORAGE_DELETED

text \<open>The exceptional halts: every status but success and revert consumes the remaining gas.\<close>

definition ok_status :: "ivmc_status_code \<Rightarrow> bool" where
  "ok_status st \<longleftrightarrow> st = IVMC_SUCCESS \<or> st = IVMC_REVERT"

section \<open>Messages, results and the transaction context\<close>

definition IVMC_STATIC :: u32 where
  "IVMC_STATIC = 1"

record ivmc_message =
  msg_kind :: ivmc_call_kind
  msg_flags :: u32
  msg_depth :: int
  msg_gas :: int
  msg_recipient :: bytes
  msg_sender :: bytes
  msg_input :: bytes
  msg_value :: bytes
  msg_create2_salt :: bytes
  msg_code_address :: bytes

text \<open>\<^verbatim>\<open>ivmc_message{}\<close>: every member is zero.\<close>

definition zero_message :: ivmc_message where
  "zero_message =
     \<lparr>msg_kind = IVMC_CALL, msg_flags = 0, msg_depth = 0, msg_gas = 0,
      msg_recipient = replicate 20 0, msg_sender = replicate 20 0, msg_input = [],
      msg_value = replicate 32 0, msg_create2_salt = replicate 32 0,
      msg_code_address = replicate 20 0\<rparr>"

definition is_static :: "ivmc_message \<Rightarrow> bool" where
  "is_static m \<longleftrightarrow> msg_flags m AND IVMC_STATIC \<noteq> 0"

record ivmc_result =
  res_status :: ivmc_status_code
  res_gas_left :: int
  res_output :: bytes
  res_create_address :: bytes

record ivmc_tx_context =
  tx_gas_price :: bytes
  tx_origin :: bytes
  block_coinbase :: bytes
  block_number :: int
  block_timestamp :: int
  block_gas_limit :: int
  block_difficulty :: bytes
  chain_id :: bytes
  block_base_fee :: bytes

section \<open>The host and the library as parameters\<close>

record 'h host_interface =
  account_exists :: "bytes \<Rightarrow> 'h \<Rightarrow> bool"
  get_storage :: "bytes \<Rightarrow> bytes \<Rightarrow> 'h \<Rightarrow> bytes"
  set_storage :: "bytes \<Rightarrow> bytes \<Rightarrow> bytes \<Rightarrow> 'h \<Rightarrow> ivmc_storage_status \<times> 'h"
  get_balance :: "bytes \<Rightarrow> 'h \<Rightarrow> bytes"
  get_code_size :: "bytes \<Rightarrow> 'h \<Rightarrow> u64"
  get_code_hash :: "bytes \<Rightarrow> 'h \<Rightarrow> bytes"
  copy_code :: "bytes \<Rightarrow> nat \<Rightarrow> nat \<Rightarrow> 'h \<Rightarrow> bytes"
  host_selfdestruct :: "bytes \<Rightarrow> bytes \<Rightarrow> 'h \<Rightarrow> 'h"
  host_call :: "ivmc_message \<Rightarrow> 'h \<Rightarrow> ivmc_result \<times> 'h"
  get_tx_context :: "'h \<Rightarrow> ivmc_tx_context"
  get_block_hash :: "int \<Rightarrow> 'h \<Rightarrow> bytes"
  emit_log :: "bytes \<Rightarrow> bytes \<Rightarrow> bytes list \<Rightarrow> 'h \<Rightarrow> 'h"
  access_account :: "bytes \<Rightarrow> 'h \<Rightarrow> ivmc_access_status \<times> 'h"
  access_storage :: "bytes \<Rightarrow> bytes \<Rightarrow> 'h \<Rightarrow> ivmc_access_status \<times> 'h"

record lib =
  intx_div :: "uint256 \<Rightarrow> uint256 \<Rightarrow> uint256"
  intx_mod :: "uint256 \<Rightarrow> uint256 \<Rightarrow> uint256"
  intx_sdivrem :: "uint256 \<Rightarrow> uint256 \<Rightarrow> uint256 \<times> uint256"
  intx_addmod :: "uint256 \<Rightarrow> uint256 \<Rightarrow> uint256 \<Rightarrow> uint256"
  intx_mulmod :: "uint256 \<Rightarrow> uint256 \<Rightarrow> uint256 \<Rightarrow> uint256"
  intx_exp :: "uint256 \<Rightarrow> uint256 \<Rightarrow> uint256"
  intx_count_significant_bytes :: "uint256 \<Rightarrow> nat"
  intx_slt :: "uint256 \<Rightarrow> uint256 \<Rightarrow> bool"
  intx_shl :: "uint256 \<Rightarrow> uint256 \<Rightarrow> uint256"
  intx_shr :: "uint256 \<Rightarrow> uint256 \<Rightarrow> uint256"
  intx_shl64 :: "uint256 \<Rightarrow> u64 \<Rightarrow> uint256"
  intx_of_int64 :: "int \<Rightarrow> uint256"
  be_load :: "bytes \<Rightarrow> uint256"
  be_store :: "uint256 \<Rightarrow> bytes"
  be_trunc :: "uint256 \<Rightarrow> bytes"
  ethash_keccak256 :: "bytes \<Rightarrow> bytes"

section \<open>Documented behaviour of the parameters\<close>

text \<open>The number a big-endian byte string denotes.\<close>

definition be_value :: "bytes \<Rightarrow> nat" where
  "be_value bs = foldl (\<lambda>a b. a * 256 + unat b) 0 bs"

text \<open>
  \<open>lib_ok\<close>: the arithmetic of \<^verbatim>\<open>intx\<close> as its documentation and names promise. Division truncates
  towards zero, \<^verbatim>\<open>addmod\<close> and \<^verbatim>\<open>mulmod\<close> work on the unbounded sum and product, a shift by 256 or
  more gives zero, \<^verbatim>\<open>be::\<close> conversions are big-endian.
\<close>

definition lib_ok :: "lib \<Rightarrow> bool" where
  "lib_ok L \<longleftrightarrow>
     (\<forall>x y. y \<noteq> 0 \<longrightarrow> intx_div L x y = x div y) \<and>
     (\<forall>x y. y \<noteq> 0 \<longrightarrow> intx_mod L x y = x mod y) \<and>
     (\<forall>x y. y \<noteq> 0 \<longrightarrow>
        intx_sdivrem L x y = (word_of_int (sint x sdiv sint y), word_of_int (sint x smod sint y))) \<and>
     (\<forall>x y m. m \<noteq> 0 \<longrightarrow> intx_addmod L x y m = of_nat ((unat x + unat y) mod unat m)) \<and>
     (\<forall>x y m. m \<noteq> 0 \<longrightarrow> intx_mulmod L x y m = of_nat ((unat x * unat y) mod unat m)) \<and>
     (\<forall>x y. intx_exp L x y = x ^ unat y) \<and>
     (\<forall>x. intx_count_significant_bytes L x \<le> 32 \<and>
          unat x < 256 ^ intx_count_significant_bytes L x \<and>
          (x \<noteq> 0 \<longrightarrow> 256 ^ (intx_count_significant_bytes L x - 1) \<le> unat x)) \<and>
     (\<forall>x y. intx_slt L x y \<longleftrightarrow> sint x < sint y) \<and>
     (\<forall>x y. intx_shl L x y = push_bit (unat y) x) \<and>
     (\<forall>x y. intx_shr L x y = drop_bit (unat y) x) \<and>
     (\<forall>x y. intx_shl64 L x y = push_bit (unat y) x) \<and>
     (\<forall>n. 0 \<le> n \<longrightarrow> n < 2 ^ 63 \<longrightarrow> intx_of_int64 L n = word_of_int n) \<and>
     (\<forall>bs. length bs \<le> 32 \<longrightarrow> be_load L bs = of_nat (be_value bs)) \<and>
     (\<forall>x. length (be_store L x) = 32 \<and> be_value (be_store L x) = unat x) \<and>
     (\<forall>x. length (be_trunc L x) = 20 \<and> be_value (be_trunc L x) = unat x mod 2 ^ 160)"

text \<open>
  \<open>host_ok\<close>: what the interpreters rely on about the host. A call gives back at most the gas it
  was given, its output is a buffer (no object is larger than \<^verbatim>\<open>PTRDIFF_MAX\<close>), and \<^verbatim>\<open>copy_code\<close> writes
  at most the number of bytes it was asked for.
\<close>

definition host_ok :: "'h host_interface \<Rightarrow> bool" where
  "host_ok H \<longleftrightarrow>
     (\<forall>m h. 0 \<le> msg_gas m \<longrightarrow>
        0 \<le> res_gas_left (fst (host_call H m h)) \<and>
        res_gas_left (fst (host_call H m h)) \<le> msg_gas m) \<and>
     (\<forall>m h. length (res_output (fst (host_call H m h))) < 2 ^ 63) \<and>
     (\<forall>a off n h. length (copy_code H a off n h) \<le> n)"

lemma host_ok_call:
  assumes "host_ok H" "0 \<le> msg_gas m" "host_call H m h = (r, h')"
  shows "0 \<le> res_gas_left r" "res_gas_left r \<le> msg_gas m"
proof -
  from assms(1,2) have "0 \<le> res_gas_left (fst (host_call H m h)) \<and>
      res_gas_left (fst (host_call H m h)) \<le> msg_gas m"
    by (simp add: host_ok_def)
  with assms(3) show "0 \<le> res_gas_left r" "res_gas_left r \<le> msg_gas m" by simp_all
qed

lemma host_ok_output: "host_ok H \<Longrightarrow> host_call H m h = (r, h') \<Longrightarrow> length (res_output r) < 2 ^ 63"
  unfolding host_ok_def by (metis fst_conv)

lemma host_ok_copy: "host_ok H \<Longrightarrow> length (copy_code H a off n h) \<le> n"
  by (simp add: host_ok_def)

end
