(* ===== verification/Stack.thy ===== *)
theory Stack
  imports Prelude
begin

text \<open>
  The operand stack (\<^verbatim>\<open>struct Stack\<close> of \<^verbatim>\<open>execution_state.hpp\<close>).

  \<open>Stack\<close> is the stack as the code has it: an array of 1024 items and a pointer to the top
  item, modelled by its index (\<open>-1\<close> is the position below the bottom). Accesses outside the
  array are undefined behaviour.

  The abstract stack is the list of its items, top first, with the partial operations
  \<open>stk_push\<close>, \<open>stk_pop\<close>, \<open>stk_get\<close> and \<open>stk_set\<close>; the instruction theories work on it. The locale
  \<open>stack_refinement\<close> states what an implementation owes to the list, and proves that then
  every sequence of operations has the same observable results on both; the pointer stack is
  an interpretation.
\<close>

definition stack_limit :: nat where
  "stack_limit = 1024"

section \<open>The list of items\<close>

fun stk_push :: "uint256 list \<Rightarrow> uint256 \<Rightarrow> uint256 list option" where
  "stk_push st v = (if length st < stack_limit then Some (v # st) else None)"

fun stk_pop :: "uint256 list \<Rightarrow> (uint256 \<times> uint256 list) option" where
  "stk_pop [] = None"
| "stk_pop (v # st) = Some (v, st)"

definition stk_get :: "uint256 list \<Rightarrow> nat \<Rightarrow> uint256 option" where
  "stk_get st i = (if i < length st then Some (st ! i) else None)"

definition stk_set :: "uint256 list \<Rightarrow> nat \<Rightarrow> uint256 \<Rightarrow> uint256 list option" where
  "stk_set st i v = (if i < length st then Some (st[i := v]) else None)"

abbreviation stk_top :: "uint256 list \<Rightarrow> uint256 option" where
  "stk_top st \<equiv> stk_get st 0"

abbreviation stk_set_top :: "uint256 list \<Rightarrow> uint256 \<Rightarrow> uint256 list option" where
  "stk_set_top st v \<equiv> stk_set st 0 v"

lemma get_Cons_0 [simp]: "stk_get (v # st) 0 = Some v"
  by (simp add: stk_get_def)

lemma get_Cons_Suc [simp]: "stk_get (v # st) (Suc i) = stk_get st i"
  by (simp add: stk_get_def)

lemma get_Cons_numeral [simp]: "stk_get (v # st) (numeral k) = stk_get st (pred_numeral k)"
  by (simp add: stk_get_def)

lemma set_at_Cons_0 [simp]: "stk_set (x # st) 0 v = Some (v # st)"
  by (simp add: stk_set_def)

lemma set_at_Cons_Suc [simp]: "stk_set (x # st) (Suc i) v = map_option ((#) x) (stk_set st i v)"
  by (simp add: stk_set_def)

lemma push_eq_Some: "stk_push st v = Some st' \<longleftrightarrow> length st < stack_limit \<and> st' = v # st"
  by auto

lemma pop_eq_Some: "stk_pop st = Some (v, st') \<longleftrightarrow> st = v # st'"
  by (cases st) auto

lemma length_stk_set: "stk_set st i v = Some st' \<Longrightarrow> length st' = length st"
  by (auto simp: stk_set_def split: if_splits)

section \<open>The array and the top pointer\<close>

record Stack =
  top_item :: int
  storage :: "nat \<Rightarrow> uint256"

text \<open>\<^verbatim>\<open>Stack::clear()\<close> and the constructor, which leaves the array as it finds it.\<close>

definition Stack_clear :: "Stack \<Rightarrow> Stack" where
  "Stack_clear st = st\<lparr>top_item := - 1\<rparr>"

definition Stack_new :: "(nat \<Rightarrow> uint256) \<Rightarrow> Stack" where
  "Stack_new garbage = Stack_clear \<lparr>top_item = 0, storage = garbage\<rparr>"

definition Stack_size :: "Stack \<Rightarrow> int" where
  "Stack_size st = top_item st + 1"

text \<open>\<^verbatim>\<open>operator[](index)\<close>, read and assigned through, and \<^verbatim>\<open>top()\<close>, which is index 0.\<close>

definition Stack_get :: "Stack \<Rightarrow> nat \<Rightarrow> uint256 option" where
  "Stack_get st i =
     (let k = top_item st - int i in
      if 0 \<le> k \<and> k < int stack_limit then Some (storage st (nat k)) else None)"

definition Stack_set :: "Stack \<Rightarrow> nat \<Rightarrow> uint256 \<Rightarrow> Stack option" where
  "Stack_set st i v =
     (let k = top_item st - int i in
      if 0 \<le> k \<and> k < int stack_limit then Some (st\<lparr>storage := (storage st)(nat k := v)\<rparr>) else None)"

definition Stack_push :: "Stack \<Rightarrow> uint256 \<Rightarrow> Stack option" where
  "Stack_push st v =
     (let k = top_item st + 1 in
      if 0 \<le> k \<and> k < int stack_limit
      then Some (st\<lparr>top_item := k, storage := (storage st)(nat k := v)\<rparr>) else None)"

definition Stack_pop :: "Stack \<Rightarrow> (uint256 \<times> Stack) option" where
  "Stack_pop st =
     (if 0 \<le> top_item st \<and> top_item st < int stack_limit
      then Some (storage st (nat (top_item st)), st\<lparr>top_item := top_item st - 1\<rparr>) else None)"

definition Stack_wf :: "Stack \<Rightarrow> bool" where
  "Stack_wf st \<longleftrightarrow> - 1 \<le> top_item st \<and> top_item st < int stack_limit"

definition items :: "Stack \<Rightarrow> uint256 list" where
  "items st = map (\<lambda>i. storage st (nat (top_item st - int i))) [0..<nat (top_item st + 1)]"

section \<open>Refinement for every sequence of operations\<close>

datatype stack_cmd = Push uint256 | Pop | Get nat | Set nat uint256

text \<open>
  A run of a list of operations over any implementation: the values read, in order, or
  \<open>None\<close> as soon as an operation is undefined.
\<close>

fun run_stack ::
  "('s \<Rightarrow> uint256 \<Rightarrow> 's option) \<Rightarrow> ('s \<Rightarrow> (uint256 \<times> 's) option) \<Rightarrow> ('s \<Rightarrow> nat \<Rightarrow> uint256 option) \<Rightarrow>
   ('s \<Rightarrow> nat \<Rightarrow> uint256 \<Rightarrow> 's option) \<Rightarrow> 's \<Rightarrow> stack_cmd list \<Rightarrow> uint256 list option" where
  "run_stack pu po ge se s [] = Some []"
| "run_stack pu po ge se s (Push v # cs) = do { s' \<leftarrow> pu s v; run_stack pu po ge se s' cs }"
| "run_stack pu po ge se s (Pop # cs) =
     do { (v, s') \<leftarrow> po s; vs \<leftarrow> run_stack pu po ge se s' cs; Some (v # vs) }"
| "run_stack pu po ge se s (Get i # cs) =
     do { v \<leftarrow> ge s i; vs \<leftarrow> run_stack pu po ge se s cs; Some (v # vs) }"
| "run_stack pu po ge se s (Set i v # cs) = do { s' \<leftarrow> se s i v; run_stack pu po ge se s' cs }"

locale stack_refinement =
  fixes abs :: "'s \<Rightarrow> uint256 list"
    and inv :: "'s \<Rightarrow> bool"
    and pu :: "'s \<Rightarrow> uint256 \<Rightarrow> 's option"
    and po :: "'s \<Rightarrow> (uint256 \<times> 's) option"
    and ge :: "'s \<Rightarrow> nat \<Rightarrow> uint256 option"
    and se :: "'s \<Rightarrow> nat \<Rightarrow> uint256 \<Rightarrow> 's option"
  assumes push_refines: "inv s \<Longrightarrow> map_option abs (pu s v) = stk_push (abs s) v"
    and pop_refines: "inv s \<Longrightarrow> map_option (map_prod id abs) (po s) = stk_pop (abs s)"
    and get_refines: "inv s \<Longrightarrow> ge s i = stk_get (abs s) i"
    and set_refines: "inv s \<Longrightarrow> map_option abs (se s i v) = stk_set (abs s) i v"
    and push_inv: "inv s \<Longrightarrow> pu s v = Some s' \<Longrightarrow> inv s'"
    and pop_inv: "inv s \<Longrightarrow> po s = Some (v, s') \<Longrightarrow> inv s'"
    and set_inv: "inv s \<Longrightarrow> se s i v = Some s' \<Longrightarrow> inv s'"
begin

lemma run_refines: "inv s \<Longrightarrow> run_stack pu po ge se s cs = run_stack stk_push stk_pop stk_get stk_set (abs s) cs"
proof (induction cs arbitrary: s)
  case Nil
  then show ?case by simp
next
  case (Cons c cs)
  show ?case
  proof (cases c)
    case (Push v)
    with Cons push_refines [OF Cons.prems, of v] push_inv [OF Cons.prems, of v] show ?thesis
      by (cases "pu s v") (auto simp del: stk_push.simps simp flip: push_refines)
  next
    case Pop
    with Cons pop_refines [OF Cons.prems] pop_inv [OF Cons.prems] show ?thesis
      by (cases "po s") (auto simp flip: pop_refines)
  next
    case (Get i)
    with Cons get_refines [OF Cons.prems, of i] show ?thesis
      by (cases "ge s i") auto
  next
    case (Set i v)
    with Cons set_refines [OF Cons.prems, of i v] set_inv [OF Cons.prems, of i v] show ?thesis
      by (cases "se s i v") (auto simp flip: set_refines)
  qed
qed

end

lemma length_items: "Stack_wf st \<Longrightarrow> length (items st) = nat (top_item st + 1)"
  by (simp add: items_def)

lemma items_nth: "i < length (items st) \<Longrightarrow> items st ! i = storage st (nat (top_item st - int i))"
  by (simp add: items_def)

lemma items_push:
  "Stack_wf st \<Longrightarrow> top_item st + 1 < int stack_limit \<Longrightarrow>
   items (st\<lparr>top_item := top_item st + 1, storage := (storage st)(nat (top_item st + 1) := v)\<rparr>) = v # items st"
  by (rule nth_equalityI) (auto simp: items_def Stack_wf_def nth_Cons' algebra_simps simp del: upt_Suc)

lemma items_pop:
  "0 \<le> top_item st \<Longrightarrow> items st = storage st (nat (top_item st)) # items (st\<lparr>top_item := top_item st - 1\<rparr>)"
  by (rule nth_equalityI) (auto simp: items_def nth_Cons' algebra_simps simp del: upt_Suc)

lemma items_set:
  "i < length (items st) \<Longrightarrow>
   items (st\<lparr>storage := (storage st)(nat (top_item st - int i) := v)\<rparr>) = (items st)[i := v]"
  by (rule nth_equalityI) (auto simp: items_def nth_list_update simp del: upt_Suc)

interpretation ptr: stack_refinement items Stack_wf Stack_push Stack_pop Stack_get Stack_set
proof
  fix s v assume wf: "Stack_wf s"
  show "map_option items (Stack_push s v) = stk_push (items s) v"
    using wf by (auto simp: Stack_push_def Let_def items_push length_items) (auto simp: Stack_wf_def)
next
  fix s v s' assume wf: "Stack_wf s" and "Stack_push s v = Some s'"
  then show "Stack_wf s'" by (auto simp: Stack_push_def Stack_wf_def Let_def split: if_splits)
next
  fix s assume wf: "Stack_wf s"
  show "map_option (map_prod id items) (Stack_pop s) = stk_pop (items s)"
  proof (cases "0 \<le> top_item s")
    case True
    with wf have "Stack_pop s = Some (storage s (nat (top_item s)), s\<lparr>top_item := top_item s - 1\<rparr>)"
      by (simp add: Stack_pop_def Stack_wf_def)
    with items_pop [OF True] show ?thesis by simp
  next
    case False
    with wf have "top_item s = - 1" by (simp add: Stack_wf_def)
    then show ?thesis by (simp add: Stack_pop_def items_def)
  qed
next
  fix s i v assume wf: "Stack_wf s"
  show "Stack_get s i = stk_get (items s) i"
    using wf by (auto simp: Stack_get_def stk_get_def Let_def length_items items_nth Stack_wf_def)
  show "map_option items (Stack_set s i v) = stk_set (items s) i v"
    using wf by (auto simp: Stack_set_def stk_set_def Let_def length_items items_set Stack_wf_def)
next
  fix s v s' assume "Stack_wf s" "Stack_pop s = Some (v, s')"
  then show "Stack_wf s'" by (auto simp: Stack_pop_def Stack_wf_def split: if_splits)
next
  fix s i v s' assume "Stack_wf s" "Stack_set s i v = Some s'"
  then show "Stack_wf s'" by (auto simp: Stack_set_def Stack_wf_def Let_def split: if_splits)
qed

lemma Stack_new_wf: "Stack_wf (Stack_new g)" "items (Stack_new g) = []"
  by (simp_all add: Stack_new_def Stack_clear_def Stack_wf_def items_def stack_limit_def)

end
