(* ===== verification/Memory.thy ===== *)
theory Memory
  imports Prelude
begin

text \<open>
  The linear memory (\<^verbatim>\<open>class Memory\<close> of \<^verbatim>\<open>execution_state.hpp\<close>).

  \<open>Memory\<close> is the memory as the code has it: a heap buffer of \<open>m_capacity\<close> bytes of which the
  first \<open>m_size\<close> are the contents. Growing reallocates the buffer, keeps the contents and
  fills the extension with zeros; whatever else the allocator leaves in the buffer is
  arbitrary. An access outside the buffer is undefined behaviour. Running out of heap memory
  (\<^verbatim>\<open>std::terminate\<close>) is not modelled: \<^verbatim>\<open>realloc\<close> succeeds.

  The abstract memory is the list of its contents, with partial operations that are undefined
  outside the contents, which is stricter than the buffer. The instruction theories work on
  it; the locale \<open>memory_refinement\<close> states that wherever the list operation is defined an
  implementation computes the same, for single operations and for sequences of them. The
  buffer is an interpretation.
\<close>

definition page_size :: nat where
  "page_size = 4 * 1024"

section \<open>The list of contents\<close>

definition mem_grow :: "bytes \<Rightarrow> nat \<Rightarrow> bytes option" where
  "mem_grow bs n = (if n mod 32 = 0 \<and> length bs < n then Some (bs @ replicate (n - length bs) 0) else None)"

definition mem_read :: "bytes \<Rightarrow> nat \<Rightarrow> nat \<Rightarrow> bytes option" where
  "mem_read bs off n = (if off + n \<le> length bs then Some (take n (drop off bs)) else None)"

definition mem_write :: "bytes \<Rightarrow> nat \<Rightarrow> bytes \<Rightarrow> bytes option" where
  "mem_write bs off xs =
     (if off + length xs \<le> length bs then Some (take off bs @ xs @ drop (off + length xs) bs) else None)"

lemma mem_grow_length: "mem_grow bs n = Some bs' \<Longrightarrow> length bs' = n"
  by (auto simp: mem_grow_def split: if_splits)

lemma mem_write_length: "mem_write bs off xs = Some bs' \<Longrightarrow> length bs' = length bs"
  by (auto simp: mem_write_def split: if_splits)

lemma mem_read_length: "mem_read bs off n = Some xs \<Longrightarrow> length xs = n"
  by (auto simp: mem_read_def split: if_splits)

lemma mem_read_write_same:
  "mem_write bs off xs = Some bs' \<Longrightarrow> mem_read bs' off (length xs) = Some xs"
  by (auto simp: mem_write_def mem_read_def split: if_splits)

lemma mem_read_write_other:
  assumes "mem_write bs off xs = Some bs'" and "i + n \<le> off \<or> off + length xs \<le> i"
  shows "mem_read bs' i n = mem_read bs i n"
proof (rule disjE [OF assms(2)])
  assume "i + n \<le> off"
  with assms(1) show ?thesis
    by (auto simp: mem_write_def mem_read_def min_def drop_take intro!: nth_equalityI split: if_splits)
next
  assume a: "off + length xs \<le> i"
  with assms(1) have "drop i bs' = drop i bs" and "length bs' = length bs"
    by (auto simp: mem_write_def split: if_splits)
  then show ?thesis by (simp add: mem_read_def)
qed

lemma mem_read_grow_old: "mem_grow bs n = Some bs' \<Longrightarrow> off + k \<le> length bs \<Longrightarrow> mem_read bs' off k = mem_read bs off k"
  by (auto simp: mem_grow_def mem_read_def split: if_splits)

lemma mem_read_grow_new:
  "mem_grow bs n = Some bs' \<Longrightarrow> length bs \<le> off \<Longrightarrow> off + k \<le> n \<Longrightarrow> mem_read bs' off k = Some (replicate k 0)"
  by (auto simp: mem_grow_def mem_read_def split: if_splits)

section \<open>The heap buffer\<close>

record Memory =
  m_data :: "nat \<Rightarrow> byte"
  m_size :: nat
  m_capacity :: nat

text \<open>
  \<^verbatim>\<open>realloc\<close> keeps the bytes that were in the old buffer; \<open>garbage\<close> is what the allocator
  leaves in the rest.
\<close>

definition allocate_capacity :: "(nat \<Rightarrow> byte) \<Rightarrow> nat \<Rightarrow> Memory \<Rightarrow> Memory" where
  "allocate_capacity garbage old_capacity m =
     m\<lparr>m_data := (\<lambda>i. if i < old_capacity then m_data m i else garbage i)\<rparr>"

definition Memory_new :: "(nat \<Rightarrow> byte) \<Rightarrow> Memory" where
  "Memory_new garbage =
     allocate_capacity garbage 0 \<lparr>m_data = (\<lambda>_. 0), m_size = 0, m_capacity = page_size\<rparr>"

text \<open>The capacity after a growth to \<open>new_size\<close>: doubled, or rounded up to a page.\<close>

definition next_capacity :: "nat \<Rightarrow> nat \<Rightarrow> nat" where
  "next_capacity capacity new_size =
     (let c = capacity * 2 in
      if c < new_size then ((new_size + (page_size - 1)) div page_size) * page_size else c)"

definition Memory_grow :: "(nat \<Rightarrow> byte) \<Rightarrow> Memory \<Rightarrow> nat \<Rightarrow> Memory option" where
  "Memory_grow garbage m new_size =
     (if new_size mod 32 \<noteq> 0 \<or> new_size \<le> m_size m then None
      else
        let m' = (if m_capacity m < new_size
                  then allocate_capacity garbage (m_capacity m)
                         (m\<lparr>m_capacity := next_capacity (m_capacity m) new_size\<rparr>)
                  else m)
        in Some (m'\<lparr>m_data := (\<lambda>i. if m_size m' \<le> i \<and> i < new_size then 0 else m_data m' i),
                    m_size := new_size\<rparr>))"

definition Memory_clear :: "Memory \<Rightarrow> Memory" where
  "Memory_clear m = m\<lparr>m_size := 0\<rparr>"

text \<open>Reading and writing \<open>n\<close> bytes through \<^verbatim>\<open>operator[]\<close> and \<^verbatim>\<open>data()\<close>.\<close>

definition Memory_read :: "Memory \<Rightarrow> nat \<Rightarrow> nat \<Rightarrow> bytes option" where
  "Memory_read m off n =
     (if off + n \<le> m_capacity m then Some (map (m_data m) [off..<off + n]) else None)"

definition Memory_write :: "Memory \<Rightarrow> nat \<Rightarrow> bytes \<Rightarrow> Memory option" where
  "Memory_write m off xs =
     (if off + length xs \<le> m_capacity m
      then Some (m\<lparr>m_data := (\<lambda>i. if off \<le> i \<and> i < off + length xs then xs ! (i - off) else m_data m i)\<rparr>)
      else None)"

definition Memory_wf :: "Memory \<Rightarrow> bool" where
  "Memory_wf m \<longleftrightarrow> m_size m \<le> m_capacity m \<and> m_size m mod 32 = 0 \<and>
     m_capacity m mod page_size = 0 \<and> page_size \<le> m_capacity m"

definition contents :: "Memory \<Rightarrow> bytes" where
  "contents m = map (m_data m) [0..<m_size m]"

section \<open>Growth policy\<close>

lemma next_capacity_ge: "new_size \<le> next_capacity c new_size"
proof -
  have "new_size \<le> ((new_size + (page_size - 1)) div page_size) * page_size"
    by (simp add: page_size_def)
  then show ?thesis by (simp add: next_capacity_def Let_def)
qed

lemma next_capacity_pages: "c mod page_size = 0 \<Longrightarrow> next_capacity c n mod page_size = 0"
  by (auto simp: next_capacity_def Let_def)

lemma next_capacity_bound: "next_capacity c n \<le> max (2 * c) (n + page_size - 1)"
proof -
  have "((n + (page_size - 1)) div page_size) * page_size \<le> n + page_size - 1"
    by (simp add: page_size_def)
  then show ?thesis by (auto simp: next_capacity_def Let_def max_def)
qed

lemma next_capacity_double: "c * 2 \<le> next_capacity c n"
  using next_capacity_ge [of n c] by (auto simp: next_capacity_def Let_def split: if_splits)

lemma Memory_grow_wf: "Memory_wf m \<Longrightarrow> Memory_grow g m n = Some m' \<Longrightarrow> Memory_wf m'"
  using next_capacity_ge [of n "m_capacity m"] next_capacity_double [of "m_capacity m" n]
    next_capacity_pages [of "m_capacity m" n]
  by (auto simp: Memory_grow_def Memory_wf_def allocate_capacity_def Let_def split: if_splits)

section \<open>Refinement for every sequence of operations\<close>

datatype mem_cmd = Grow nat | Read nat nat | Write nat bytes

fun run_mem ::
  "('m \<Rightarrow> nat \<Rightarrow> 'm option) \<Rightarrow> ('m \<Rightarrow> nat \<Rightarrow> nat \<Rightarrow> bytes option) \<Rightarrow> ('m \<Rightarrow> nat \<Rightarrow> bytes \<Rightarrow> 'm option) \<Rightarrow>
   'm \<Rightarrow> mem_cmd list \<Rightarrow> bytes list option" where
  "run_mem gr re wr m [] = Some []"
| "run_mem gr re wr m (Grow n # cs) = do { m' \<leftarrow> gr m n; run_mem gr re wr m' cs }"
| "run_mem gr re wr m (Read off n # cs) =
     do { xs \<leftarrow> re m off n; ys \<leftarrow> run_mem gr re wr m cs; Some (xs # ys) }"
| "run_mem gr re wr m (Write off xs # cs) = do { m' \<leftarrow> wr m off xs; run_mem gr re wr m' cs }"

locale memory_refinement =
  fixes view :: "'m \<Rightarrow> bytes"
    and inv :: "'m \<Rightarrow> bool"
    and gr :: "'m \<Rightarrow> nat \<Rightarrow> 'm option"
    and re :: "'m \<Rightarrow> nat \<Rightarrow> nat \<Rightarrow> bytes option"
    and wr :: "'m \<Rightarrow> nat \<Rightarrow> bytes \<Rightarrow> 'm option"
  assumes grow_refines: "inv m \<Longrightarrow> mem_grow (view m) n = Some bs \<Longrightarrow> \<exists>m'. gr m n = Some m' \<and> view m' = bs \<and> inv m'"
    and read_refines: "inv m \<Longrightarrow> mem_read (view m) off k = Some xs \<Longrightarrow> re m off k = Some xs"
    and write_refines: "inv m \<Longrightarrow> mem_write (view m) off ys = Some bs \<Longrightarrow> \<exists>m'. wr m off ys = Some m' \<and> view m' = bs \<and> inv m'"
begin

lemma run_refines:
  "inv m \<Longrightarrow> run_mem mem_grow mem_read mem_write (view m) cs = Some out \<Longrightarrow> run_mem gr re wr m cs = Some out"
proof (induction cs arbitrary: m out)
  case Nil
  then show ?case by simp
next
  case (Cons c cs)
  show ?case
  proof (cases c)
    case (Grow n)
    with Cons.prems obtain bs where bs: "mem_grow (view m) n = Some bs"
      "run_mem mem_grow mem_read mem_write bs cs = Some out" by (auto split: bind_splits)
    from grow_refines [OF Cons.prems(1) bs(1)] Cons.IH bs(2) Grow show ?thesis by auto
  next
    case (Read off n)
    with Cons.prems obtain xs ys where "mem_read (view m) off n = Some xs"
      "run_mem mem_grow mem_read mem_write (view m) cs = Some ys" "out = xs # ys"
      by (auto split: bind_splits)
    with read_refines [OF Cons.prems(1)] Cons.IH [OF Cons.prems(1)] Read show ?thesis by simp
  next
    case (Write off xs)
    with Cons.prems obtain bs where bs: "mem_write (view m) off xs = Some bs"
      "run_mem mem_grow mem_read mem_write bs cs = Some out" by (auto split: bind_splits)
    from write_refines [OF Cons.prems(1) bs(1)] Cons.IH bs(2) Write show ?thesis by auto
  qed
qed

end

lemma length_contents [simp]: "length (contents m) = m_size m"
  by (simp add: contents_def)

lemma Memory_grow_contents:
  assumes "Memory_wf m" "n mod 32 = 0" "m_size m < n"
  shows "\<exists>m'. Memory_grow g m n = Some m' \<and> contents m' = contents m @ replicate (n - m_size m) 0"
  using assms
  by (auto simp: Memory_grow_def Memory_wf_def contents_def allocate_capacity_def Let_def nth_append
      intro!: nth_equalityI)

lemma Memory_read_contents:
  "Memory_wf m \<Longrightarrow> off + n \<le> m_size m \<Longrightarrow> Memory_read m off n = Some (take n (drop off (contents m)))"
  by (auto simp: Memory_read_def Memory_wf_def contents_def intro!: nth_equalityI)

lemma Memory_write_contents:
  "Memory_wf m \<Longrightarrow> off + length xs \<le> m_size m \<Longrightarrow>
   \<exists>m'. Memory_write m off xs = Some m' \<and> Memory_wf m' \<and>
     contents m' = take off (contents m) @ xs @ drop (off + length xs) (contents m)"
  by (auto simp: Memory_write_def Memory_wf_def contents_def nth_append intro!: nth_equalityI)

interpretation buf: memory_refinement contents Memory_wf "Memory_grow g" Memory_read Memory_write
  for g :: "nat \<Rightarrow> byte"
proof
  fix m n bs
  assume wf: "Memory_wf m" and "mem_grow (contents m) n = Some bs"
  then have c: "n mod 32 = 0" "m_size m < n" and bs: "bs = contents m @ replicate (n - m_size m) 0"
    by (auto simp: mem_grow_def split: if_splits)
  from Memory_grow_contents [OF wf c] Memory_grow_wf [OF wf] bs
  show "\<exists>m'. Memory_grow g m n = Some m' \<and> contents m' = bs \<and> Memory_wf m'" by blast
next
  fix m off k xs
  assume "Memory_wf m" "mem_read (contents m) off k = Some xs"
  then show "Memory_read m off k = Some xs"
    by (auto simp: mem_read_def Memory_read_contents split: if_splits)
next
  fix m off ys bs
  assume wf: "Memory_wf m" and "mem_write (contents m) off ys = Some bs"
  then have c: "off + length ys \<le> m_size m"
    and bs: "bs = take off (contents m) @ ys @ drop (off + length ys) (contents m)"
    by (auto simp: mem_write_def split: if_splits)
  from Memory_write_contents [OF wf c] bs
  show "\<exists>m'. Memory_write m off ys = Some m' \<and> contents m' = bs \<and> Memory_wf m'" by auto
qed

lemma Memory_new_wf: "Memory_wf (Memory_new g)" "contents (Memory_new g) = []"
  by (simp_all add: Memory_new_def allocate_capacity_def Memory_wf_def contents_def page_size_def)

end
