(* ===== verification/Execution_State.thy ===== *)
theory Execution_State
  imports Ivmc Stack Memory
begin

text \<open>
  \<^verbatim>\<open>struct ExecutionState\<close>, the state both interpreters share. The stack and the memory are the
  abstract ones of the theories \<open>Stack\<close> and \<open>Memory\<close>, whose refinement theorems connect them
  to the array and to the heap buffer. The host is its state \<open>'h\<close> (the host functions are a
  parameter of the instructions) and \<open>'a\<close> is the kind of code analysis an interpreter attaches.
  An extension of the record models a C++ class derived from \<^verbatim>\<open>ExecutionState\<close>; instructions are
  functions on every extension.
\<close>

record ('a, 'h) ExecutionState =
  gas_left :: int
  stack :: "uint256 list"
  memory :: bytes
  msg :: ivmc_message
  host :: 'h
  revision :: ivmc_revision
  return_data :: bytes
  code :: bytes
  status :: ivmc_status_code
  output_offset :: nat
  output_size :: nat
  analysis :: "'a option"

type_synonym ('a, 'h, 'z) state = "('a, 'h, 'z) ExecutionState_scheme"

text \<open>The constructor and \<^verbatim>\<open>reset()\<close>.\<close>

definition new_state :: "ivmc_message \<Rightarrow> ivmc_revision \<Rightarrow> 'h \<Rightarrow> bytes \<Rightarrow> ('a, 'h) ExecutionState" where
  "new_state m r h c =
     \<lparr>gas_left = msg_gas m, stack = [], memory = [], msg = m, host = h, revision = r,
      return_data = [], code = c, status = IVMC_SUCCESS, output_offset = 0, output_size = 0,
      analysis = None\<rparr>"

definition reset_state ::
  "ivmc_message \<Rightarrow> ivmc_revision \<Rightarrow> 'h \<Rightarrow> bytes \<Rightarrow> ('a, 'h, 'z) state \<Rightarrow> ('a, 'h, 'z) state" where
  "reset_state m r h c s =
     s\<lparr>gas_left := msg_gas m, stack := [], memory := [], msg := m, host := h, revision := r,
       return_data := [], code := c, status := IVMC_SUCCESS, output_offset := 0, output_size := 0\<rparr>"

text \<open>
  The well-formedness every instruction keeps: the stack within its limit, the memory a whole
  number of words and no larger than what a 32-bit offset and size can reach, the return data a
  buffer that fits in the address space.
\<close>

definition memory_bound :: nat where
  "memory_bound = 2 ^ 33"

definition state_wf :: "('a, 'h, 'z) state \<Rightarrow> bool" where
  "state_wf s \<longleftrightarrow>
     length (stack s) \<le> stack_limit \<and> length (memory s) mod 32 = 0 \<and> length (memory s) \<le> memory_bound \<and>
     length (return_data s) < 2 ^ 63"

lemma new_state_wf: "state_wf (new_state m r h c)"
  by (simp add: state_wf_def new_state_def)

lemma reset_state_wf: "state_wf (reset_state m r h c s)"
  by (simp add: state_wf_def reset_state_def)

lemma reset_state_fresh:
  "reset_state m r h c (s :: ('a, 'h) ExecutionState) = (new_state m r h c)\<lparr>analysis := analysis s\<rparr>"
  by (simp add: reset_state_def new_state_def)

end
