(* ===== verification/Instruction_Traits.thy ===== *)
theory Instruction_Traits
  imports Ivmc
begin

text \<open>
  Opcodes and the instruction tables of \<^verbatim>\<open>instruction_traits.hpp\<close>: base gas costs per revision and
  the revision-independent traits. A table is a function from the opcode number. The opcode
  numbers are the constants of the IVM instruction set (\<^verbatim>\<open>ivmc/instructions.h\<close>).

  The lemmas characterise the tables for every opcode at once: which opcodes are defined since
  when, that a defined cost is a non-negative 16-bit number, that an instruction grows the stack
  by one item at most, and that costs other than zero are positive (which is what makes gas a
  termination measure).
\<close>

section \<open>Opcodes\<close>

abbreviation (input) OP_STOP :: nat where "OP_STOP \<equiv> 0"
abbreviation (input) OP_ADD :: nat where "OP_ADD \<equiv> 1"
abbreviation (input) OP_MUL :: nat where "OP_MUL \<equiv> 2"
abbreviation (input) OP_SUB :: nat where "OP_SUB \<equiv> 3"
abbreviation (input) OP_DIV :: nat where "OP_DIV \<equiv> 4"
abbreviation (input) OP_SDIV :: nat where "OP_SDIV \<equiv> 5"
abbreviation (input) OP_MOD :: nat where "OP_MOD \<equiv> 6"
abbreviation (input) OP_SMOD :: nat where "OP_SMOD \<equiv> 7"
abbreviation (input) OP_ADDMOD :: nat where "OP_ADDMOD \<equiv> 8"
abbreviation (input) OP_MULMOD :: nat where "OP_MULMOD \<equiv> 9"
abbreviation (input) OP_EXP :: nat where "OP_EXP \<equiv> 10"
abbreviation (input) OP_SIGNEXTEND :: nat where "OP_SIGNEXTEND \<equiv> 11"
abbreviation (input) OP_LT :: nat where "OP_LT \<equiv> 16"
abbreviation (input) OP_GT :: nat where "OP_GT \<equiv> 17"
abbreviation (input) OP_SLT :: nat where "OP_SLT \<equiv> 18"
abbreviation (input) OP_SGT :: nat where "OP_SGT \<equiv> 19"
abbreviation (input) OP_EQ :: nat where "OP_EQ \<equiv> 20"
abbreviation (input) OP_ISZERO :: nat where "OP_ISZERO \<equiv> 21"
abbreviation (input) OP_AND :: nat where "OP_AND \<equiv> 22"
abbreviation (input) OP_OR :: nat where "OP_OR \<equiv> 23"
abbreviation (input) OP_XOR :: nat where "OP_XOR \<equiv> 24"
abbreviation (input) OP_NOT :: nat where "OP_NOT \<equiv> 25"
abbreviation (input) OP_BYTE :: nat where "OP_BYTE \<equiv> 26"
abbreviation (input) OP_SHL :: nat where "OP_SHL \<equiv> 27"
abbreviation (input) OP_SHR :: nat where "OP_SHR \<equiv> 28"
abbreviation (input) OP_SAR :: nat where "OP_SAR \<equiv> 29"
abbreviation (input) OP_KECCAK256 :: nat where "OP_KECCAK256 \<equiv> 32"
abbreviation (input) OP_ADDRESS :: nat where "OP_ADDRESS \<equiv> 48"
abbreviation (input) OP_BALANCE :: nat where "OP_BALANCE \<equiv> 49"
abbreviation (input) OP_ORIGIN :: nat where "OP_ORIGIN \<equiv> 50"
abbreviation (input) OP_CALLER :: nat where "OP_CALLER \<equiv> 51"
abbreviation (input) OP_CALLVALUE :: nat where "OP_CALLVALUE \<equiv> 52"
abbreviation (input) OP_CALLDATALOAD :: nat where "OP_CALLDATALOAD \<equiv> 53"
abbreviation (input) OP_CALLDATASIZE :: nat where "OP_CALLDATASIZE \<equiv> 54"
abbreviation (input) OP_CALLDATACOPY :: nat where "OP_CALLDATACOPY \<equiv> 55"
abbreviation (input) OP_CODESIZE :: nat where "OP_CODESIZE \<equiv> 56"
abbreviation (input) OP_CODECOPY :: nat where "OP_CODECOPY \<equiv> 57"
abbreviation (input) OP_GASPRICE :: nat where "OP_GASPRICE \<equiv> 58"
abbreviation (input) OP_EXTCODESIZE :: nat where "OP_EXTCODESIZE \<equiv> 59"
abbreviation (input) OP_EXTCODECOPY :: nat where "OP_EXTCODECOPY \<equiv> 60"
abbreviation (input) OP_RETURNDATASIZE :: nat where "OP_RETURNDATASIZE \<equiv> 61"
abbreviation (input) OP_RETURNDATACOPY :: nat where "OP_RETURNDATACOPY \<equiv> 62"
abbreviation (input) OP_EXTCODEHASH :: nat where "OP_EXTCODEHASH \<equiv> 63"
abbreviation (input) OP_BLOCKHASH :: nat where "OP_BLOCKHASH \<equiv> 64"
abbreviation (input) OP_COINBASE :: nat where "OP_COINBASE \<equiv> 65"
abbreviation (input) OP_TIMESTAMP :: nat where "OP_TIMESTAMP \<equiv> 66"
abbreviation (input) OP_NUMBER :: nat where "OP_NUMBER \<equiv> 67"
abbreviation (input) OP_DIFFICULTY :: nat where "OP_DIFFICULTY \<equiv> 68"
abbreviation (input) OP_GASLIMIT :: nat where "OP_GASLIMIT \<equiv> 69"
abbreviation (input) OP_CHAINID :: nat where "OP_CHAINID \<equiv> 70"
abbreviation (input) OP_SELFBALANCE :: nat where "OP_SELFBALANCE \<equiv> 71"
abbreviation (input) OP_BASEFEE :: nat where "OP_BASEFEE \<equiv> 72"
abbreviation (input) OP_POP :: nat where "OP_POP \<equiv> 80"
abbreviation (input) OP_MLOAD :: nat where "OP_MLOAD \<equiv> 81"
abbreviation (input) OP_MSTORE :: nat where "OP_MSTORE \<equiv> 82"
abbreviation (input) OP_MSTORE8 :: nat where "OP_MSTORE8 \<equiv> 83"
abbreviation (input) OP_SLOAD :: nat where "OP_SLOAD \<equiv> 84"
abbreviation (input) OP_SSTORE :: nat where "OP_SSTORE \<equiv> 85"
abbreviation (input) OP_JUMP :: nat where "OP_JUMP \<equiv> 86"
abbreviation (input) OP_JUMPI :: nat where "OP_JUMPI \<equiv> 87"
abbreviation (input) OP_PC :: nat where "OP_PC \<equiv> 88"
abbreviation (input) OP_MSIZE :: nat where "OP_MSIZE \<equiv> 89"
abbreviation (input) OP_GAS :: nat where "OP_GAS \<equiv> 90"
abbreviation (input) OP_JUMPDEST :: nat where "OP_JUMPDEST \<equiv> 91"
abbreviation (input) OP_PUSH1 :: nat where "OP_PUSH1 \<equiv> 96"
abbreviation (input) OP_PUSH8 :: nat where "OP_PUSH8 \<equiv> 103"
abbreviation (input) OP_PUSH9 :: nat where "OP_PUSH9 \<equiv> 104"
abbreviation (input) OP_PUSH32 :: nat where "OP_PUSH32 \<equiv> 127"
abbreviation (input) OP_DUP1 :: nat where "OP_DUP1 \<equiv> 128"
abbreviation (input) OP_DUP16 :: nat where "OP_DUP16 \<equiv> 143"
abbreviation (input) OP_SWAP1 :: nat where "OP_SWAP1 \<equiv> 144"
abbreviation (input) OP_SWAP16 :: nat where "OP_SWAP16 \<equiv> 159"
abbreviation (input) OP_LOG0 :: nat where "OP_LOG0 \<equiv> 160"
abbreviation (input) OP_LOG4 :: nat where "OP_LOG4 \<equiv> 164"
abbreviation (input) OP_CREATE :: nat where "OP_CREATE \<equiv> 240"
abbreviation (input) OP_CALL :: nat where "OP_CALL \<equiv> 241"
abbreviation (input) OP_CALLCODE :: nat where "OP_CALLCODE \<equiv> 242"
abbreviation (input) OP_RETURN :: nat where "OP_RETURN \<equiv> 243"
abbreviation (input) OP_DELEGATECALL :: nat where "OP_DELEGATECALL \<equiv> 244"
abbreviation (input) OP_CREATE2 :: nat where "OP_CREATE2 \<equiv> 245"
abbreviation (input) OP_STATICCALL :: nat where "OP_STATICCALL \<equiv> 250"
abbreviation (input) OP_REVERT :: nat where "OP_REVERT \<equiv> 253"
abbreviation (input) OP_INVALID :: nat where "OP_INVALID \<equiv> 254"
abbreviation (input) OP_SELFDESTRUCT :: nat where "OP_SELFDESTRUCT \<equiv> 255"

section \<open>Gas costs\<close>

text \<open>The cost that marks an undefined instruction.\<close>

definition undefined_cost :: int where
  "undefined_cost = - 1"

definition cold_sload_cost :: int where
  "cold_sload_cost = 2100"

definition cold_account_access_cost :: int where
  "cold_account_access_cost = 2600"

definition warm_storage_read_cost :: int where
  "warm_storage_read_cost = 100"

definition additional_cold_account_access_cost :: int where
  "additional_cold_account_access_cost = cold_account_access_cost - warm_storage_read_cost"

lemmas cost_defs = undefined_cost_def cold_sload_cost_def cold_account_access_cost_def
  warm_storage_read_cost_def additional_cold_account_access_cost_def

text \<open>\<^verbatim>\<open>for (op = lo; op <= hi; ++op) table[op] = f(op)\<close>\<close>

definition set_range :: "nat \<Rightarrow> nat \<Rightarrow> (nat \<Rightarrow> 'a) \<Rightarrow> (nat \<Rightarrow> 'a) \<Rightarrow> (nat \<Rightarrow> 'a)" where
  "set_range lo hi f t = (\<lambda>op. if lo \<le> op \<and> op \<le> hi then f op else t op)"

definition gas_costs_frontier :: "nat \<Rightarrow> int" where
  "gas_costs_frontier =
     (set_range OP_LOG0 OP_LOG4 (\<lambda>op. (int op - int OP_LOG0 + 1) * 375)
     (set_range OP_SWAP1 OP_SWAP16 (\<lambda>op. 3)
     (set_range OP_DUP1 OP_DUP16 (\<lambda>op. 3)
     (set_range OP_PUSH1 OP_PUSH32 (\<lambda>op. 3)
     ((\<lambda>op. undefined_cost)(
      OP_STOP := 0, OP_ADD := 3, OP_MUL := 5, OP_SUB := 3, OP_DIV := 5, OP_SDIV := 5,
      OP_MOD := 5, OP_SMOD := 5, OP_ADDMOD := 8, OP_MULMOD := 8, OP_EXP := 10,
      OP_SIGNEXTEND := 5, OP_LT := 3, OP_GT := 3, OP_SLT := 3, OP_SGT := 3, OP_EQ := 3,
      OP_ISZERO := 3, OP_AND := 3, OP_OR := 3, OP_XOR := 3, OP_NOT := 3, OP_BYTE := 3,
      OP_KECCAK256 := 30, OP_ADDRESS := 2, OP_BALANCE := 20, OP_ORIGIN := 2, OP_CALLER := 2,
      OP_CALLVALUE := 2, OP_CALLDATALOAD := 3, OP_CALLDATASIZE := 2, OP_CALLDATACOPY := 3,
      OP_CODESIZE := 2, OP_CODECOPY := 3, OP_GASPRICE := 2, OP_EXTCODESIZE := 20,
      OP_EXTCODECOPY := 20, OP_BLOCKHASH := 20, OP_COINBASE := 2, OP_TIMESTAMP := 2,
      OP_NUMBER := 2, OP_DIFFICULTY := 2, OP_GASLIMIT := 2, OP_POP := 2, OP_MLOAD := 3,
      OP_MSTORE := 3, OP_MSTORE8 := 3, OP_SLOAD := 50, OP_SSTORE := 0, OP_JUMP := 8,
      OP_JUMPI := 10, OP_PC := 2, OP_MSIZE := 2, OP_GAS := 2, OP_JUMPDEST := 1))))))(
      OP_CREATE := 32000, OP_CALL := 40, OP_CALLCODE := 40, OP_RETURN := 0, OP_INVALID := 0,
      OP_SELFDESTRUCT := 0)"

definition gas_costs_homestead :: "nat \<Rightarrow> int" where
  "gas_costs_homestead = gas_costs_frontier(
      OP_DELEGATECALL := 40)"

definition gas_costs_tangerine_whistle :: "nat \<Rightarrow> int" where
  "gas_costs_tangerine_whistle = gas_costs_homestead(
      OP_BALANCE := 400, OP_EXTCODESIZE := 700, OP_EXTCODECOPY := 700, OP_SLOAD := 200,
      OP_CALL := 700, OP_CALLCODE := 700, OP_DELEGATECALL := 700, OP_SELFDESTRUCT := 5000)"

definition gas_costs_spurious_dragon :: "nat \<Rightarrow> int" where
  "gas_costs_spurious_dragon = gas_costs_tangerine_whistle"

definition gas_costs_byzantium :: "nat \<Rightarrow> int" where
  "gas_costs_byzantium = gas_costs_spurious_dragon(
      OP_RETURNDATASIZE := 2, OP_RETURNDATACOPY := 3, OP_STATICCALL := 700, OP_REVERT := 0)"

definition gas_costs_constantinople :: "nat \<Rightarrow> int" where
  "gas_costs_constantinople = gas_costs_byzantium(
      OP_SHL := 3, OP_SHR := 3, OP_SAR := 3, OP_EXTCODEHASH := 400, OP_CREATE2 := 32000)"

definition gas_costs_petersburg :: "nat \<Rightarrow> int" where
  "gas_costs_petersburg = gas_costs_constantinople"

definition gas_costs_istanbul :: "nat \<Rightarrow> int" where
  "gas_costs_istanbul = gas_costs_petersburg(
      OP_BALANCE := 700, OP_CHAINID := 2, OP_EXTCODEHASH := 700, OP_SELFBALANCE := 5,
      OP_SLOAD := 800)"

definition gas_costs_berlin :: "nat \<Rightarrow> int" where
  "gas_costs_berlin = gas_costs_istanbul(
      OP_EXTCODESIZE := warm_storage_read_cost, OP_EXTCODECOPY := warm_storage_read_cost,
      OP_EXTCODEHASH := warm_storage_read_cost, OP_BALANCE := warm_storage_read_cost,
      OP_CALL := warm_storage_read_cost, OP_CALLCODE := warm_storage_read_cost,
      OP_DELEGATECALL := warm_storage_read_cost, OP_STATICCALL := warm_storage_read_cost,
      OP_SLOAD := warm_storage_read_cost)"

definition gas_costs_london :: "nat \<Rightarrow> int" where
  "gas_costs_london = gas_costs_berlin(
      OP_BASEFEE := 2)"

definition gas_costs_shanghai :: "nat \<Rightarrow> int" where
  "gas_costs_shanghai = gas_costs_london"

fun gas_costs :: "ivmc_revision \<Rightarrow> nat \<Rightarrow> int" where
  "gas_costs IVMC_FRONTIER = gas_costs_frontier"
| "gas_costs IVMC_HOMESTEAD = gas_costs_homestead"
| "gas_costs IVMC_TANGERINE_WHISTLE = gas_costs_tangerine_whistle"
| "gas_costs IVMC_SPURIOUS_DRAGON = gas_costs_spurious_dragon"
| "gas_costs IVMC_BYZANTIUM = gas_costs_byzantium"
| "gas_costs IVMC_CONSTANTINOPLE = gas_costs_constantinople"
| "gas_costs IVMC_PETERSBURG = gas_costs_petersburg"
| "gas_costs IVMC_ISTANBUL = gas_costs_istanbul"
| "gas_costs IVMC_BERLIN = gas_costs_berlin"
| "gas_costs IVMC_LONDON = gas_costs_london"
| "gas_costs IVMC_SHANGHAI = gas_costs_shanghai"

lemmas gas_costs_defs = set_range_def
  gas_costs_frontier_def
  gas_costs_homestead_def
  gas_costs_tangerine_whistle_def
  gas_costs_spurious_dragon_def
  gas_costs_byzantium_def
  gas_costs_constantinople_def
  gas_costs_petersburg_def
  gas_costs_istanbul_def
  gas_costs_berlin_def
  gas_costs_london_def
  gas_costs_shanghai_def

section \<open>Traits\<close>

record Traits =
  trait_name :: "string option"
  stack_height_required :: int
  stack_height_change :: int
  since :: "ivmc_revision option"

text \<open>\<^verbatim>\<open>Traits{}\<close>: no name, no stack effect, no revision.\<close>

definition no_traits :: Traits where
  "no_traits = \<lparr>trait_name = None, stack_height_required = 0, stack_height_change = 0, since = None\<rparr>"

definition mk_traits :: "string \<Rightarrow> int \<Rightarrow> int \<Rightarrow> ivmc_revision \<Rightarrow> Traits" where
  "mk_traits n req chg r =
     \<lparr>trait_name = Some n, stack_height_required = req, stack_height_change = chg, since = Some r\<rparr>"

definition digit_char :: "nat \<Rightarrow> char" where
  "digit_char n = char_of (48 + n)"

text \<open>The decimal numeral of a number below one hundred, as in the names of the numbered instructions.\<close>

definition numbered :: "string \<Rightarrow> nat \<Rightarrow> string" where
  "numbered base n = base @ (if n < 10 then [digit_char n] else [digit_char (n div 10), digit_char (n mod 10)])"

definition traits :: "nat \<Rightarrow> Traits" where
  "traits =
     (set_range OP_LOG0 OP_LOG4
       (\<lambda>op. mk_traits (numbered ''LOG'' (op - OP_LOG0))
          (int op - int OP_LOG0 + 2) (- (int op - int OP_LOG0 + 2)) IVMC_FRONTIER)
     (set_range OP_SWAP1 OP_SWAP16
       (\<lambda>op. mk_traits (numbered ''SWAP'' (op - OP_SWAP1 + 1)) (int op - int OP_SWAP1 + 2) 0 IVMC_FRONTIER)
     (set_range OP_DUP1 OP_DUP16
       (\<lambda>op. mk_traits (numbered ''DUP'' (op - OP_DUP1 + 1)) (int op - int OP_DUP1 + 1) 1 IVMC_FRONTIER)
     (set_range OP_PUSH1 OP_PUSH32
       (\<lambda>op. mk_traits (numbered ''PUSH'' (op - OP_PUSH1 + 1)) 0 1 IVMC_FRONTIER)
     ((\<lambda>op. no_traits)(
      OP_STOP := mk_traits ''STOP'' 0 0 IVMC_FRONTIER,
      OP_ADD := mk_traits ''ADD'' 2 (- 1) IVMC_FRONTIER,
      OP_MUL := mk_traits ''MUL'' 2 (- 1) IVMC_FRONTIER,
      OP_SUB := mk_traits ''SUB'' 2 (- 1) IVMC_FRONTIER,
      OP_DIV := mk_traits ''DIV'' 2 (- 1) IVMC_FRONTIER,
      OP_SDIV := mk_traits ''SDIV'' 2 (- 1) IVMC_FRONTIER,
      OP_MOD := mk_traits ''MOD'' 2 (- 1) IVMC_FRONTIER,
      OP_SMOD := mk_traits ''SMOD'' 2 (- 1) IVMC_FRONTIER,
      OP_ADDMOD := mk_traits ''ADDMOD'' 3 (- 2) IVMC_FRONTIER,
      OP_MULMOD := mk_traits ''MULMOD'' 3 (- 2) IVMC_FRONTIER,
      OP_EXP := mk_traits ''EXP'' 2 (- 1) IVMC_FRONTIER,
      OP_SIGNEXTEND := mk_traits ''SIGNEXTEND'' 2 (- 1) IVMC_FRONTIER,
      OP_LT := mk_traits ''LT'' 2 (- 1) IVMC_FRONTIER,
      OP_GT := mk_traits ''GT'' 2 (- 1) IVMC_FRONTIER,
      OP_SLT := mk_traits ''SLT'' 2 (- 1) IVMC_FRONTIER,
      OP_SGT := mk_traits ''SGT'' 2 (- 1) IVMC_FRONTIER,
      OP_EQ := mk_traits ''EQ'' 2 (- 1) IVMC_FRONTIER,
      OP_ISZERO := mk_traits ''ISZERO'' 1 0 IVMC_FRONTIER,
      OP_AND := mk_traits ''AND'' 2 (- 1) IVMC_FRONTIER,
      OP_OR := mk_traits ''OR'' 2 (- 1) IVMC_FRONTIER,
      OP_XOR := mk_traits ''XOR'' 2 (- 1) IVMC_FRONTIER,
      OP_NOT := mk_traits ''NOT'' 1 0 IVMC_FRONTIER,
      OP_BYTE := mk_traits ''BYTE'' 2 (- 1) IVMC_FRONTIER,
      OP_SHL := mk_traits ''SHL'' 2 (- 1) IVMC_CONSTANTINOPLE,
      OP_SHR := mk_traits ''SHR'' 2 (- 1) IVMC_CONSTANTINOPLE,
      OP_SAR := mk_traits ''SAR'' 2 (- 1) IVMC_CONSTANTINOPLE,
      OP_KECCAK256 := mk_traits ''KECCAK256'' 2 (- 1) IVMC_FRONTIER,
      OP_ADDRESS := mk_traits ''ADDRESS'' 0 1 IVMC_FRONTIER,
      OP_BALANCE := mk_traits ''BALANCE'' 1 0 IVMC_FRONTIER,
      OP_ORIGIN := mk_traits ''ORIGIN'' 0 1 IVMC_FRONTIER,
      OP_CALLER := mk_traits ''CALLER'' 0 1 IVMC_FRONTIER,
      OP_CALLVALUE := mk_traits ''CALLVALUE'' 0 1 IVMC_FRONTIER,
      OP_CALLDATALOAD := mk_traits ''CALLDATALOAD'' 1 0 IVMC_FRONTIER,
      OP_CALLDATASIZE := mk_traits ''CALLDATASIZE'' 0 1 IVMC_FRONTIER,
      OP_CALLDATACOPY := mk_traits ''CALLDATACOPY'' 3 (- 3) IVMC_FRONTIER,
      OP_CODESIZE := mk_traits ''CODESIZE'' 0 1 IVMC_FRONTIER,
      OP_CODECOPY := mk_traits ''CODECOPY'' 3 (- 3) IVMC_FRONTIER,
      OP_GASPRICE := mk_traits ''GASPRICE'' 0 1 IVMC_FRONTIER,
      OP_EXTCODESIZE := mk_traits ''EXTCODESIZE'' 1 0 IVMC_FRONTIER,
      OP_EXTCODECOPY := mk_traits ''EXTCODECOPY'' 4 (- 4) IVMC_FRONTIER,
      OP_RETURNDATASIZE := mk_traits ''RETURNDATASIZE'' 0 1 IVMC_BYZANTIUM,
      OP_RETURNDATACOPY := mk_traits ''RETURNDATACOPY'' 3 (- 3) IVMC_BYZANTIUM,
      OP_EXTCODEHASH := mk_traits ''EXTCODEHASH'' 1 0 IVMC_CONSTANTINOPLE,
      OP_BLOCKHASH := mk_traits ''BLOCKHASH'' 1 0 IVMC_FRONTIER,
      OP_COINBASE := mk_traits ''COINBASE'' 0 1 IVMC_FRONTIER,
      OP_TIMESTAMP := mk_traits ''TIMESTAMP'' 0 1 IVMC_FRONTIER,
      OP_NUMBER := mk_traits ''NUMBER'' 0 1 IVMC_FRONTIER,
      OP_DIFFICULTY := mk_traits ''DIFFICULTY'' 0 1 IVMC_FRONTIER,
      OP_GASLIMIT := mk_traits ''GASLIMIT'' 0 1 IVMC_FRONTIER,
      OP_CHAINID := mk_traits ''CHAINID'' 0 1 IVMC_ISTANBUL,
      OP_SELFBALANCE := mk_traits ''SELFBALANCE'' 0 1 IVMC_ISTANBUL,
      OP_BASEFEE := mk_traits ''BASEFEE'' 0 1 IVMC_LONDON,
      OP_POP := mk_traits ''POP'' 1 (- 1) IVMC_FRONTIER,
      OP_MLOAD := mk_traits ''MLOAD'' 1 0 IVMC_FRONTIER,
      OP_MSTORE := mk_traits ''MSTORE'' 2 (- 2) IVMC_FRONTIER,
      OP_MSTORE8 := mk_traits ''MSTORE8'' 2 (- 2) IVMC_FRONTIER,
      OP_SLOAD := mk_traits ''SLOAD'' 1 0 IVMC_FRONTIER,
      OP_SSTORE := mk_traits ''SSTORE'' 2 (- 2) IVMC_FRONTIER,
      OP_JUMP := mk_traits ''JUMP'' 1 (- 1) IVMC_FRONTIER,
      OP_JUMPI := mk_traits ''JUMPI'' 2 (- 2) IVMC_FRONTIER,
      OP_PC := mk_traits ''PC'' 0 1 IVMC_FRONTIER,
      OP_MSIZE := mk_traits ''MSIZE'' 0 1 IVMC_FRONTIER,
      OP_GAS := mk_traits ''GAS'' 0 1 IVMC_FRONTIER,
      OP_JUMPDEST := mk_traits ''JUMPDEST'' 0 0 IVMC_FRONTIER))))))(
      OP_CREATE := mk_traits ''CREATE'' 3 (- 2) IVMC_FRONTIER,
      OP_CALL := mk_traits ''CALL'' 7 (- 6) IVMC_FRONTIER,
      OP_CALLCODE := mk_traits ''CALLCODE'' 7 (- 6) IVMC_FRONTIER,
      OP_RETURN := mk_traits ''RETURN'' 2 (- 2) IVMC_FRONTIER,
      OP_DELEGATECALL := mk_traits ''DELEGATECALL'' 6 (- 5) IVMC_HOMESTEAD,
      OP_CREATE2 := mk_traits ''CREATE2'' 4 (- 3) IVMC_CONSTANTINOPLE,
      OP_STATICCALL := mk_traits ''STATICCALL'' 6 (- 5) IVMC_BYZANTIUM,
      OP_REVERT := mk_traits ''REVERT'' 2 (- 2) IVMC_BYZANTIUM,
      OP_INVALID := mk_traits ''INVALID'' 0 0 IVMC_FRONTIER,
      OP_SELFDESTRUCT := mk_traits ''SELFDESTRUCT'' 1 (- 1) IVMC_FRONTIER)"

section \<open>The tables for every opcode\<close>

lemmas traits_simps = traits_def set_range_def no_traits_def mk_traits_def

lemma gas_costs_frontier_cases:
  "gas_costs_frontier op = undefined_cost \<or>
   (0 \<le> gas_costs_frontier op \<and> gas_costs_frontier op \<le> 32000)"
  by (simp add: gas_costs_frontier_def set_range_def)

lemma gas_costs_range:
  "gas_costs r op = undefined_cost \<or> (0 \<le> gas_costs r op \<and> gas_costs r op \<le> 32000)"
  using gas_costs_frontier_cases [of op]
  by (cases r) (simp_all add: gas_costs_defs(3-) warm_storage_read_cost_def)

lemma gas_costs_control:
  "gas_costs r OP_STOP = 0" "gas_costs r OP_JUMP = 8" "gas_costs r OP_JUMPI = 10" "gas_costs r OP_JUMPDEST = 1"
proof -
  have "gas_costs_frontier OP_STOP = 0" "gas_costs_frontier OP_JUMP = 8" "gas_costs_frontier OP_JUMPI = 10"
    "gas_costs_frontier OP_JUMPDEST = 1"
    by (simp_all add: gas_costs_frontier_def set_range_def)
  then show "gas_costs r OP_STOP = 0" "gas_costs r OP_JUMP = 8" "gas_costs r OP_JUMPI = 10" "gas_costs r OP_JUMPDEST = 1"
    by (cases r; simp add: gas_costs_defs(3-))+
qed

lemma gas_costs_create: "gas_costs r OP_CREATE = 32000"
proof -
  have "gas_costs_frontier OP_CREATE = 32000" by (simp add: gas_costs_frontier_def set_range_def)
  then show ?thesis by (cases r) (simp_all add: gas_costs_defs(3-))
qed

lemma gas_costs_frontier_defined:
  "gas_costs_frontier op \<noteq> undefined_cost \<longleftrightarrow> since (traits op) = Some IVMC_FRONTIER"
  by (simp add: gas_costs_frontier_def traits_simps undefined_cost_def)

lemma since_homestead: "since (traits op) = Some IVMC_HOMESTEAD \<longleftrightarrow> op = OP_DELEGATECALL"
  by (simp add: traits_simps)

lemma since_byzantium:
  "since (traits op) = Some IVMC_BYZANTIUM \<longleftrightarrow>
   op = OP_RETURNDATASIZE \<or> op = OP_RETURNDATACOPY \<or> op = OP_STATICCALL \<or> op = OP_REVERT"
  by (simp add: traits_simps)

lemma since_constantinople:
  "since (traits op) = Some IVMC_CONSTANTINOPLE \<longleftrightarrow>
   op = OP_SHL \<or> op = OP_SHR \<or> op = OP_SAR \<or> op = OP_EXTCODEHASH \<or> op = OP_CREATE2"
  by (simp add: traits_simps)

lemma since_istanbul:
  "since (traits op) = Some IVMC_ISTANBUL \<longleftrightarrow> op = OP_CHAINID \<or> op = OP_SELFBALANCE"
  by (simp add: traits_simps)

lemma since_london: "since (traits op) = Some IVMC_LONDON \<longleftrightarrow> op = OP_BASEFEE"
  by (simp add: traits_simps)

lemma since_never:
  "since (traits op) \<noteq> Some IVMC_TANGERINE_WHISTLE" "since (traits op) \<noteq> Some IVMC_SPURIOUS_DRAGON"
  "since (traits op) \<noteq> Some IVMC_PETERSBURG" "since (traits op) \<noteq> Some IVMC_BERLIN"
  "since (traits op) \<noteq> Some IVMC_SHANGHAI"
  by (simp_all add: traits_simps)

lemmas since_iff = since_homestead since_byzantium since_constantinople since_istanbul since_london
  gas_costs_frontier_defined [symmetric]

lemma gas_costs_frontier_repriced:
  "gas_costs_frontier OP_BALANCE = 20" "gas_costs_frontier OP_EXTCODESIZE = 20"
  "gas_costs_frontier OP_EXTCODECOPY = 20" "gas_costs_frontier OP_SLOAD = 50"
  "gas_costs_frontier OP_CALL = 40" "gas_costs_frontier OP_CALLCODE = 40"
  "gas_costs_frontier OP_SELFDESTRUCT = 0"
  by (simp_all add: gas_costs_frontier_def set_range_def)

lemma ex_revision:
  "(\<exists>r. P r) \<longleftrightarrow> P IVMC_FRONTIER \<or> P IVMC_HOMESTEAD \<or> P IVMC_TANGERINE_WHISTLE \<or>
     P IVMC_SPURIOUS_DRAGON \<or> P IVMC_BYZANTIUM \<or> P IVMC_CONSTANTINOPLE \<or> P IVMC_PETERSBURG \<or>
     P IVMC_ISTANBUL \<or> P IVMC_BERLIN \<or> P IVMC_LONDON \<or> P IVMC_SHANGHAI"
proof
  assume "\<exists>r. P r"
  then obtain r where "P r" ..
  then show "P IVMC_FRONTIER \<or> P IVMC_HOMESTEAD \<or> P IVMC_TANGERINE_WHISTLE \<or>
     P IVMC_SPURIOUS_DRAGON \<or> P IVMC_BYZANTIUM \<or> P IVMC_CONSTANTINOPLE \<or> P IVMC_PETERSBURG \<or>
     P IVMC_ISTANBUL \<or> P IVMC_BERLIN \<or> P IVMC_LONDON \<or> P IVMC_SHANGHAI"
    by (cases r) simp_all
qed auto

lemma gas_costs_defined_since:
  "gas_costs r op \<noteq> undefined_cost \<longleftrightarrow> (\<exists>r0. since (traits op) = Some r0 \<and> r0 \<le> r)"
  unfolding ex_revision since_iff
  by (cases r) (auto simp: gas_costs_defs(3-) cost_defs rev_order since_never
      gas_costs_frontier_repriced)

lemma gas_costs_monotone:
  "gas_costs r op \<noteq> undefined_cost \<Longrightarrow> r \<le> r' \<Longrightarrow> gas_costs r' op \<noteq> undefined_cost"
  by (auto simp: gas_costs_defined_since intro: order_trans)

lemma gas_costs_zero_frontier:
  "gas_costs_frontier op = 0 \<longleftrightarrow>
   op = OP_STOP \<or> op = OP_SSTORE \<or> op = OP_RETURN \<or> op = OP_INVALID \<or> op = OP_SELFDESTRUCT"
  by (simp add: gas_costs_frontier_def set_range_def undefined_cost_def)

lemma gas_costs_zero:
  "gas_costs r op = 0 \<Longrightarrow>
   op = OP_STOP \<or> op = OP_SSTORE \<or> op = OP_RETURN \<or> op = OP_INVALID \<or> op = OP_SELFDESTRUCT \<or>
   op = OP_REVERT"
  using gas_costs_zero_frontier [of op]
  by (cases r) (auto simp: gas_costs_defs(3-) warm_storage_read_cost_def split: if_splits)

lemma traits_stack_range:
  "0 \<le> stack_height_required (traits op) \<and> stack_height_required (traits op) \<le> 17 \<and>
   - stack_height_required (traits op) \<le> stack_height_change (traits op) \<and>
   stack_height_change (traits op) \<le> 1"
  by (simp add: traits_simps)

lemma gas_costs_ge_256: "256 \<le> op \<Longrightarrow> gas_costs r op = undefined_cost"
  by (cases r) (simp_all add: gas_costs_defs)

end
