(* ===== verification/Code_Analysis.thy ===== *)
theory Code_Analysis
  imports Instruction_Traits
begin

text \<open>
  The code analysis of the Baseline interpreter (\<^verbatim>\<open>baseline::analyze\<close>): one pass over the code that
  marks the \<^verbatim>\<open>JUMPDEST\<close> bytes that are not push data, and a copy of the code padded so that the
  interpreter loop meets a \<^verbatim>\<open>STOP\<close>.

  The specification is \<open>valid_jumpdest\<close>, over the inductively defined positions at which an
  instruction starts; the theorems say that the bitmap is exactly that set and describe the
  padded code.
\<close>

record CodeAnalysis =
  padded_code :: bytes
  jumpdest_map :: "bool list"

section \<open>The analysis\<close>

function scan_jumpdests :: "bytes \<Rightarrow> nat \<Rightarrow> bool list \<Rightarrow> nat \<times> bool list" where
  "scan_jumpdests c i m =
     (if i < length c then
        let op = c ! i in
        if sint op \<ge> int OP_PUSH1
        then scan_jumpdests c (i + (unat op - (OP_PUSH1 - 1)) + 1) m
        else scan_jumpdests c (i + 1) (if unat op = OP_JUMPDEST then m[i := True] else m)
      else (i, m))"
  by pat_completeness auto
termination
  by (relation "measure (\<lambda>(c, i, m). length c - i)") auto

declare scan_jumpdests.simps [simp del]

text \<open>
  The buffer for the padded code is allocated without initialisation: \<open>garbage\<close> is what it
  holds before the writes.
\<close>

definition analyze_baseline :: "(nat \<Rightarrow> byte) \<Rightarrow> bytes \<Rightarrow> CodeAnalysis" where
  "analyze_baseline garbage c =
     (let (i, m) = scan_jumpdests c 0 (replicate (length c) False);
          buffer = map garbage [0..<i + 1];
          copied = c @ drop (length c) buffer
      in \<lparr>padded_code = copied[length c := of_nat OP_STOP, i := of_nat OP_STOP], jumpdest_map = m\<rparr>)"

section \<open>Instruction boundaries\<close>

definition is_push :: "nat \<Rightarrow> bool" where
  "is_push op \<longleftrightarrow> OP_PUSH1 \<le> op \<and> op \<le> OP_PUSH32"

definition push_len :: "nat \<Rightarrow> nat" where
  "push_len op = (if is_push op then op - OP_PUSH1 + 1 else 0)"

text \<open>The position after the instruction at \<open>p\<close>, push data included.\<close>

definition next_pos :: "bytes \<Rightarrow> nat \<Rightarrow> nat" where
  "next_pos c p = p + 1 + push_len (unat (c ! p))"

inductive instr_start :: "bytes \<Rightarrow> nat \<Rightarrow> bool" for c where
  first: "instr_start c 0"
| step: "instr_start c p \<Longrightarrow> p < length c \<Longrightarrow> instr_start c (next_pos c p)"

definition valid_jumpdest :: "bytes \<Rightarrow> nat \<Rightarrow> bool" where
  "valid_jumpdest c p \<longleftrightarrow> p < length c \<and> unat (c ! p) = OP_JUMPDEST \<and> instr_start c p"

text \<open>The executable enumeration of the instruction boundaries from \<open>p\<close> on, with the end position.\<close>

function boundaries :: "bytes \<Rightarrow> nat \<Rightarrow> nat list" where
  "boundaries c p = (if p < length c then p # boundaries c (next_pos c p) else [p])"
  by pat_completeness auto
termination
  by (relation "measure (\<lambda>(c, p). length c - p)") (auto simp: next_pos_def)

declare boundaries.simps [simp del]

definition code_end :: "bytes \<Rightarrow> nat" where
  "code_end c = last (boundaries c 0)"

section \<open>Correctness of the analysis\<close>

lemma next_pos_gt [simp]: "p < next_pos c p"
  by (simp add: next_pos_def)

lemma sint_ge_push1: "96 \<le> sint (b :: byte) \<longleftrightarrow> is_push (unat b)"
  using unat_byte_less [of b] unfolding sint_byte is_push_def
  by (cases "unat b < 128"; simp only: if_True if_False; arith)

lemma push_skip: "is_push op \<Longrightarrow> p + (op - (OP_PUSH1 - 1)) + 1 = p + 1 + push_len op"
  by (auto simp: push_len_def is_push_def)

lemma boundaries_ge: "q \<in> set (boundaries c p) \<Longrightarrow> p \<le> q"
proof (induction c p rule: boundaries.induct)
  case (1 c p)
  then show ?case
    by (subst (asm) boundaries.simps) (auto split: if_splits intro: less_imp_le order_less_le_trans [OF next_pos_gt])
qed

lemma boundaries_end: "length c \<le> last (boundaries c p)"
proof (induction c p rule: boundaries.induct)
  case (1 c p)
  then show ?case by (subst boundaries.simps) (auto simp: boundaries.simps [of c "next_pos c p"])
qed

lemma boundaries_next:
  "q \<in> set (boundaries c p) \<Longrightarrow> q < length c \<Longrightarrow> next_pos c q \<in> set (boundaries c p)"
proof (induction c p rule: boundaries.induct)
  case (1 c p)
  have here: "next_pos c p \<in> set (boundaries c (next_pos c p))"
    by (subst boundaries.simps) simp
  from 1 here show ?case
    by (subst (asm) (2) boundaries.simps, subst boundaries.simps) (auto split: if_splits)
qed

lemma boundaries_start:
  "instr_start c p \<Longrightarrow> q \<in> set (boundaries c p) \<Longrightarrow> instr_start c q"
proof (induction c p rule: boundaries.induct)
  case (1 c p)
  then show ?case
    by (subst (asm) (2) boundaries.simps) (auto split: if_splits intro: instr_start.step)
qed

lemma instr_start_boundaries: "instr_start c p \<longleftrightarrow> p \<in> set (boundaries c 0)"
proof
  assume "instr_start c p"
  then show "p \<in> set (boundaries c 0)"
  proof (induction rule: instr_start.induct)
    case first
    show ?case by (subst boundaries.simps) simp
  next
    case (step p)
    then show ?case by (blast intro: boundaries_next)
  qed
next
  assume "p \<in> set (boundaries c 0)"
  with boundaries_start [OF instr_start.first] show "instr_start c p" by blast
qed

lemma scan_jumpdests_eq:
  "length m = length c \<Longrightarrow>
   scan_jumpdests c i m =
     (last (boundaries c i),
      map (\<lambda>p. m ! p \<or> (p \<in> set (boundaries c i) \<and> unat (c ! p) = OP_JUMPDEST)) [0..<length c])"
proof (induction c i m rule: scan_jumpdests.induct)
  case (1 c i m)
  show ?case
  proof (cases "i < length c")
    case False
    with 1(3) show ?thesis
      by (auto simp: scan_jumpdests.simps [of c i] boundaries.simps [of c i] intro!: nth_equalityI)
  next
    case True
    have ne: "boundaries c (next_pos c i) \<noteq> []" by (subst boundaries.simps) simp
    note b = boundaries.simps [of c i]
    show ?thesis
    proof (cases "is_push (unat (c ! i))")
      case p: True
      then have nj: "unat (c ! i) \<noteq> OP_JUMPDEST" by (auto simp: is_push_def)
      have sk: "i + (unat (c ! i) - (OP_PUSH1 - 1)) + 1 = next_pos c i"
        using push_skip [OF p, of i] by (simp add: next_pos_def)
      have "scan_jumpdests c i m = scan_jumpdests c (next_pos c i) m"
        using True p sk by (simp add: scan_jumpdests.simps [of c i] sint_ge_push1 Let_def)
      also have "\<dots> = (last (boundaries c (next_pos c i)), map (\<lambda>p. m ! p \<or>
          (p \<in> set (boundaries c (next_pos c i)) \<and> unat (c ! p) = OP_JUMPDEST)) [0..<length c])"
        using 1(1) [OF True refl] p sk 1(3) by (simp add: sint_ge_push1)
      finally show ?thesis using True b ne nj by auto
    next
      case np: False
      let ?m = "if unat (c ! i) = OP_JUMPDEST then m[i := True] else m"
      have nx: "next_pos c i = i + 1" using np by (simp add: next_pos_def push_len_def)
      have "scan_jumpdests c i m = scan_jumpdests c (i + 1) ?m"
        using True np by (simp add: scan_jumpdests.simps [of c i] sint_ge_push1 Let_def)
      also have "\<dots> = (last (boundaries c (i + 1)), map (\<lambda>p. ?m ! p \<or>
          (p \<in> set (boundaries c (i + 1)) \<and> unat (c ! p) = OP_JUMPDEST)) [0..<length c])"
        using 1(2) [OF True refl] np 1(3) by (simp add: sint_ge_push1)
      finally show ?thesis using True b ne nx 1(3) by (auto simp: nth_list_update)
    qed
  qed
qed

lemma code_end_ge: "length c \<le> code_end c"
  by (simp add: code_end_def boundaries_end)

lemma analyze_baseline_unfold:
  "analyze_baseline g c =
    \<lparr>padded_code = (c @ map g [length c..<code_end c + 1])[length c := of_nat OP_STOP, code_end c := of_nat OP_STOP],
     jumpdest_map = map (valid_jumpdest c) [0..<length c]\<rparr>"
proof -
  have "drop (length c) (map g [0..<code_end c + 1]) = map g [length c..<code_end c + 1]"
    by (simp add: drop_map)
  then show ?thesis
    using scan_jumpdests_eq [of "replicate (length c) False" c 0]
    by (simp add: analyze_baseline_def code_end_def valid_jumpdest_def instr_start_boundaries
        conj_commute cong: conj_cong)
qed

lemma length_padded: "length (padded_code (analyze_baseline g c)) = code_end c + 1"
  using code_end_ge [of c] by (simp add: analyze_baseline_unfold)

lemma padded_code_prefix:
  "p < length c \<Longrightarrow> padded_code (analyze_baseline g c) ! p = c ! p"
  using code_end_ge [of c] by (simp add: analyze_baseline_unfold nth_append)

lemma padded_code_stop: "padded_code (analyze_baseline g c) ! code_end c = 0"
  using code_end_ge [of c] by (simp add: analyze_baseline_unfold)

lemma boundaries_le_last: "q \<in> set (boundaries c p) \<Longrightarrow> q \<le> last (boundaries c p)"
proof (induction c p rule: boundaries.induct)
  case (1 c p)
  have ne: "boundaries c (next_pos c p) \<noteq> []" by (subst boundaries.simps) simp
  have le: "p \<le> last (boundaries c (next_pos c p))"
    using boundaries_ge [OF last_in_set [OF ne]] next_pos_gt [of p c] by linarith
  from 1 ne le show ?case by (auto simp: boundaries.simps [of c p] split: if_splits)
qed

lemma instr_start_le_end: "instr_start c p \<Longrightarrow> p \<le> code_end c"
  by (simp add: instr_start_boundaries code_end_def boundaries_le_last)

lemma next_pos_le_end: "instr_start c p \<Longrightarrow> p < length c \<Longrightarrow> next_pos c p \<le> code_end c"
  by (rule instr_start_le_end) (rule instr_start.step)

lemma instr_start_end: "instr_start c p \<Longrightarrow> length c \<le> p \<Longrightarrow> p = code_end c"
proof -
  have *: "q \<in> set (boundaries c p) \<Longrightarrow> length c \<le> q \<Longrightarrow> q = last (boundaries c p)" for q p
  proof (induction c p rule: boundaries.induct)
    case (1 c p)
    have ne: "boundaries c (next_pos c p) \<noteq> []" by (subst boundaries.simps) simp
    from 1 ne show ?case by (auto simp: boundaries.simps [of c p] split: if_splits)
  qed
  show "instr_start c p \<Longrightarrow> length c \<le> p \<Longrightarrow> p = code_end c"
    using * by (simp add: instr_start_boundaries code_end_def)
qed

lemma code_end_start: "instr_start c (code_end c)"
proof -
  have "boundaries c 0 \<noteq> []" by (subst boundaries.simps) simp
  then show ?thesis by (simp add: instr_start_boundaries code_end_def)
qed

lemma code_end_bound: "code_end c \<le> length c + 32"
proof -
  have *: "p \<le> length c + 32 \<Longrightarrow> last (boundaries c p) \<le> length c + 32" for p
  proof (induction c p rule: boundaries.induct)
    case (1 c p)
    have ne: "boundaries c (next_pos c p) \<noteq> []" by (subst boundaries.simps) simp
    have "p < length c \<Longrightarrow> next_pos c p \<le> length c + 32"
      by (auto simp: next_pos_def push_len_def is_push_def)
    with 1 ne show ?case by (auto simp: boundaries.simps [of c p])
  qed
  show ?thesis using * [of 0] by (simp add: code_end_def)
qed

end
