(* ===== verification/Instructions.thy ===== *)
theory Instructions
  imports Execution_State Code_Analysis
begin

text \<open>
  The instruction implementations of \<^verbatim>\<open>instructions.hpp\<close>. Each C++ function is one definition with
  the suffix \<open>_instr\<close>. The four signatures of the source are
  \<^item> instructions that always succeed: \<open>state \<Rightarrow> state option\<close>;
  \<^item> instructions that may fail: \<open>state \<Rightarrow> (ivmc_status_code \<times> state) option\<close>;
  \<^item> terminating instructions, which return a stop token: the same type;
  \<^item> instructions that read the code position: \<open>state \<Rightarrow> nat \<Rightarrow> (nat option \<times> state) option\<close>,
    where the result \<open>None\<close> is the null pointer that ends the interpreter loop.

  The outer \<open>option\<close> is undefined behaviour. Signed 64-bit gas arithmetic is on integers;
  the bounds theorem in the root theory shows it stays within the type.
\<close>

section \<open>Helpers\<close>

definition max_buffer_size :: u64 where
  "max_buffer_size = 0xffffffff"

text \<open>The 64-bit limb \<open>i\<close> of a 256-bit number, and the conversions \<^verbatim>\<open>static_cast<uint64_t>\<close>, \<^verbatim>\<open>static_cast<size_t>\<close>.\<close>

definition limb :: "uint256 \<Rightarrow> nat \<Rightarrow> u64" where
  "limb x i = ucast (drop_bit (64 * i) x)"

definition to_u64 :: "uint256 \<Rightarrow> u64" where
  "to_u64 x = ucast x"

definition to_size :: "uint256 \<Rightarrow> nat" where
  "to_size x = unat (to_u64 x)"

definition num_words :: "u64 \<Rightarrow> int" where
  "num_words size_in_bytes = sint ((size_in_bytes + (32 - 1)) div 32)"

definition memory_cost :: "int \<Rightarrow> int" where
  "memory_cost words = 3 * words + words * words div 512"

definition grow_memory :: "('a, 'h, 'z) state \<Rightarrow> u64 \<Rightarrow> (bool \<times> ('a, 'h, 'z) state) option" where
  "grow_memory s new_size =
     (let new_words = num_words new_size;
          current_words = int (length (memory s) div 32);
          cost = memory_cost new_words - memory_cost current_words;
          s = s\<lparr>gas_left := gas_left s - cost\<rparr>
      in if gas_left s < 0 then Some (False, s)
         else do {
           m \<leftarrow> mem_grow (memory s) (nat (new_words * 32));
           Some (True, s\<lparr>memory := m\<rparr>)
         })"

definition check_memory64 ::
  "('a, 'h, 'z) state \<Rightarrow> uint256 \<Rightarrow> u64 \<Rightarrow> (bool \<times> ('a, 'h, 'z) state) option" where
  "check_memory64 s off sz =
     (if (limb off 3 OR limb off 2 OR limb off 1) \<noteq> 0 \<or> limb off 0 > max_buffer_size
      then Some (False, s)
      else
        let new_size = to_u64 off + sz in
        if unat new_size > length (memory s) then grow_memory s new_size else Some (True, s))"

definition check_memory ::
  "('a, 'h, 'z) state \<Rightarrow> uint256 \<Rightarrow> uint256 \<Rightarrow> (bool \<times> ('a, 'h, 'z) state) option" where
  "check_memory s off sz =
     (if sz = 0 then Some (True, s)
      else if (limb sz 3 OR limb sz 2 OR limb sz 1) \<noteq> 0 \<or> limb sz 0 > max_buffer_size
      then Some (False, s)
      else check_memory64 s off (to_u64 sz))"

text \<open>\<^verbatim>\<open>state.gas_left -= cost\<close>\<close>

definition use_gas :: "int \<Rightarrow> ('a, 'h, 'z) state \<Rightarrow> ('a, 'h, 'z) state" where
  "use_gas cost s = s\<lparr>gas_left := gas_left s - cost\<rparr>"

text \<open>Instructions that work on the stack alone.\<close>

definition on_stack ::
  "(uint256 list \<Rightarrow> uint256 list option) \<Rightarrow> ('a, 'h, 'z) state \<Rightarrow> ('a, 'h, 'z) state option" where
  "on_stack f s = do { st \<leftarrow> f (stack s); Some (s\<lparr>stack := st\<rparr>) }"

definition of_bool256 :: "bool \<Rightarrow> uint256" where
  "of_bool256 b = (if b then 1 else 0)"

section \<open>Arithmetic\<close>

definition stop_instr :: "('a, 'h, 'z) state \<Rightarrow> (ivmc_status_code \<times> ('a, 'h, 'z) state) option" where
  "stop_instr s = Some (IVMC_SUCCESS, s)"

definition add_instr :: "('a, 'h, 'z) state \<Rightarrow> ('a, 'h, 'z) state option" where
  "add_instr = on_stack (\<lambda>st. do { (y, st) \<leftarrow> stk_pop st; x \<leftarrow> stk_top st; stk_set_top st (x + y) })"

definition mul_instr :: "('a, 'h, 'z) state \<Rightarrow> ('a, 'h, 'z) state option" where
  "mul_instr = on_stack (\<lambda>st. do { (y, st) \<leftarrow> stk_pop st; x \<leftarrow> stk_top st; stk_set_top st (x * y) })"

definition sub_instr :: "('a, 'h, 'z) state \<Rightarrow> ('a, 'h, 'z) state option" where
  "sub_instr = on_stack (\<lambda>st. do {
     a \<leftarrow> stk_get st 0; b \<leftarrow> stk_get st 1;
     st \<leftarrow> stk_set st 1 (a - b);
     (_, st) \<leftarrow> stk_pop st; Some st })"

definition div_instr :: "lib \<Rightarrow> ('a, 'h, 'z) state \<Rightarrow> ('a, 'h, 'z) state option" where
  "div_instr L = on_stack (\<lambda>st. do {
     v \<leftarrow> stk_get st 1; a \<leftarrow> stk_get st 0;
     st \<leftarrow> stk_set st 1 (if v \<noteq> 0 then intx_div L a v else 0);
     (_, st) \<leftarrow> stk_pop st; Some st })"

definition sdiv_instr :: "lib \<Rightarrow> ('a, 'h, 'z) state \<Rightarrow> ('a, 'h, 'z) state option" where
  "sdiv_instr L = on_stack (\<lambda>st. do {
     v \<leftarrow> stk_get st 1; a \<leftarrow> stk_get st 0;
     st \<leftarrow> stk_set st 1 (if v \<noteq> 0 then fst (intx_sdivrem L a v) else 0);
     (_, st) \<leftarrow> stk_pop st; Some st })"

definition mod_instr :: "lib \<Rightarrow> ('a, 'h, 'z) state \<Rightarrow> ('a, 'h, 'z) state option" where
  "mod_instr L = on_stack (\<lambda>st. do {
     v \<leftarrow> stk_get st 1; a \<leftarrow> stk_get st 0;
     st \<leftarrow> stk_set st 1 (if v \<noteq> 0 then intx_mod L a v else 0);
     (_, st) \<leftarrow> stk_pop st; Some st })"

definition smod_instr :: "lib \<Rightarrow> ('a, 'h, 'z) state \<Rightarrow> ('a, 'h, 'z) state option" where
  "smod_instr L = on_stack (\<lambda>st. do {
     v \<leftarrow> stk_get st 1; a \<leftarrow> stk_get st 0;
     st \<leftarrow> stk_set st 1 (if v \<noteq> 0 then snd (intx_sdivrem L a v) else 0);
     (_, st) \<leftarrow> stk_pop st; Some st })"

definition addmod_instr :: "lib \<Rightarrow> ('a, 'h, 'z) state \<Rightarrow> ('a, 'h, 'z) state option" where
  "addmod_instr L = on_stack (\<lambda>st. do {
     (x, st) \<leftarrow> stk_pop st; (y, st) \<leftarrow> stk_pop st; m \<leftarrow> stk_top st;
     stk_set_top st (if m \<noteq> 0 then intx_addmod L x y m else 0) })"

definition mulmod_instr :: "lib \<Rightarrow> ('a, 'h, 'z) state \<Rightarrow> ('a, 'h, 'z) state option" where
  "mulmod_instr L = on_stack (\<lambda>st. do {
     (x, st) \<leftarrow> stk_pop st; (y, st) \<leftarrow> stk_pop st; m \<leftarrow> stk_top st;
     stk_set_top st (if m \<noteq> 0 then intx_mulmod L x y m else 0) })"

definition exp_instr :: "lib \<Rightarrow> ('a, 'h, 'z) state \<Rightarrow> (ivmc_status_code \<times> ('a, 'h, 'z) state) option" where
  "exp_instr L s = do {
     (base, st) \<leftarrow> stk_pop (stack s);
     exponent \<leftarrow> stk_top st;
     let exponent_significant_bytes = int (intx_count_significant_bytes L exponent);
         exponent_cost = (if revision s \<ge> IVMC_SPURIOUS_DRAGON then 50 else 10);
         s = use_gas (exponent_significant_bytes * exponent_cost) (s\<lparr>stack := st\<rparr>)
     in if gas_left s < 0 then Some (IVMC_OUT_OF_GAS, s)
        else do {
          st \<leftarrow> stk_set_top (stack s) (intx_exp L base exponent);
          Some (IVMC_SUCCESS, s\<lparr>stack := st\<rparr>)
        } }"

definition signextend_instr :: "lib \<Rightarrow> ('a, 'h, 'z) state \<Rightarrow> ('a, 'h, 'z) state option" where
  "signextend_instr L = on_stack (\<lambda>st. do {
     (ext, st) \<leftarrow> stk_pop st; x \<leftarrow> stk_top st;
     if ext < 31 then
       let sign_bit = to_u64 ext * 8 + 7;
           sign_mask = intx_shl64 L 1 sign_bit;
           value_mask = sign_mask - 1;
           is_neg = (x AND sign_mask) \<noteq> 0
       in stk_set_top st (if is_neg then x OR NOT value_mask else x AND value_mask)
     else Some st })"

section \<open>Comparison and bitwise logic\<close>

definition lt_instr :: "('a, 'h, 'z) state \<Rightarrow> ('a, 'h, 'z) state option" where
  "lt_instr = on_stack (\<lambda>st. do { (x, st) \<leftarrow> stk_pop st; y \<leftarrow> stk_get st 0; stk_set st 0 (of_bool256 (x < y)) })"

definition gt_instr :: "('a, 'h, 'z) state \<Rightarrow> ('a, 'h, 'z) state option" where
  "gt_instr = on_stack (\<lambda>st. do { (x, st) \<leftarrow> stk_pop st; y \<leftarrow> stk_get st 0; stk_set st 0 (of_bool256 (y < x)) })"

definition slt_instr :: "lib \<Rightarrow> ('a, 'h, 'z) state \<Rightarrow> ('a, 'h, 'z) state option" where
  "slt_instr L = on_stack (\<lambda>st. do {
     (x, st) \<leftarrow> stk_pop st; y \<leftarrow> stk_get st 0; stk_set st 0 (of_bool256 (intx_slt L x y)) })"

definition sgt_instr :: "lib \<Rightarrow> ('a, 'h, 'z) state \<Rightarrow> ('a, 'h, 'z) state option" where
  "sgt_instr L = on_stack (\<lambda>st. do {
     (x, st) \<leftarrow> stk_pop st; y \<leftarrow> stk_get st 0; stk_set st 0 (of_bool256 (intx_slt L y x)) })"

definition eq_instr :: "('a, 'h, 'z) state \<Rightarrow> ('a, 'h, 'z) state option" where
  "eq_instr = on_stack (\<lambda>st. do {
     a \<leftarrow> stk_get st 0; b \<leftarrow> stk_get st 1;
     st \<leftarrow> stk_set st 1 (of_bool256 (a = b));
     (_, st) \<leftarrow> stk_pop st; Some st })"

definition iszero_instr :: "('a, 'h, 'z) state \<Rightarrow> ('a, 'h, 'z) state option" where
  "iszero_instr = on_stack (\<lambda>st. do { x \<leftarrow> stk_top st; stk_set_top st (of_bool256 (x = 0)) })"

definition and_instr :: "('a, 'h, 'z) state \<Rightarrow> ('a, 'h, 'z) state option" where
  "and_instr = on_stack (\<lambda>st. do { (y, st) \<leftarrow> stk_pop st; x \<leftarrow> stk_top st; stk_set_top st (x AND y) })"

definition or_instr :: "('a, 'h, 'z) state \<Rightarrow> ('a, 'h, 'z) state option" where
  "or_instr = on_stack (\<lambda>st. do { (y, st) \<leftarrow> stk_pop st; x \<leftarrow> stk_top st; stk_set_top st (x OR y) })"

definition xor_instr :: "('a, 'h, 'z) state \<Rightarrow> ('a, 'h, 'z) state option" where
  "xor_instr = on_stack (\<lambda>st. do { (y, st) \<leftarrow> stk_pop st; x \<leftarrow> stk_top st; stk_set_top st (x XOR y) })"

definition not_instr :: "('a, 'h, 'z) state \<Rightarrow> ('a, 'h, 'z) state option" where
  "not_instr = on_stack (\<lambda>st. do { x \<leftarrow> stk_top st; stk_set_top st (NOT x) })"

definition byte_instr :: "('a, 'h, 'z) state \<Rightarrow> ('a, 'h, 'z) state option" where
  "byte_instr = on_stack (\<lambda>st. do {
     (n, st) \<leftarrow> stk_pop st; x \<leftarrow> stk_top st;
     let n_valid = n < 32;
         byte_mask = (if n_valid then 0xff else 0) :: u64;
         index = 31 - unat (limb n 0 mod 32);
         word = limb x (index div 8);
         byte_index = index mod 8;
         b = drop_bit (byte_index * 8) word AND byte_mask
     in stk_set_top st (ucast b) })"

definition shl_instr :: "lib \<Rightarrow> ('a, 'h, 'z) state \<Rightarrow> ('a, 'h, 'z) state option" where
  "shl_instr L = on_stack (\<lambda>st. do { (y, st) \<leftarrow> stk_pop st; x \<leftarrow> stk_top st; stk_set_top st (intx_shl L x y) })"

definition shr_instr :: "lib \<Rightarrow> ('a, 'h, 'z) state \<Rightarrow> ('a, 'h, 'z) state option" where
  "shr_instr L = on_stack (\<lambda>st. do { (y, st) \<leftarrow> stk_pop st; x \<leftarrow> stk_top st; stk_set_top st (intx_shr L x y) })"

definition sar_instr :: "lib \<Rightarrow> ('a, 'h, 'z) state \<Rightarrow> ('a, 'h, 'z) state option" where
  "sar_instr L = on_stack (\<lambda>st. do {
     (y, st) \<leftarrow> stk_pop st; x \<leftarrow> stk_top st;
     let is_neg = sint (limb x 3) < 0;
         sign_mask = (if is_neg then NOT 0 else 0) :: uint256;
         mask_shift = (if y < 256 then 256 - limb y 0 else 0)
     in stk_set_top st (intx_shr L x y OR intx_shl64 L sign_mask mask_shift) })"

section \<open>Hashing, environment and copies\<close>

definition keccak256_instr :: "lib \<Rightarrow> ('a, 'h, 'z) state \<Rightarrow> (ivmc_status_code \<times> ('a, 'h, 'z) state) option" where
  "keccak256_instr L s = do {
     (index, st) \<leftarrow> stk_pop (stack s);
     size \<leftarrow> stk_top st;
     (ok, s) \<leftarrow> check_memory (s\<lparr>stack := st\<rparr>) index size;
     if \<not> ok then Some (IVMC_OUT_OF_GAS, s)
     else
       let i = to_size index;
           n = to_size size;
           s = use_gas (num_words (to_u64 size) * 6) s
       in if gas_left s < 0 then Some (IVMC_OUT_OF_GAS, s)
          else do {
            data \<leftarrow> (if n \<noteq> 0 then mem_read (memory s) i n else Some []);
            st \<leftarrow> stk_set_top (stack s) (be_load L (ethash_keccak256 L data));
            Some (IVMC_SUCCESS, s\<lparr>stack := st\<rparr>)
          } }"

definition push_instr_value :: "uint256 \<Rightarrow> ('a, 'h, 'z) state \<Rightarrow> ('a, 'h, 'z) state option" where
  "push_instr_value v = on_stack (\<lambda>st. stk_push st v)"

definition address_instr :: "lib \<Rightarrow> ('a, 'h, 'z) state \<Rightarrow> ('a, 'h, 'z) state option" where
  "address_instr L s = push_instr_value (be_load L (msg_recipient (msg s))) s"

text \<open>
  The cold access charge shared by the account instructions: \<open>Inl\<close> is the early return with
  \<^verbatim>\<open>IVMC_OUT_OF_GAS\<close>.
\<close>

definition charge_cold_account ::
  "'h host_interface \<Rightarrow> int \<Rightarrow> bytes \<Rightarrow> ('a, 'h, 'z) state \<Rightarrow> ('a, 'h, 'z) state + ('a, 'h, 'z) state" where
  "charge_cold_account H cost addr s =
     (if revision s \<ge> IVMC_BERLIN then
        let (access, h) = access_account H addr (host s);
            s = s\<lparr>host := h\<rparr>
        in if access = IVMC_ACCESS_COLD then
             let s = use_gas cost s in if gas_left s < 0 then Inl s else Inr s
           else Inr s
      else Inr s)"

definition balance_instr ::
  "lib \<Rightarrow> 'h host_interface \<Rightarrow> ('a, 'h, 'z) state \<Rightarrow> (ivmc_status_code \<times> ('a, 'h, 'z) state) option" where
  "balance_instr L H s = do {
     x \<leftarrow> stk_top (stack s);
     let addr = be_trunc L x in
     case charge_cold_account H additional_cold_account_access_cost addr s of
       Inl s \<Rightarrow> Some (IVMC_OUT_OF_GAS, s)
     | Inr s \<Rightarrow> do {
         st \<leftarrow> stk_set_top (stack s) (be_load L (get_balance H addr (host s)));
         Some (IVMC_SUCCESS, s\<lparr>stack := st\<rparr>)
       } }"

definition origin_instr :: "lib \<Rightarrow> 'h host_interface \<Rightarrow> ('a, 'h, 'z) state \<Rightarrow> ('a, 'h, 'z) state option" where
  "origin_instr L H s = push_instr_value (be_load L (tx_origin (get_tx_context H (host s)))) s"

definition caller_instr :: "lib \<Rightarrow> ('a, 'h, 'z) state \<Rightarrow> ('a, 'h, 'z) state option" where
  "caller_instr L s = push_instr_value (be_load L (msg_sender (msg s))) s"

definition callvalue_instr :: "lib \<Rightarrow> ('a, 'h, 'z) state \<Rightarrow> ('a, 'h, 'z) state option" where
  "callvalue_instr L s = push_instr_value (be_load L (msg_value (msg s))) s"

definition calldataload_instr :: "lib \<Rightarrow> ('a, 'h, 'z) state \<Rightarrow> ('a, 'h, 'z) state option" where
  "calldataload_instr L s = do {
     index \<leftarrow> stk_top (stack s);
     let input = msg_input (msg s) in
     if length input < unat index then do {
       st \<leftarrow> stk_set_top (stack s) 0; Some (s\<lparr>stack := st\<rparr>) }
     else
       let first = to_size index;
           last = min (first + 32) (length input);
           data = map (\<lambda>i. if i < last - first then input ! (first + i) else 0) [0..<32]
       in do { st \<leftarrow> stk_set_top (stack s) (be_load L data); Some (s\<lparr>stack := st\<rparr>) } }"

definition calldatasize_instr :: "('a, 'h, 'z) state \<Rightarrow> ('a, 'h, 'z) state option" where
  "calldatasize_instr s = push_instr_value (of_nat (length (msg_input (msg s)))) s"

text \<open>
  The end of the copy instructions: \<^verbatim>\<open>memcpy\<close> of the bytes there are, \<^verbatim>\<open>memset\<close> to zero of the rest of
  the \<open>n\<close> bytes at \<open>dst\<close>, each only if it has bytes to write.
\<close>

definition write_padded :: "bytes \<Rightarrow> nat \<Rightarrow> bytes \<Rightarrow> nat \<Rightarrow> bytes option" where
  "write_padded m dst xs n = do {
     m \<leftarrow> (if length xs > 0 then mem_write m dst xs else Some m);
     if n - length xs > 0 then mem_write m (dst + length xs) (replicate (n - length xs) 0) else Some m }"

text \<open>
  The copy shared by \<^verbatim>\<open>calldatacopy\<close> and \<^verbatim>\<open>codecopy\<close>: \<open>n\<close> bytes from \<open>data\<close> at \<open>input_index\<close> to the
  memory at \<open>mem_index\<close>, zeros past the end of the data.
\<close>

definition copy_zero_extended ::
  "bytes \<Rightarrow> ('a, 'h, 'z) state \<Rightarrow> (ivmc_status_code \<times> ('a, 'h, 'z) state) option" where
  "copy_zero_extended data s = do {
     (mem_index, st) \<leftarrow> stk_pop (stack s);
     (input_index, st) \<leftarrow> stk_pop st;
     (size, st) \<leftarrow> stk_pop st;
     (ok, s) \<leftarrow> check_memory (s\<lparr>stack := st\<rparr>) mem_index size;
     if \<not> ok then Some (IVMC_OUT_OF_GAS, s)
     else
       let dst = to_size mem_index;
           src = (if length data < unat input_index then length data else to_size input_index);
           n = to_size size;
           copy_size = min n (length data - src);
           s = use_gas (num_words (to_u64 size) * 3) s
       in if gas_left s < 0 then Some (IVMC_OUT_OF_GAS, s)
          else do {
            m \<leftarrow> write_padded (memory s) dst (take copy_size (drop src data)) n;
            Some (IVMC_SUCCESS, s\<lparr>memory := m\<rparr>)
          } }"

definition calldatacopy_instr :: "('a, 'h, 'z) state \<Rightarrow> (ivmc_status_code \<times> ('a, 'h, 'z) state) option" where
  "calldatacopy_instr s = copy_zero_extended (msg_input (msg s)) s"

definition codesize_instr :: "('a, 'h, 'z) state \<Rightarrow> ('a, 'h, 'z) state option" where
  "codesize_instr s = push_instr_value (of_nat (length (code s))) s"

definition codecopy_instr :: "('a, 'h, 'z) state \<Rightarrow> (ivmc_status_code \<times> ('a, 'h, 'z) state) option" where
  "codecopy_instr s = copy_zero_extended (code s) s"

definition gasprice_instr :: "lib \<Rightarrow> 'h host_interface \<Rightarrow> ('a, 'h, 'z) state \<Rightarrow> ('a, 'h, 'z) state option" where
  "gasprice_instr L H s = push_instr_value (be_load L (tx_gas_price (get_tx_context H (host s)))) s"

definition basefee_instr :: "lib \<Rightarrow> 'h host_interface \<Rightarrow> ('a, 'h, 'z) state \<Rightarrow> ('a, 'h, 'z) state option" where
  "basefee_instr L H s = push_instr_value (be_load L (block_base_fee (get_tx_context H (host s)))) s"


definition extcodesize_instr ::
  "lib \<Rightarrow> 'h host_interface \<Rightarrow> ('a, 'h, 'z) state \<Rightarrow> (ivmc_status_code \<times> ('a, 'h, 'z) state) option" where
  "extcodesize_instr L H s = do {
     x \<leftarrow> stk_top (stack s);
     let addr = be_trunc L x in
     case charge_cold_account H additional_cold_account_access_cost addr s of
       Inl s \<Rightarrow> Some (IVMC_OUT_OF_GAS, s)
     | Inr s \<Rightarrow> do {
         st \<leftarrow> stk_set_top (stack s) (ucast (get_code_size H addr (host s)));
         Some (IVMC_SUCCESS, s\<lparr>stack := st\<rparr>)
       } }"

definition extcodecopy_instr ::
  "lib \<Rightarrow> 'h host_interface \<Rightarrow> ('a, 'h, 'z) state \<Rightarrow> (ivmc_status_code \<times> ('a, 'h, 'z) state) option" where
  "extcodecopy_instr L H s = do {
     (a, st) \<leftarrow> stk_pop (stack s);
     (mem_index, st) \<leftarrow> stk_pop st;
     (input_index, st) \<leftarrow> stk_pop st;
     (size, st) \<leftarrow> stk_pop st;
     let addr = be_trunc L a in do {
     (ok, s) \<leftarrow> check_memory (s\<lparr>stack := st\<rparr>) mem_index size;
     if \<not> ok then Some (IVMC_OUT_OF_GAS, s)
     else
       let n = to_size size;
           s = use_gas (num_words (to_u64 size) * 3) s
       in if gas_left s < 0 then Some (IVMC_OUT_OF_GAS, s)
          else case charge_cold_account H additional_cold_account_access_cost addr s of
            Inl s \<Rightarrow> Some (IVMC_OUT_OF_GAS, s)
          | Inr s \<Rightarrow>
              if n > 0 then
                let src = (if unat max_buffer_size < unat input_index then unat max_buffer_size
                           else to_size input_index);
                    dst = to_size mem_index;
                    copied = copy_code H addr src n (host s)
                in if n < length copied then None
                   else do {
                     m \<leftarrow> write_padded (memory s) dst copied n;
                     Some (IVMC_SUCCESS, s\<lparr>memory := m\<rparr>)
                   }
              else Some (IVMC_SUCCESS, s) } }"

definition returndatasize_instr :: "('a, 'h, 'z) state \<Rightarrow> ('a, 'h, 'z) state option" where
  "returndatasize_instr s = push_instr_value (of_nat (length (return_data s))) s"

text \<open>The end of the source range is a sum of \<^verbatim>\<open>size_t\<close> numbers, which wraps around.\<close>

definition returndatacopy_instr :: "('a, 'h, 'z) state \<Rightarrow> (ivmc_status_code \<times> ('a, 'h, 'z) state) option" where
  "returndatacopy_instr s = do {
     (mem_index, st) \<leftarrow> stk_pop (stack s);
     (input_index, st) \<leftarrow> stk_pop st;
     (size, st) \<leftarrow> stk_pop st;
     (ok, s) \<leftarrow> check_memory (s\<lparr>stack := st\<rparr>) mem_index size;
     if \<not> ok then Some (IVMC_OUT_OF_GAS, s)
     else
       let dst = to_size mem_index;
           n = to_size size
       in if length (return_data s) < unat input_index then Some (IVMC_INVALID_MEMORY_ACCESS, s)
          else let src = to_size input_index in
            if length (return_data s) < unat (to_u64 input_index + to_u64 size) then Some (IVMC_INVALID_MEMORY_ACCESS, s)
            else let s = use_gas (num_words (to_u64 size) * 3) s in
              if gas_left s < 0 then Some (IVMC_OUT_OF_GAS, s)
              else do {
                m \<leftarrow> (if n > 0 then do { d \<leftarrow> mem_read (return_data s) src n; mem_write (memory s) dst d }
                     else Some (memory s));
                Some (IVMC_SUCCESS, s\<lparr>memory := m\<rparr>)
              } }"

definition extcodehash_instr ::
  "lib \<Rightarrow> 'h host_interface \<Rightarrow> ('a, 'h, 'z) state \<Rightarrow> (ivmc_status_code \<times> ('a, 'h, 'z) state) option" where
  "extcodehash_instr L H s = do {
     x \<leftarrow> stk_top (stack s);
     let addr = be_trunc L x in
     case charge_cold_account H additional_cold_account_access_cost addr s of
       Inl s \<Rightarrow> Some (IVMC_OUT_OF_GAS, s)
     | Inr s \<Rightarrow> do {
         st \<leftarrow> stk_set_top (stack s) (be_load L (get_code_hash H addr (host s)));
         Some (IVMC_SUCCESS, s\<lparr>stack := st\<rparr>)
       } }"

section \<open>Block information\<close>

definition blockhash_instr :: "lib \<Rightarrow> 'h host_interface \<Rightarrow> ('a, 'h, 'z) state \<Rightarrow> ('a, 'h, 'z) state option" where
  "blockhash_instr L H s = do {
     num \<leftarrow> stk_top (stack s);
     let upper_bound = block_number (get_tx_context H (host s));
         lower_bound = max (upper_bound - 256) 0;
         n = sint (to_u64 num);
         header = (if num < intx_of_int64 L upper_bound \<and> n \<ge> lower_bound
                   then get_block_hash H n (host s) else replicate 32 0)
     in do { st \<leftarrow> stk_set_top (stack s) (be_load L header); Some (s\<lparr>stack := st\<rparr>) } }"

definition coinbase_instr :: "lib \<Rightarrow> 'h host_interface \<Rightarrow> ('a, 'h, 'z) state \<Rightarrow> ('a, 'h, 'z) state option" where
  "coinbase_instr L H s = push_instr_value (be_load L (block_coinbase (get_tx_context H (host s)))) s"

definition timestamp_instr :: "'h host_interface \<Rightarrow> ('a, 'h, 'z) state \<Rightarrow> ('a, 'h, 'z) state option" where
  "timestamp_instr H s =
     push_instr_value (ucast (word_of_int (block_timestamp (get_tx_context H (host s))) :: u64)) s"

definition number_instr :: "'h host_interface \<Rightarrow> ('a, 'h, 'z) state \<Rightarrow> ('a, 'h, 'z) state option" where
  "number_instr H s =
     push_instr_value (ucast (word_of_int (block_number (get_tx_context H (host s))) :: u64)) s"

definition difficulty_instr :: "lib \<Rightarrow> 'h host_interface \<Rightarrow> ('a, 'h, 'z) state \<Rightarrow> ('a, 'h, 'z) state option" where
  "difficulty_instr L H s = push_instr_value (be_load L (block_difficulty (get_tx_context H (host s)))) s"

definition gaslimit_instr :: "'h host_interface \<Rightarrow> ('a, 'h, 'z) state \<Rightarrow> ('a, 'h, 'z) state option" where
  "gaslimit_instr H s =
     push_instr_value (ucast (word_of_int (block_gas_limit (get_tx_context H (host s))) :: u64)) s"

definition chainid_instr :: "lib \<Rightarrow> 'h host_interface \<Rightarrow> ('a, 'h, 'z) state \<Rightarrow> ('a, 'h, 'z) state option" where
  "chainid_instr L H s = push_instr_value (be_load L (chain_id (get_tx_context H (host s)))) s"

definition selfbalance_instr :: "lib \<Rightarrow> 'h host_interface \<Rightarrow> ('a, 'h, 'z) state \<Rightarrow> ('a, 'h, 'z) state option" where
  "selfbalance_instr L H s = push_instr_value (be_load L (get_balance H (msg_recipient (msg s)) (host s))) s"

section \<open>Memory and storage\<close>

definition pop_instr :: "('a, 'h, 'z) state \<Rightarrow> ('a, 'h, 'z) state option" where
  "pop_instr = on_stack (\<lambda>st. do { (_, st) \<leftarrow> stk_pop st; Some st })"

definition mload_instr :: "lib \<Rightarrow> ('a, 'h, 'z) state \<Rightarrow> (ivmc_status_code \<times> ('a, 'h, 'z) state) option" where
  "mload_instr L s = do {
     index \<leftarrow> stk_top (stack s);
     (ok, s) \<leftarrow> check_memory64 s index 32;
     if \<not> ok then Some (IVMC_OUT_OF_GAS, s)
     else do {
       data \<leftarrow> mem_read (memory s) (to_size index) 32;
       st \<leftarrow> stk_set_top (stack s) (be_load L data);
       Some (IVMC_SUCCESS, s\<lparr>stack := st\<rparr>)
     } }"

definition mstore_instr :: "lib \<Rightarrow> ('a, 'h, 'z) state \<Rightarrow> (ivmc_status_code \<times> ('a, 'h, 'z) state) option" where
  "mstore_instr L s = do {
     (index, st) \<leftarrow> stk_pop (stack s);
     (v, st) \<leftarrow> stk_pop st;
     (ok, s) \<leftarrow> check_memory64 (s\<lparr>stack := st\<rparr>) index 32;
     if \<not> ok then Some (IVMC_OUT_OF_GAS, s)
     else do {
       m \<leftarrow> mem_write (memory s) (to_size index) (be_store L v);
       Some (IVMC_SUCCESS, s\<lparr>memory := m\<rparr>)
     } }"

definition mstore8_instr :: "('a, 'h, 'z) state \<Rightarrow> (ivmc_status_code \<times> ('a, 'h, 'z) state) option" where
  "mstore8_instr s = do {
     (index, st) \<leftarrow> stk_pop (stack s);
     (v, st) \<leftarrow> stk_pop st;
     (ok, s) \<leftarrow> check_memory64 (s\<lparr>stack := st\<rparr>) index 1;
     if \<not> ok then Some (IVMC_OUT_OF_GAS, s)
     else do {
       m \<leftarrow> mem_write (memory s) (to_size index) [ucast v];
       Some (IVMC_SUCCESS, s\<lparr>memory := m\<rparr>)
     } }"

definition sload_instr ::
  "lib \<Rightarrow> 'h host_interface \<Rightarrow> ('a, 'h, 'z) state \<Rightarrow> (ivmc_status_code \<times> ('a, 'h, 'z) state) option" where
  "sload_instr L H s = do {
     x \<leftarrow> stk_top (stack s);
     let key = be_store L x;
         addr = msg_recipient (msg s);
         cold_read = (\<lambda>s. do {
           st \<leftarrow> stk_set_top (stack s) (be_load L (get_storage H addr key (host s)));
           Some (IVMC_SUCCESS, s\<lparr>stack := st\<rparr>) })
     in if revision s \<ge> IVMC_BERLIN then
          let (access, h) = access_storage H addr key (host s);
              s = s\<lparr>host := h\<rparr>
          in if access = IVMC_ACCESS_COLD then
               let s = use_gas (cold_sload_cost - warm_storage_read_cost) s in
               if gas_left s < 0 then Some (IVMC_OUT_OF_GAS, s) else cold_read s
             else cold_read s
        else cold_read s }"

text \<open>The \<^verbatim>\<open>switch (status)\<close> of \<^verbatim>\<open>sstore\<close>; \<open>cost\<close> is the cold access cost charged so far.\<close>

fun sstore_cost :: "ivmc_revision \<Rightarrow> int \<Rightarrow> ivmc_storage_status \<Rightarrow> int" where
  "sstore_cost r cost IVMC_STORAGE_UNCHANGED =
     (if r \<ge> IVMC_BERLIN then cost + warm_storage_read_cost
      else if r = IVMC_ISTANBUL then 800
      else if r = IVMC_CONSTANTINOPLE then 200
      else 5000)"
| "sstore_cost r cost IVMC_STORAGE_MODIFIED_AGAIN =
     (if r \<ge> IVMC_BERLIN then cost + warm_storage_read_cost
      else if r = IVMC_ISTANBUL then 800
      else if r = IVMC_CONSTANTINOPLE then 200
      else 5000)"
| "sstore_cost r cost IVMC_STORAGE_MODIFIED =
     (if r \<ge> IVMC_BERLIN then cost + (5000 - cold_sload_cost) else 5000)"
| "sstore_cost r cost IVMC_STORAGE_DELETED =
     (if r \<ge> IVMC_BERLIN then cost + (5000 - cold_sload_cost) else 5000)"
| "sstore_cost r cost IVMC_STORAGE_ADDED = cost + 20000"

definition sstore_instr ::
  "lib \<Rightarrow> 'h host_interface \<Rightarrow> ('a, 'h, 'z) state \<Rightarrow> (ivmc_status_code \<times> ('a, 'h, 'z) state) option" where
  "sstore_instr L H s =
     (if is_static (msg s) then Some (IVMC_STATIC_MODE_VIOLATION, s)
      else if revision s \<ge> IVMC_ISTANBUL \<and> gas_left s \<le> 2300 then Some (IVMC_OUT_OF_GAS, s)
      else do {
        (k, st) \<leftarrow> stk_pop (stack s);
        (v, st) \<leftarrow> stk_pop st;
        let key = be_store L k;
            val = be_store L v;
            addr = msg_recipient (msg s);
            s = s\<lparr>stack := st\<rparr>;
            (cost, h) = (if revision s \<ge> IVMC_BERLIN then
                           let (access, h) = access_storage H addr key (host s)
                           in (if access = IVMC_ACCESS_COLD then cold_sload_cost else 0, h)
                         else (0, host s));
            (stat, h) = set_storage H addr key val h;
            s = use_gas (sstore_cost (revision s) cost stat) (s\<lparr>host := h\<rparr>)
        in if gas_left s < 0 then Some (IVMC_OUT_OF_GAS, s) else Some (IVMC_SUCCESS, s)
      })"


section \<open>Control flow\<close>

definition jump_impl ::
  "(CodeAnalysis, 'h, 'z) state \<Rightarrow> uint256 \<Rightarrow> (nat option \<times> (CodeAnalysis, 'h, 'z) state) option" where
  "jump_impl s dst = do {
     a \<leftarrow> analysis s;
     if unat dst \<ge> length (jumpdest_map a) \<or> \<not> jumpdest_map a ! to_size dst
     then Some (None, s\<lparr>status := IVMC_BAD_JUMP_DESTINATION\<rparr>)
     else Some (Some (to_size dst), s) }"

definition jump_instr ::
  "(CodeAnalysis, 'h, 'z) state \<Rightarrow> nat \<Rightarrow> (nat option \<times> (CodeAnalysis, 'h, 'z) state) option" where
  "jump_instr s pos = do { (dst, st) \<leftarrow> stk_pop (stack s); jump_impl (s\<lparr>stack := st\<rparr>) dst }"

definition jumpi_instr ::
  "(CodeAnalysis, 'h, 'z) state \<Rightarrow> nat \<Rightarrow> (nat option \<times> (CodeAnalysis, 'h, 'z) state) option" where
  "jumpi_instr s pos = do {
     (dst, st) \<leftarrow> stk_pop (stack s);
     (cond, st) \<leftarrow> stk_pop st;
     if cond \<noteq> 0 then jump_impl (s\<lparr>stack := st\<rparr>) dst else Some (Some (pos + 1), s\<lparr>stack := st\<rparr>) }"

definition pc_instr :: "('a, 'h, 'z) state \<Rightarrow> nat \<Rightarrow> (nat option \<times> ('a, 'h, 'z) state) option" where
  "pc_instr s pos = do { s \<leftarrow> push_instr_value (ucast (of_nat pos :: u64)) s; Some (Some (pos + 1), s) }"

definition msize_instr :: "('a, 'h, 'z) state \<Rightarrow> ('a, 'h, 'z) state option" where
  "msize_instr s = push_instr_value (of_nat (length (memory s))) s"

definition gas_instr :: "lib \<Rightarrow> ('a, 'h, 'z) state \<Rightarrow> ('a, 'h, 'z) state option" where
  "gas_instr L s = push_instr_value (intx_of_int64 L (gas_left s)) s"

definition jumpdest_instr :: "('a, 'h, 'z) state \<Rightarrow> ('a, 'h, 'z) state option" where
  "jumpdest_instr s = Some s"

text \<open>\<^verbatim>\<open>push<Len>\<close> reads \<open>len\<close> bytes of the padded code after the opcode.\<close>

definition push_instr ::
  "lib \<Rightarrow> nat \<Rightarrow> (CodeAnalysis, 'h, 'z) state \<Rightarrow> nat \<Rightarrow> (nat option \<times> (CodeAnalysis, 'h, 'z) state) option" where
  "push_instr L len s pos = do {
     a \<leftarrow> analysis s;
     let data_pos = pos + 1 in
     if length (padded_code a) < data_pos + len then None
     else do {
       s \<leftarrow> push_instr_value (be_load L (take len (drop data_pos (padded_code a)))) s;
       Some (Some (pos + (len + 1)), s)
     } }"

definition dup_instr :: "nat \<Rightarrow> ('a, 'h, 'z) state \<Rightarrow> ('a, 'h, 'z) state option" where
  "dup_instr n = on_stack (\<lambda>st. do { v \<leftarrow> stk_get st (n - 1); stk_push st v })"

definition swap_instr :: "nat \<Rightarrow> ('a, 'h, 'z) state \<Rightarrow> ('a, 'h, 'z) state option" where
  "swap_instr n = on_stack (\<lambda>st. do {
     a \<leftarrow> stk_top st; b \<leftarrow> stk_get st n;
     st \<leftarrow> stk_set_top st b; stk_set st n a })"

section \<open>Logs and termination\<close>

text \<open>The topic loop of \<^verbatim>\<open>log\<close>: pops \<open>n\<close> items.\<close>

fun pop_topics :: "lib \<Rightarrow> nat \<Rightarrow> uint256 list \<Rightarrow> (bytes list \<times> uint256 list) option" where
  "pop_topics L 0 st = Some ([], st)"
| "pop_topics L (Suc n) st = do {
     (v, st) \<leftarrow> stk_pop st;
     (ts, st) \<leftarrow> pop_topics L n st;
     Some (be_store L v # ts, st) }"

definition log_instr ::
  "lib \<Rightarrow> 'h host_interface \<Rightarrow> nat \<Rightarrow> ('a, 'h, 'z) state \<Rightarrow> (ivmc_status_code \<times> ('a, 'h, 'z) state) option" where
  "log_instr L H num_topics s =
     (if is_static (msg s) then Some (IVMC_STATIC_MODE_VIOLATION, s)
      else do {
        (off, st) \<leftarrow> stk_pop (stack s);
        (size, st) \<leftarrow> stk_pop st;
        (ok, s) \<leftarrow> check_memory (s\<lparr>stack := st\<rparr>) off size;
        if \<not> ok then Some (IVMC_OUT_OF_GAS, s)
        else
          let n = to_size size;
              s = use_gas (sint (to_u64 size) * 8) s
          in if gas_left s < 0 then Some (IVMC_OUT_OF_GAS, s)
             else do {
               (topics, st) \<leftarrow> pop_topics L num_topics (stack s);
               data \<leftarrow> (if n \<noteq> 0 then mem_read (memory s) (to_size off) n else Some []);
               Some (IVMC_SUCCESS,
                     s\<lparr>stack := st, host := emit_log H (msg_recipient (msg s)) data topics (host s)\<rparr>)
             } })"

definition return_instr ::
  "ivmc_status_code \<Rightarrow> ('a, 'h, 'z) state \<Rightarrow> (ivmc_status_code \<times> ('a, 'h, 'z) state) option" where
  "return_instr status_code s = do {
     off \<leftarrow> stk_get (stack s) 0;
     size \<leftarrow> stk_get (stack s) 1;
     (ok, s) \<leftarrow> check_memory s off size;
     if \<not> ok then Some (IVMC_OUT_OF_GAS, s)
     else Some (status_code, s\<lparr>output_offset := to_size off, output_size := to_size size\<rparr>) }"

definition invalid_instr :: "('a, 'h, 'z) state \<Rightarrow> (ivmc_status_code \<times> ('a, 'h, 'z) state) option" where
  "invalid_instr s = Some (IVMC_INVALID_INSTRUCTION, s)"

definition selfdestruct_instr ::
  "lib \<Rightarrow> 'h host_interface \<Rightarrow> ('a, 'h, 'z) state \<Rightarrow> (ivmc_status_code \<times> ('a, 'h, 'z) state) option" where
  "selfdestruct_instr L H s =
     (if is_static (msg s) then Some (IVMC_STATIC_MODE_VIOLATION, s)
      else do {
        x \<leftarrow> stk_get (stack s) 0;
        let beneficiary = be_trunc L x in
        case charge_cold_account H cold_account_access_cost beneficiary s of
          Inl s \<Rightarrow> Some (IVMC_OUT_OF_GAS, s)
        | Inr s \<Rightarrow>
            let new_account = revision s \<ge> IVMC_TANGERINE_WHISTLE \<and>
                  (revision s = IVMC_TANGERINE_WHISTLE \<or>
                   (\<exists>b \<in> set (get_balance H (msg_recipient (msg s)) (host s)). b \<noteq> 0)) \<and>
                  \<not> account_exists H beneficiary (host s);
                s = (if new_account then use_gas 25000 s else s)
            in if new_account \<and> gas_left s < 0 then Some (IVMC_OUT_OF_GAS, s)
               else Some (IVMC_SUCCESS,
                          s\<lparr>host := host_selfdestruct H (msg_recipient (msg s)) beneficiary (host s)\<rparr>)
      })"

end
