(* ===== verification/Instructions_Calls.thy ===== *)
theory Instructions_Calls
  imports Instructions
begin

text \<open>
  The message calls and contract creations of \<^verbatim>\<open>instructions_calls.cpp\<close>. The template parameters
  \<^verbatim>\<open>Kind\<close> and \<^verbatim>\<open>Static\<close> are arguments. The host call is a parameter; the message it gets is the one
  the code builds.
\<close>

definition int64_max :: int where
  "int64_max = 2 ^ 63 - 1"

text \<open>The message of \<^verbatim>\<open>call\<close> before its gas is set.\<close>

definition call_message ::
  "lib \<Rightarrow> ivmc_call_kind \<Rightarrow> bool \<Rightarrow> ivmc_message \<Rightarrow> bytes \<Rightarrow> uint256 \<Rightarrow> bytes \<Rightarrow> ivmc_message" where
  "call_message L kind static m dst value input =
     zero_message\<lparr>
       msg_kind := kind,
       msg_flags := (if static then IVMC_STATIC else msg_flags m),
       msg_depth := msg_depth m + 1,
       msg_recipient := (if kind = IVMC_CALL then dst else msg_recipient m),
       msg_code_address := dst,
       msg_sender := (if kind = IVMC_DELEGATECALL then msg_sender m else msg_recipient m),
       msg_value := (if kind = IVMC_DELEGATECALL then msg_value m else be_store L value),
       msg_input := input\<rparr>"

text \<open>
  The gas for the callee: at most what was asked for and, since Tangerine Whistle, all but one
  64th of what is left; before, asking for more than is left fails (\<open>None\<close>).
\<close>

definition callee_gas :: "ivmc_revision \<Rightarrow> uint256 \<Rightarrow> int \<Rightarrow> int option" where
  "callee_gas r gas left =
     (let g = (if uint gas < int64_max then sint (to_u64 gas) else int64_max) in
      if r \<ge> IVMC_TANGERINE_WHISTLE then Some (min g (left - left sdiv 64))
      else if g > left then None else Some g)"

text \<open>The part of \<^verbatim>\<open>call\<close> after the gas checks: depth and balance checks, the host call, its results.\<close>

definition call_host ::
  "lib \<Rightarrow> 'h host_interface \<Rightarrow> ivmc_message \<Rightarrow> uint256 \<Rightarrow> uint256 \<Rightarrow> uint256 \<Rightarrow>
   ('a, 'h, 'z) state \<Rightarrow> (ivmc_status_code \<times> ('a, 'h, 'z) state) option" where
  "call_host L H m value out_offset out_size s =
     (let s = s\<lparr>return_data := []\<rparr> in
      if msg_depth (msg s) \<ge> 1024 then Some (IVMC_SUCCESS, s)
      else if value \<noteq> 0 \<and> be_load L (get_balance H (msg_recipient (msg s)) (host s)) < value
      then Some (IVMC_SUCCESS, s)
      else
        let (result, h) = host_call H m (host s);
            s = s\<lparr>host := h, return_data := res_output result\<rparr>
        in do {
          st \<leftarrow> stk_set_top (stack s) (of_bool256 (res_status result = IVMC_SUCCESS));
          let copy_size = min (to_size out_size) (length (res_output result));
              s = s\<lparr>stack := st\<rparr>
          in do {
            mm \<leftarrow> (if copy_size > 0 then mem_write (memory s) (to_size out_offset) (take copy_size (res_output result))
                  else Some (memory s));
            Some (IVMC_SUCCESS, use_gas (msg_gas m - res_gas_left result) (s\<lparr>memory := mm\<rparr>))
          }
        })"

definition call_instr ::
  "lib \<Rightarrow> 'h host_interface \<Rightarrow> ivmc_call_kind \<Rightarrow> bool \<Rightarrow>
   ('a, 'h, 'z) state \<Rightarrow> (ivmc_status_code \<times> ('a, 'h, 'z) state) option" where
  "call_instr L H kind static s = do {
     (gas, st) \<leftarrow> stk_pop (stack s);
     (d, st) \<leftarrow> stk_pop st;
     (value, st) \<leftarrow> (if static \<or> kind = IVMC_DELEGATECALL then Some (0, st) else stk_pop st);
     (input_offset, st) \<leftarrow> stk_pop st;
     (input_size, st) \<leftarrow> stk_pop st;
     (out_offset, st) \<leftarrow> stk_pop st;
     (out_size, st) \<leftarrow> stk_pop st;
     st \<leftarrow> stk_push st 0;
     let dst = be_trunc L d; has_value = (value \<noteq> 0) in
     case charge_cold_account H additional_cold_account_access_cost dst (s\<lparr>stack := st\<rparr>) of
       Inl s \<Rightarrow> Some (IVMC_OUT_OF_GAS, s)
     | Inr s \<Rightarrow> do {
         (ok, s) \<leftarrow> check_memory s input_offset input_size;
         if \<not> ok then Some (IVMC_OUT_OF_GAS, s)
         else do {
           (ok, s) \<leftarrow> check_memory s out_offset out_size;
           if \<not> ok then Some (IVMC_OUT_OF_GAS, s)
           else do {
             input \<leftarrow> (if to_size input_size > 0 then mem_read (memory s) (to_size input_offset) (to_size input_size)
                      else Some []);
             let m = call_message L kind static (msg s) dst value input in
             if kind = IVMC_CALL \<and> has_value \<and> is_static (msg s) then Some (IVMC_STATIC_MODE_VIOLATION, s)
             else
               let cost = (if has_value then 9000 else 0) +
                     (if kind = IVMC_CALL \<and> (has_value \<or> revision s < IVMC_SPURIOUS_DRAGON) \<and>
                         \<not> account_exists H dst (host s) then 25000 else 0);
                   s = use_gas cost s
               in if gas_left s < 0 then Some (IVMC_OUT_OF_GAS, s)
                  else case callee_gas (revision s) gas (gas_left s) of
                    None \<Rightarrow> Some (IVMC_OUT_OF_GAS, s)
                  | Some g \<Rightarrow>
                      if has_value
                      then call_host L H (m\<lparr>msg_gas := g + 2300\<rparr>) value out_offset out_size
                             (s\<lparr>gas_left := gas_left s + 2300\<rparr>)
                      else call_host L H (m\<lparr>msg_gas := g\<rparr>) value out_offset out_size s
           }
         } } }"

text \<open>The part of \<^verbatim>\<open>create\<close> from the creation message on.\<close>

definition create_host ::
  "lib \<Rightarrow> 'h host_interface \<Rightarrow> ivmc_call_kind \<Rightarrow> uint256 \<Rightarrow> uint256 \<Rightarrow> bytes \<Rightarrow>
   ('a, 'h, 'z) state \<Rightarrow> (ivmc_status_code \<times> ('a, 'h, 'z) state) option" where
  "create_host L H kind endowment salt init_code s =
     (let g = (if revision s \<ge> IVMC_TANGERINE_WHISTLE
               then gas_left s - gas_left s sdiv 64 else gas_left s);
          m = zero_message\<lparr>
                msg_gas := g,
                msg_kind := kind,
                msg_input := init_code,
                msg_sender := msg_recipient (msg s),
                msg_depth := msg_depth (msg s) + 1,
                msg_create2_salt := be_store L salt,
                msg_value := be_store L endowment\<rparr>;
          (result, h) = host_call H m (host s);
          s = use_gas (g - res_gas_left result) (s\<lparr>host := h, return_data := res_output result\<rparr>)
      in if res_status result = IVMC_SUCCESS
         then do {
           st \<leftarrow> stk_set_top (stack s) (be_load L (res_create_address result));
           Some (IVMC_SUCCESS, s\<lparr>stack := st\<rparr>)
         }
         else Some (IVMC_SUCCESS, s))"

definition create_instr ::
  "lib \<Rightarrow> 'h host_interface \<Rightarrow> ivmc_call_kind \<Rightarrow>
   ('a, 'h, 'z) state \<Rightarrow> (ivmc_status_code \<times> ('a, 'h, 'z) state) option" where
  "create_instr L H kind s =
     (if is_static (msg s) then Some (IVMC_STATIC_MODE_VIOLATION, s)
      else do {
        (endowment, st) \<leftarrow> stk_pop (stack s);
        (init_code_offset, st) \<leftarrow> stk_pop st;
        (init_code_size, st) \<leftarrow> stk_pop st;
        (ok, s) \<leftarrow> check_memory (s\<lparr>stack := st\<rparr>) init_code_offset init_code_size;
        if \<not> ok then Some (IVMC_OUT_OF_GAS, s)
        else do {
          (salt, st) \<leftarrow> (if kind = IVMC_CREATE2 then stk_pop (stack s) else Some (0, stack s));
          let s = (if kind = IVMC_CREATE2
                   then use_gas (num_words (to_u64 init_code_size) * 6) (s\<lparr>stack := st\<rparr>)
                   else s\<lparr>stack := st\<rparr>)
          in if kind = IVMC_CREATE2 \<and> gas_left s < 0 then Some (IVMC_OUT_OF_GAS, s)
             else do {
               st \<leftarrow> stk_push (stack s) 0;
               let s = s\<lparr>stack := st, return_data := []\<rparr> in
               if msg_depth (msg s) \<ge> 1024 then Some (IVMC_SUCCESS, s)
               else if endowment \<noteq> 0 \<and>
                       be_load L (get_balance H (msg_recipient (msg s)) (host s)) < endowment
               then Some (IVMC_SUCCESS, s)
               else do {
                 init_code \<leftarrow> (if to_size init_code_size > 0
                              then mem_read (memory s) (to_size init_code_offset) (to_size init_code_size)
                              else Some []);
                 create_host L H kind endowment salt init_code s
               }
             }
        }
      })"

end
