(* ===== verification/Dispatch.thy ===== *)
theory Dispatch
  imports Instructions_Calls
begin

text \<open>
  Function pointers to instruction implementations. The C++ sources map opcodes to functions in
  three tables: \<^verbatim>\<open>op2fn\<close> with the \<^verbatim>\<open>switch\<close> of the Baseline interpreter, and
  \<^verbatim>\<open>instruction_implementations\<close> of the Advanced one. A function pointer is modelled by the name
  of the function (\<open>instr_name\<close>), and \<open>impl\<close> gives the function a name stands for, with the C++
  signature it has.
\<close>

datatype 's instr_fn =
    Succeeding "'s \<Rightarrow> 's option"
  | MayFail "'s \<Rightarrow> (ivmc_status_code \<times> 's) option"
  | Terminating "'s \<Rightarrow> (ivmc_status_code \<times> 's) option"
  | CodePosition "'s \<Rightarrow> nat \<Rightarrow> (nat option \<times> 's) option"

datatype instr_name =
    fn_stop | fn_add | fn_mul | fn_sub | fn_div | fn_sdiv | fn_mod | fn_smod | fn_addmod
  | fn_mulmod | fn_exp | fn_signextend | fn_lt | fn_gt | fn_slt | fn_sgt | fn_eq | fn_iszero
  | fn_and | fn_or | fn_xor | fn_not | fn_byte | fn_shl | fn_shr | fn_sar | fn_keccak256
  | fn_address | fn_balance | fn_origin | fn_caller | fn_callvalue | fn_calldataload
  | fn_calldatasize | fn_calldatacopy | fn_codesize | fn_codecopy | fn_gasprice
  | fn_extcodesize | fn_extcodecopy | fn_returndatasize | fn_returndatacopy | fn_extcodehash
  | fn_blockhash | fn_coinbase | fn_timestamp | fn_number | fn_difficulty | fn_gaslimit
  | fn_chainid | fn_selfbalance | fn_basefee | fn_pop | fn_mload | fn_mstore | fn_mstore8
  | fn_sload | fn_sstore | fn_msize | fn_gas | fn_jumpdest | fn_dup nat | fn_swap nat
  | fn_log nat | fn_create ivmc_call_kind | fn_call ivmc_call_kind bool
  | fn_return ivmc_status_code | fn_invalid | fn_selfdestruct

text \<open>The functions that do not depend on the kind of code analysis.\<close>

fun impl :: "lib \<Rightarrow> 'h host_interface \<Rightarrow> instr_name \<Rightarrow> ('a, 'h, 'z) state instr_fn" where
  "impl L H fn_stop = Terminating stop_instr"
| "impl L H fn_add = Succeeding add_instr"
| "impl L H fn_mul = Succeeding mul_instr"
| "impl L H fn_sub = Succeeding sub_instr"
| "impl L H fn_div = Succeeding (div_instr L)"
| "impl L H fn_sdiv = Succeeding (sdiv_instr L)"
| "impl L H fn_mod = Succeeding (mod_instr L)"
| "impl L H fn_smod = Succeeding (smod_instr L)"
| "impl L H fn_addmod = Succeeding (addmod_instr L)"
| "impl L H fn_mulmod = Succeeding (mulmod_instr L)"
| "impl L H fn_exp = MayFail (exp_instr L)"
| "impl L H fn_signextend = Succeeding (signextend_instr L)"
| "impl L H fn_lt = Succeeding lt_instr"
| "impl L H fn_gt = Succeeding gt_instr"
| "impl L H fn_slt = Succeeding (slt_instr L)"
| "impl L H fn_sgt = Succeeding (sgt_instr L)"
| "impl L H fn_eq = Succeeding eq_instr"
| "impl L H fn_iszero = Succeeding iszero_instr"
| "impl L H fn_and = Succeeding and_instr"
| "impl L H fn_or = Succeeding or_instr"
| "impl L H fn_xor = Succeeding xor_instr"
| "impl L H fn_not = Succeeding not_instr"
| "impl L H fn_byte = Succeeding byte_instr"
| "impl L H fn_shl = Succeeding (shl_instr L)"
| "impl L H fn_shr = Succeeding (shr_instr L)"
| "impl L H fn_sar = Succeeding (sar_instr L)"
| "impl L H fn_keccak256 = MayFail (keccak256_instr L)"
| "impl L H fn_address = Succeeding (address_instr L)"
| "impl L H fn_balance = MayFail (balance_instr L H)"
| "impl L H fn_origin = Succeeding (origin_instr L H)"
| "impl L H fn_caller = Succeeding (caller_instr L)"
| "impl L H fn_callvalue = Succeeding (callvalue_instr L)"
| "impl L H fn_calldataload = Succeeding (calldataload_instr L)"
| "impl L H fn_calldatasize = Succeeding calldatasize_instr"
| "impl L H fn_calldatacopy = MayFail calldatacopy_instr"
| "impl L H fn_codesize = Succeeding codesize_instr"
| "impl L H fn_codecopy = MayFail codecopy_instr"
| "impl L H fn_gasprice = Succeeding (gasprice_instr L H)"
| "impl L H fn_extcodesize = MayFail (extcodesize_instr L H)"
| "impl L H fn_extcodecopy = MayFail (extcodecopy_instr L H)"
| "impl L H fn_returndatasize = Succeeding returndatasize_instr"
| "impl L H fn_returndatacopy = MayFail returndatacopy_instr"
| "impl L H fn_extcodehash = MayFail (extcodehash_instr L H)"
| "impl L H fn_blockhash = Succeeding (blockhash_instr L H)"
| "impl L H fn_coinbase = Succeeding (coinbase_instr L H)"
| "impl L H fn_timestamp = Succeeding (timestamp_instr H)"
| "impl L H fn_number = Succeeding (number_instr H)"
| "impl L H fn_difficulty = Succeeding (difficulty_instr L H)"
| "impl L H fn_gaslimit = Succeeding (gaslimit_instr H)"
| "impl L H fn_chainid = Succeeding (chainid_instr L H)"
| "impl L H fn_selfbalance = Succeeding (selfbalance_instr L H)"
| "impl L H fn_basefee = Succeeding (basefee_instr L H)"
| "impl L H fn_pop = Succeeding pop_instr"
| "impl L H fn_mload = MayFail (mload_instr L)"
| "impl L H fn_mstore = MayFail (mstore_instr L)"
| "impl L H fn_mstore8 = MayFail mstore8_instr"
| "impl L H fn_sload = MayFail (sload_instr L H)"
| "impl L H fn_sstore = MayFail (sstore_instr L H)"
| "impl L H fn_msize = Succeeding msize_instr"
| "impl L H fn_gas = Succeeding (gas_instr L)"
| "impl L H fn_jumpdest = Succeeding jumpdest_instr"
| "impl L H (fn_dup n) = Succeeding (dup_instr n)"
| "impl L H (fn_swap n) = Succeeding (swap_instr n)"
| "impl L H (fn_log n) = MayFail (log_instr L H n)"
| "impl L H (fn_create kind) = MayFail (create_instr L H kind)"
| "impl L H (fn_call kind static) = MayFail (call_instr L H kind static)"
| "impl L H (fn_return st) = Terminating (return_instr st)"
| "impl L H fn_invalid = Terminating invalid_instr"
| "impl L H fn_selfdestruct = Terminating (selfdestruct_instr L H)"

text \<open>The functions of the Baseline interpreter: the above and those that take the code position.\<close>

datatype baseline_name = Generic instr_name | fn_jump | fn_jumpi | fn_pc | fn_push nat

fun baseline_impl :: "lib \<Rightarrow> 'h host_interface \<Rightarrow> baseline_name \<Rightarrow> (CodeAnalysis, 'h, 'z) state instr_fn" where
  "baseline_impl L H (Generic n) = impl L H n"
| "baseline_impl L H fn_jump = CodePosition jump_instr"
| "baseline_impl L H fn_jumpi = CodePosition jumpi_instr"
| "baseline_impl L H fn_pc = CodePosition pc_instr"
| "baseline_impl L H (fn_push n) = CodePosition (push_instr L n)"

text \<open>\<^verbatim>\<open>instructions_op2fn.hpp\<close>\<close>

definition op2fn :: "nat \<Rightarrow> baseline_name option" where
  "op2fn =
     (set_range OP_LOG0 OP_LOG4 (\<lambda>op. Some (Generic (fn_log (op - OP_LOG0))))
     (set_range OP_SWAP1 OP_SWAP16 (\<lambda>op. Some (Generic (fn_swap (op - OP_SWAP1 + 1))))
     (set_range OP_DUP1 OP_DUP16 (\<lambda>op. Some (Generic (fn_dup (op - OP_DUP1 + 1))))
     (set_range OP_PUSH1 OP_PUSH32 (\<lambda>op. Some (fn_push (op - OP_PUSH1 + 1)))
     ((\<lambda>op. None)(
      OP_STOP \<mapsto> Generic fn_stop,
      OP_ADD \<mapsto> Generic fn_add,
      OP_MUL \<mapsto> Generic fn_mul,
      OP_SUB \<mapsto> Generic fn_sub,
      OP_DIV \<mapsto> Generic fn_div,
      OP_SDIV \<mapsto> Generic fn_sdiv,
      OP_MOD \<mapsto> Generic fn_mod,
      OP_SMOD \<mapsto> Generic fn_smod,
      OP_ADDMOD \<mapsto> Generic fn_addmod,
      OP_MULMOD \<mapsto> Generic fn_mulmod,
      OP_EXP \<mapsto> Generic fn_exp,
      OP_SIGNEXTEND \<mapsto> Generic fn_signextend,
      OP_LT \<mapsto> Generic fn_lt,
      OP_GT \<mapsto> Generic fn_gt,
      OP_SLT \<mapsto> Generic fn_slt,
      OP_SGT \<mapsto> Generic fn_sgt,
      OP_EQ \<mapsto> Generic fn_eq,
      OP_ISZERO \<mapsto> Generic fn_iszero,
      OP_AND \<mapsto> Generic fn_and,
      OP_OR \<mapsto> Generic fn_or,
      OP_XOR \<mapsto> Generic fn_xor,
      OP_NOT \<mapsto> Generic fn_not,
      OP_BYTE \<mapsto> Generic fn_byte,
      OP_SHL \<mapsto> Generic fn_shl,
      OP_SHR \<mapsto> Generic fn_shr,
      OP_SAR \<mapsto> Generic fn_sar,
      OP_KECCAK256 \<mapsto> Generic fn_keccak256,
      OP_ADDRESS \<mapsto> Generic fn_address,
      OP_BALANCE \<mapsto> Generic fn_balance,
      OP_ORIGIN \<mapsto> Generic fn_origin,
      OP_CALLER \<mapsto> Generic fn_caller,
      OP_CALLVALUE \<mapsto> Generic fn_callvalue,
      OP_CALLDATALOAD \<mapsto> Generic fn_calldataload,
      OP_CALLDATASIZE \<mapsto> Generic fn_calldatasize,
      OP_CALLDATACOPY \<mapsto> Generic fn_calldatacopy,
      OP_CODESIZE \<mapsto> Generic fn_codesize,
      OP_CODECOPY \<mapsto> Generic fn_codecopy,
      OP_GASPRICE \<mapsto> Generic fn_gasprice,
      OP_EXTCODESIZE \<mapsto> Generic fn_extcodesize,
      OP_EXTCODECOPY \<mapsto> Generic fn_extcodecopy,
      OP_RETURNDATASIZE \<mapsto> Generic fn_returndatasize,
      OP_RETURNDATACOPY \<mapsto> Generic fn_returndatacopy,
      OP_EXTCODEHASH \<mapsto> Generic fn_extcodehash,
      OP_BLOCKHASH \<mapsto> Generic fn_blockhash,
      OP_COINBASE \<mapsto> Generic fn_coinbase,
      OP_TIMESTAMP \<mapsto> Generic fn_timestamp,
      OP_NUMBER \<mapsto> Generic fn_number,
      OP_DIFFICULTY \<mapsto> Generic fn_difficulty,
      OP_GASLIMIT \<mapsto> Generic fn_gaslimit,
      OP_CHAINID \<mapsto> Generic fn_chainid,
      OP_SELFBALANCE \<mapsto> Generic fn_selfbalance,
      OP_BASEFEE \<mapsto> Generic fn_basefee,
      OP_POP \<mapsto> Generic fn_pop,
      OP_MLOAD \<mapsto> Generic fn_mload,
      OP_MSTORE \<mapsto> Generic fn_mstore,
      OP_MSTORE8 \<mapsto> Generic fn_mstore8,
      OP_SLOAD \<mapsto> Generic fn_sload,
      OP_SSTORE \<mapsto> Generic fn_sstore,
      OP_JUMP \<mapsto> fn_jump,
      OP_JUMPI \<mapsto> fn_jumpi,
      OP_PC \<mapsto> fn_pc,
      OP_MSIZE \<mapsto> Generic fn_msize,
      OP_GAS \<mapsto> Generic fn_gas,
      OP_JUMPDEST \<mapsto> Generic fn_jumpdest))))))(
      OP_CREATE \<mapsto> Generic (fn_create IVMC_CREATE),
      OP_CALL \<mapsto> Generic (fn_call IVMC_CALL False),
      OP_CALLCODE \<mapsto> Generic (fn_call IVMC_CALLCODE False),
      OP_RETURN \<mapsto> Generic (fn_return IVMC_SUCCESS),
      OP_DELEGATECALL \<mapsto> Generic (fn_call IVMC_DELEGATECALL False),
      OP_CREATE2 \<mapsto> Generic (fn_create IVMC_CREATE2),
      OP_STATICCALL \<mapsto> Generic (fn_call IVMC_CALL True),
      OP_INVALID \<mapsto> Generic fn_invalid,
      OP_REVERT \<mapsto> Generic (fn_return IVMC_REVERT),
      OP_SELFDESTRUCT \<mapsto> Generic fn_selfdestruct)"

end
