(* ===== verification/Instruction_Lemmas.thy ===== *)
theory Instruction_Lemmas
  imports Dispatch
begin

text \<open>
  What every instruction promises: no undefined behaviour when its stack requirement is met, the
  stack height change of the traits table, well-formedness kept, gas never increased, and nothing
  else of the execution state touched. \<open>succeeds\<close>, \<open>may_fail\<close> and \<open>terminates\<close> state this for the
  three signatures; \<open>impl_contract\<close> collects it for every function.
\<close>

section \<open>Words and limbs\<close>

lemma unat_uint256_less: "unat (x :: uint256) < 2 ^ 256"
proof -
  have "unat x < 2 ^ LENGTH(256)" by (rule unsigned_less)
  then show ?thesis by simp
qed
lemma unat_u64_less: "unat (x :: u64) < 2 ^ 64"
proof -
  have "unat x < 2 ^ LENGTH(64)" by (rule unsigned_less)
  then show ?thesis by simp
qed
lemma unat_limb: "unat (limb x i) = unat x div 2 ^ (64 * i) mod 2 ^ 64"
proof -
  have "take_bit 256 (unat x) = unat x"
    using unat_uint256_less [of x] by (simp add: take_bit_nat_eq_self_iff)
  then have "unat (limb x i) = take_bit 64 (drop_bit (64 * i) (unat x))"
    by (simp add: limb_def unsigned_ucast_eq unsigned_drop_bit_eq)
  then show ?thesis by (simp only: drop_bit_eq_div take_bit_eq_mod)
qed

lemma or_eq_0: "(a OR b = 0) \<longleftrightarrow> a = 0 \<and> b = (0 :: u64)"
  by (auto simp: bit_eq_iff bit_or_iff)

lemma small_nat: 
  fixes n :: nat assumes "n < 2 ^ 256" 
  shows "n div 2 ^ 192 mod 2 ^ 64 = 0 \<and> n div 2 ^ 128 mod 2 ^ 64 = 0 \<and> n div 2 ^ 64 mod 2 ^ 64 = 0 \<longleftrightarrow> n < 2 ^ 64"
proof -
  have z: "n < 2 ^ (k + 64) \<Longrightarrow> n div 2 ^ k mod 2 ^ 64 = 0 \<longleftrightarrow> n < 2 ^ k" for k
  proof -
    assume "n < 2 ^ (k + 64)"
    then have "n div 2 ^ k < 2 ^ 64" by (simp add: less_mult_imp_div_less power_add mult.commute)
    then show ?thesis by (simp add: div_eq_0_iff)
  qed
  have a: "n div 2 ^ 192 mod 2 ^ 64 = 0 \<longleftrightarrow> n < 2 ^ 192" using z [of 192] assms by simp
  have b: "n < 2 ^ 192 \<Longrightarrow> n div 2 ^ 128 mod 2 ^ 64 = 0 \<longleftrightarrow> n < 2 ^ 128" using z [of 128] by simp
  have c: "n < 2 ^ 128 \<Longrightarrow> n div 2 ^ 64 mod 2 ^ 64 = 0 \<longleftrightarrow> n < 2 ^ 64" using z [of 64] by simp
  show ?thesis
  proof (intro iffI)
    assume "n < 2 ^ 64"
    then have "n < 2 ^ 128" "n < 2 ^ 192" by simp_all
    then show "n div 2 ^ 192 mod 2 ^ 64 = 0 \<and> n div 2 ^ 128 mod 2 ^ 64 = 0 \<and> n div 2 ^ 64 mod 2 ^ 64 = 0"
      using \<open>n < 2 ^ 64\<close> by (intro conjI iffD2 [OF a] iffD2 [OF b] iffD2 [OF c])
  next
    assume "n div 2 ^ 192 mod 2 ^ 64 = 0 \<and> n div 2 ^ 128 mod 2 ^ 64 = 0 \<and> n div 2 ^ 64 mod 2 ^ 64 = 0"
    then have h: "n div 2 ^ 192 mod 2 ^ 64 = 0" "n div 2 ^ 128 mod 2 ^ 64 = 0" "n div 2 ^ 64 mod 2 ^ 64 = 0" by blast+
    from h(1) a have "n < 2 ^ 192" by (rule iffD1 [rotated])
    from iffD1 [OF b [OF this] h(2)] have "n < 2 ^ 128" .
    from iffD1 [OF c [OF this] h(3)] show "n < 2 ^ 64" .
  qed
qed
lemma small_limbs:
  "(limb x 3 OR limb x 2 OR limb x 1) = 0 \<and> \<not> limb x 0 > max_buffer_size \<longleftrightarrow> unat x < 2 ^ 32"
proof -
  have "(limb x 3 OR limb x 2 OR limb x 1) = 0 \<longleftrightarrow>
      unat (limb x 3) = 0 \<and> unat (limb x 2) = 0 \<and> unat (limb x 1) = 0"
    by (simp add: or_eq_0 unat_eq_zero)
  also have "\<dots> \<longleftrightarrow> unat x < 2 ^ 64"
    using small_nat [OF unat_uint256_less, of x] by (simp add: unat_limb)
  finally have a: "(limb x 3 OR limb x 2 OR limb x 1) = 0 \<longleftrightarrow> unat x < 2 ^ 64" .
  have "\<not> limb x 0 > max_buffer_size \<longleftrightarrow> unat x mod 2 ^ 64 < 2 ^ 32"
    by (simp add: word_less_nat_alt unat_limb max_buffer_size_def) arith
  with a show ?thesis by auto
qed
lemma sint_u64_small: "unat (x :: u64) < 2 ^ 63 \<Longrightarrow> sint x = int (unat x)"
proof -
  assume "unat x < 2 ^ 63"
  then have "uint x < 2 ^ 63" unfolding uint_nat
    by (metis of_nat_less_iff of_nat_numeral of_nat_power)
  moreover have "- (2 ^ 63) \<le> uint x" by (rule order_trans [OF _ uint_ge_0]) simp
  ultimately have "signed_take_bit 63 (uint x) = uint x" by (simp add: signed_take_bit_int_eq_self_iff)
  then show ?thesis by (simp add: sint_uint)
qed
lemma num_words_nat: "num_words n = int (unat (n + 31) div 32)"
proof -
  have "unat ((n + 31) div 32) = unat (n + 31) div 32" by (simp add: unat_div)
  moreover have "unat (n + 31) div 32 < 2 ^ 63" using unat_u64_less [of "n + 31"] by simp
  ultimately show ?thesis by (simp add: num_words_def sint_u64_small)
qed
lemma num_words_nonneg: "0 \<le> num_words n"
  by (simp add: num_words_nat)
lemma num_words_eq: "unat n + 31 < 2 ^ 64 \<Longrightarrow> num_words n = int ((unat n + 31) div 32)"
  by (simp add: num_words_nat unat_word_ariths)

section \<open>Memory growth\<close>

lemma memory_cost_mono: "0 \<le> a \<Longrightarrow> a \<le> b \<Longrightarrow> memory_cost a \<le> memory_cost b"
proof -
  assume "0 \<le> a" "a \<le> b"
  then have "a * a div 512 \<le> b * b div 512" by (intro zdiv_mono1 mult_mono) auto
  with \<open>a \<le> b\<close> show ?thesis by (simp add: memory_cost_def)
qed

text \<open>The effect of a memory check: gas and memory may change, nothing else.\<close>

definition grown :: "('a, 'h, 'z) state \<Rightarrow> int \<Rightarrow> bytes \<Rightarrow> bool" where
  "grown s g m \<longleftrightarrow> g \<le> gas_left s \<and> length m mod 32 = 0 \<and> length m \<le> memory_bound \<and>
     length (memory s) \<le> length m \<and> take (length (memory s)) m = memory s"

lemma state_update_id: "s = s\<lparr>gas_left := gas_left s, memory := memory s\<rparr>"
  by simp

lemma grow_memory_spec:
  assumes wf: "state_wf s" and big: "length (memory s) < unat n" and bound: "unat n \<le> 2 ^ 33"
  shows "\<exists>ok g m. grow_memory s n = Some (ok, s\<lparr>gas_left := g, memory := m\<rparr>) \<and> grown s g m \<and>
    (ok \<longleftrightarrow> 0 \<le> g) \<and> (ok \<longrightarrow> unat n \<le> length m)"
proof -
  let ?w = "(unat n + 31) div 32"
  have nw: "num_words n = int ?w" using bound by (intro num_words_eq) simp
  have cw: "int (length (memory s) div 32) \<le> num_words n" unfolding nw using big by simp
  let ?c = "memory_cost (num_words n) - memory_cost (int (length (memory s) div 32))"
  have c0: "0 \<le> ?c" using memory_cost_mono [OF _ cw] by simp
  have sz: "nat (num_words n * 32) = ?w * 32" unfolding nw by simp
  have ge: "unat n \<le> ?w * 32" and le: "?w * 32 \<le> memory_bound"
    using bound by (simp_all add: memory_bound_def)
  have mg: "mem_grow (memory s) (?w * 32) = Some (memory s @ replicate (?w * 32 - length (memory s)) 0)"
    using big ge by (simp add: mem_grow_def)
  show ?thesis
  proof (cases "gas_left s - ?c < 0")
    case True
    then have "grow_memory s n = Some (False, s\<lparr>gas_left := gas_left s - ?c, memory := memory s\<rparr>)"
      by (simp add: grow_memory_def Let_def)
    with True c0 wf show ?thesis
      by (intro exI [of _ False] exI [of _ "gas_left s - ?c"] exI [of _ "memory s"]) (simp add: grown_def state_wf_def)
  next
    case False
    let ?m = "memory s @ replicate (?w * 32 - length (memory s)) 0"
    from False have "grow_memory s n = Some (True, s\<lparr>gas_left := gas_left s - ?c, memory := ?m\<rparr>)"
      by (simp add: grow_memory_def Let_def sz mg)
    with False c0 wf ge le big show ?thesis
      by (intro exI [of _ True] exI [of _ "gas_left s - ?c"] exI [of _ ?m]) (simp add: grown_def)
  qed
qed

lemma check_memory64_spec:
  assumes wf: "state_wf s" and gas: "0 \<le> gas_left s" and sz: "unat sz < 2 ^ 32"
  shows "\<exists>ok g m. check_memory64 s off sz = Some (ok, s\<lparr>gas_left := g, memory := m\<rparr>) \<and> grown s g m \<and>
    (ok \<longrightarrow> 0 \<le> g \<and> unat off < 2 ^ 32 \<and> to_size off + unat sz \<le> length m)"
proof (cases "unat off < 2 ^ 32")
  case False
  with small_limbs [of off] have "check_memory64 s off sz = Some (False, s\<lparr>gas_left := gas_left s, memory := memory s\<rparr>)"
    by (auto simp: check_memory64_def)
  with wf show ?thesis by (intro exI [of _ False] exI [of _ "gas_left s"] exI [of _ "memory s"]) (simp add: grown_def state_wf_def)
next
  case True
  have off: "to_size off = unat off"
    using True by (simp add: to_size_def to_u64_def unsigned_ucast_eq take_bit_nat_eq_self_iff)
  have sum: "unat (to_u64 off + sz) = to_size off + unat sz"
    using True sz off by (simp add: to_size_def unat_word_ariths)
  have small: "to_size off + unat sz \<le> 2 ^ 33" using True sz off by simp
  show ?thesis
  proof (cases "length (memory s) < to_size off + unat sz")
    case g: True
    from True small_limbs [of off] g sum have "check_memory64 s off sz = grow_memory s (to_u64 off + sz)"
      by (auto simp: check_memory64_def Let_def)
    with grow_memory_spec [OF wf, of "to_u64 off + sz"] g sum small True show ?thesis by auto
  next
    case f: False
    from True small_limbs [of off] f sum have
      "check_memory64 s off sz = Some (True, s\<lparr>gas_left := gas_left s, memory := memory s\<rparr>)"
      by (auto simp: check_memory64_def Let_def)
    with f gas True wf show ?thesis
      by (intro exI [of _ True] exI [of _ "gas_left s"] exI [of _ "memory s"]) (simp add: grown_def state_wf_def)
  qed
qed

lemma check_memory_spec:
  assumes wf: "state_wf s" and gas: "0 \<le> gas_left s"
  shows "\<exists>ok g m. check_memory s off sz = Some (ok, s\<lparr>gas_left := g, memory := m\<rparr>) \<and> grown s g m \<and>
    (ok \<longrightarrow> 0 \<le> g \<and> unat sz < 2 ^ 32 \<and> (to_size sz = 0 \<or> to_size off + to_size sz \<le> length m))"
proof (cases "sz = 0")
  case True
  then have "check_memory s off sz = Some (True, s\<lparr>gas_left := gas_left s, memory := memory s\<rparr>)"
    by (simp add: check_memory_def)
  with wf gas True show ?thesis
    by (intro exI [of _ True] exI [of _ "gas_left s"] exI [of _ "memory s"])
      (simp add: grown_def state_wf_def to_size_def to_u64_def)
next
  case nz: False
  show ?thesis
  proof (cases "unat sz < 2 ^ 32")
    case False
    with nz small_limbs [of sz] have "check_memory s off sz = Some (False, s\<lparr>gas_left := gas_left s, memory := memory s\<rparr>)"
      by (auto simp: check_memory_def)
    with wf show ?thesis
      by (intro exI [of _ False] exI [of _ "gas_left s"] exI [of _ "memory s"]) (simp add: grown_def state_wf_def)
  next
    case True
    have u: "unat (to_u64 sz) = unat sz"
      using True by (simp add: to_u64_def unsigned_ucast_eq take_bit_nat_eq_self_iff)
    from nz True small_limbs [of sz] have "check_memory s off sz = check_memory64 s off (to_u64 sz)"
      by (auto simp: check_memory_def)
    with check_memory64_spec [OF wf gas, of "to_u64 sz" off] True u show ?thesis
      by (auto simp: to_size_def)
  qed
qed
end
