(* ===== verification/Instruction_Contracts.thy ===== *)
theory Instruction_Contracts
  imports Instruction_Lemmas
begin

text \<open>
  The contract of every instruction: run with enough items on the stack, room for what it pushes
  and gas left (\<open>ready\<close>), it has no undefined behaviour, changes the stack height by the number
  the traits table announces, keeps the state well-formed, never adds gas, and leaves what it
  does not own unchanged. \<open>succeeds\<close>, \<open>may_fail\<close> and \<open>terminates\<close> are the contracts of the three
  C++ signatures. The last section states them once for every entry of the dispatch table.
\<close>

section \<open>Contracts\<close>

definition env_same :: "('a, 'h, 'z) state \<Rightarrow> ('a, 'h, 'z) state \<Rightarrow> bool" where
  "env_same s s' \<longleftrightarrow> msg s' = msg s \<and> revision s' = revision s \<and> code s' = code s \<and>
     analysis s' = analysis s \<and> ExecutionState.more s' = ExecutionState.more s"

definition succeeds :: "int \<Rightarrow> ('a, 'h, 'z) state option \<Rightarrow> ('a, 'h, 'z) state \<Rightarrow> bool" where
  "succeeds d r s \<longleftrightarrow>
     wp r (\<lambda>s'. s' = s\<lparr>stack := stack s'\<rparr> \<and> int (length (stack s')) = int (length (stack s)) + d)"

definition may_fail :: "int \<Rightarrow> (ivmc_status_code \<times> ('a, 'h, 'z) state) option \<Rightarrow> ('a, 'h, 'z) state \<Rightarrow> bool" where
  "may_fail d r s \<longleftrightarrow>
     wp r (\<lambda>(c, s'). env_same s s' \<and> state_wf s' \<and> gas_left s' \<le> gas_left s \<and>
        status s' = status s \<and> output_offset s' = output_offset s \<and> output_size s' = output_size s \<and>
        c \<noteq> IVMC_REVERT \<and>
        (c = IVMC_SUCCESS \<longrightarrow> 0 \<le> gas_left s' \<and> int (length (stack s')) = int (length (stack s)) + d))"

definition terminates :: "(ivmc_status_code \<times> ('a, 'h, 'z) state) option \<Rightarrow> ('a, 'h, 'z) state \<Rightarrow> bool" where
  "terminates r s \<longleftrightarrow>
     wp r (\<lambda>(c, s'). env_same s s' \<and> state_wf s' \<and> gas_left s' \<le> gas_left s \<and>
        (output_size s' = 0 \<or> output_offset s' + output_size s' \<le> length (memory s')) \<and>
        (if ok_status c then 0 \<le> gas_left s' else output_size s' = 0))"

definition ready :: "int \<Rightarrow> int \<Rightarrow> ('a, 'h, 'z) state \<Rightarrow> bool" where
  "ready req d s \<longleftrightarrow> state_wf s \<and> 0 \<le> gas_left s \<and> req \<le> int (length (stack s)) \<and>
     (0 < d \<longrightarrow> length (stack s) < stack_limit) \<and> output_size s = 0"

text \<open>What the proofs use of the library: a stored 256-bit number has 32 bytes.\<close>

definition store32 :: "lib \<Rightarrow> bool" where
  "store32 L \<longleftrightarrow> (\<forall>x. length (be_store L x) = 32)"

lemma lib_ok_store32: "lib_ok L \<Longrightarrow> store32 L"
  by (simp add: lib_ok_def store32_def)

lemma ready1: "ready 1 d s \<Longrightarrow> \<exists>a r. stack s = a # r"
  by (cases "stack s") (auto simp: ready_def)

lemma ready2: "ready 2 d s \<Longrightarrow> \<exists>a b r. stack s = a # b # r"
  by (cases "stack s"; cases "tl (stack s)") (auto simp: ready_def)

lemma ready3: "ready 3 d s \<Longrightarrow> \<exists>a b c r. stack s = a # b # c # r"
  by (cases "stack s"; cases "tl (stack s)"; cases "tl (tl (stack s))") (auto simp: ready_def)

lemma ready_mono: "ready m d s \<Longrightarrow> n \<le> m \<Longrightarrow> ready n d s"
  by (simp add: ready_def)

lemmas stack_simps = on_stack_def push_instr_value_def Let_def

section \<open>Instructions on the stack alone\<close>

lemma succeeds_binary:
  assumes "ready 2 d s"
  shows "succeeds (- 1) (add_instr s) s" "succeeds (- 1) (mul_instr s) s" "succeeds (- 1) (sub_instr s) s"
    "succeeds (- 1) (div_instr L s) s" "succeeds (- 1) (sdiv_instr L s) s" "succeeds (- 1) (mod_instr L s) s"
    "succeeds (- 1) (smod_instr L s) s" "succeeds (- 1) (signextend_instr L s) s"
    "succeeds (- 1) (lt_instr s) s" "succeeds (- 1) (gt_instr s) s" "succeeds (- 1) (slt_instr L s) s"
    "succeeds (- 1) (sgt_instr L s) s" "succeeds (- 1) (eq_instr s) s" "succeeds (- 1) (and_instr s) s"
    "succeeds (- 1) (or_instr s) s" "succeeds (- 1) (xor_instr s) s" "succeeds (- 1) (byte_instr s) s"
    "succeeds (- 1) (shl_instr L s) s" "succeeds (- 1) (shr_instr L s) s" "succeeds (- 1) (sar_instr L s) s"
  using ready2 [OF assms]
  by (auto simp: succeeds_def stack_simps add_instr_def mul_instr_def sub_instr_def div_instr_def
      sdiv_instr_def mod_instr_def smod_instr_def signextend_instr_def lt_instr_def gt_instr_def
      slt_instr_def sgt_instr_def eq_instr_def and_instr_def or_instr_def xor_instr_def byte_instr_def
      shl_instr_def shr_instr_def sar_instr_def)

lemma succeeds_ternary:
  assumes "ready 3 d s"
  shows "succeeds (- 2) (addmod_instr L s) s" "succeeds (- 2) (mulmod_instr L s) s"
  using ready3 [OF assms] by (auto simp: succeeds_def stack_simps addmod_instr_def mulmod_instr_def)

lemma succeeds_unary:
  assumes "ready 1 d s"
  shows "succeeds 0 (iszero_instr s) s" "succeeds 0 (not_instr s) s" "succeeds 0 (calldataload_instr L s) s"
    "succeeds 0 (blockhash_instr L H s) s" "succeeds (- 1) (pop_instr s) s"
  using ready1 [OF assms]
  by (auto simp: succeeds_def stack_simps iszero_instr_def not_instr_def calldataload_instr_def
      blockhash_instr_def pop_instr_def)

lemma succeeds_push_value: "ready 0 1 s \<Longrightarrow> succeeds 1 (push_instr_value v s) s"
  by (simp add: succeeds_def stack_simps ready_def)

lemma succeeds_push:
  assumes "ready 0 1 s"
  shows "succeeds 1 (address_instr L s) s" "succeeds 1 (origin_instr L H s) s" "succeeds 1 (caller_instr L s) s"
    "succeeds 1 (callvalue_instr L s) s" "succeeds 1 (calldatasize_instr s) s" "succeeds 1 (codesize_instr s) s"
    "succeeds 1 (gasprice_instr L H s) s" "succeeds 1 (basefee_instr L H s) s"
    "succeeds 1 (returndatasize_instr s) s" "succeeds 1 (coinbase_instr L H s) s"
    "succeeds 1 (timestamp_instr H s) s" "succeeds 1 (number_instr H s) s" "succeeds 1 (difficulty_instr L H s) s"
    "succeeds 1 (gaslimit_instr H s) s" "succeeds 1 (chainid_instr L H s) s"
    "succeeds 1 (selfbalance_instr L H s) s" "succeeds 1 (msize_instr s) s" "succeeds 1 (gas_instr L s) s"
  using succeeds_push_value [OF assms]
  by (simp_all add: address_instr_def origin_instr_def caller_instr_def callvalue_instr_def
      calldatasize_instr_def codesize_instr_def gasprice_instr_def basefee_instr_def
      returndatasize_instr_def coinbase_instr_def timestamp_instr_def number_instr_def
      difficulty_instr_def gaslimit_instr_def chainid_instr_def selfbalance_instr_def msize_instr_def
      gas_instr_def)

lemma succeeds_dup:
  assumes "ready (int n) 1 s" "1 \<le> n"
  shows "succeeds 1 (dup_instr n s) s"
  using assms by (auto simp: succeeds_def stack_simps dup_instr_def ready_def stk_get_def)

lemma succeeds_swap:
  assumes "ready (int n + 1) 0 s" "1 \<le> n"
  shows "succeeds 0 (swap_instr n s) s"
  using assms by (auto simp: succeeds_def stack_simps swap_instr_def ready_def stk_get_def stk_set_def)

lemma succeeds_jumpdest: "succeeds 0 (jumpdest_instr s) s"
  by (simp add: succeeds_def jumpdest_instr_def)

section \<open>Instructions that may fail\<close>

lemma check_memory64_wp:
  assumes "state_wf s" "0 \<le> gas_left s" "unat sz < 2 ^ 32"
    and "\<And>ok g m. grown s g m \<Longrightarrow> ok \<longrightarrow> 0 \<le> g \<and> to_size off + unat sz \<le> length m \<Longrightarrow>
      Q (ok, s\<lparr>gas_left := g, memory := m\<rparr>)"
  shows "wp (check_memory64 s off sz) Q"
  using check_memory64_spec [OF assms(1-3), of off] assms(4) by auto

lemma check_memory_wp:
  assumes "state_wf s" "0 \<le> gas_left s"
    and "\<And>ok g m. grown s g m \<Longrightarrow>
      ok \<longrightarrow> 0 \<le> g \<and> unat sz < 2 ^ 32 \<and> (to_size sz = 0 \<or> to_size off + to_size sz \<le> length m) \<Longrightarrow>
      Q (ok, s\<lparr>gas_left := g, memory := m\<rparr>)"
  shows "wp (check_memory s off sz) Q"
  using check_memory_spec [OF assms(1-2), of off sz] assms(3) by auto

lemma mem_read_wp: "off + n \<le> length m \<Longrightarrow> (\<And>xs. length xs = n \<Longrightarrow> Q xs) \<Longrightarrow> wp (mem_read m off n) Q"
  by (simp add: mem_read_def)

lemma mem_write_wp:
  "off + length xs \<le> length m \<Longrightarrow> (\<And>m'. length m' = length m \<Longrightarrow> Q m') \<Longrightarrow> wp (mem_write m off xs) Q"
  by (simp add: mem_write_def)

lemmas contract_simps = may_fail_def terminates_def wp_rules env_same_def state_wf_def use_gas_def
  grown_def ready_def ok_status_def stack_limit_def Let_def

lemma if_boolI: "(c \<Longrightarrow> P) \<Longrightarrow> (\<not> c \<Longrightarrow> Q) \<Longrightarrow> (if c then P else Q)"
  by simp

lemma words_gas [simp]: "g \<le> G \<Longrightarrow> g - num_words n * numeral k \<le> G"
  using mult_nonneg_nonneg [OF num_words_nonneg [of n], of "numeral k"] by simp

lemma words_gas_le: "x \<le> g - num_words n * numeral k \<Longrightarrow> x \<le> g"
  using mult_nonneg_nonneg [OF num_words_nonneg [of n], of "numeral k"] by simp

lemma ready_wf: "ready n d s \<Longrightarrow> state_wf s" "ready n d s \<Longrightarrow> 0 \<le> gas_left s"
  by (simp_all add: ready_def)

lemma state_wf_stack: "state_wf s \<Longrightarrow> length st \<le> length (stack s) \<Longrightarrow> state_wf (s\<lparr>stack := st\<rparr>)"
  by (simp add: state_wf_def)

lemma may_fail_exp: "ready 2 d s \<Longrightarrow> may_fail (- 1) (exp_instr L s) s"
  using ready2 [of d s] by (auto simp: exp_instr_def contract_simps)

lemma may_fail_mload:
  assumes "ready 1 d s"
  shows "may_fail 0 (mload_instr L s) s"
proof -
  from ready1 [OF assms] obtain a r where st: "stack s = a # r" by blast
  show ?thesis
    unfolding may_fail_def mload_instr_def wp_rules st
    by (simp add: wp_rules, rule check_memory64_wp)
      (use assms st in \<open>auto simp: contract_simps intro!: mem_read_wp\<close>)
qed

lemma may_fail_mstore:
  assumes "ready 2 d s" "store32 L"
  shows "may_fail (- 2) (mstore_instr L s) s"
proof -
  from ready2 [OF assms(1)] obtain a b r where st: "stack s = a # b # r" by blast
  show ?thesis
    unfolding may_fail_def mstore_instr_def st
    by (simp add: wp_rules, rule check_memory64_wp)
      (use assms st in \<open>auto simp: contract_simps store32_def intro!: mem_write_wp\<close>)
qed

lemma may_fail_mstore8:
  assumes "ready 2 d s"
  shows "may_fail (- 2) (mstore8_instr s) s"
proof -
  from ready2 [OF assms(1)] obtain a b r where st: "stack s = a # b # r" by blast
  show ?thesis
    unfolding may_fail_def mstore8_instr_def st
    by (simp add: wp_rules, rule check_memory64_wp)
      (use assms st in \<open>auto simp: contract_simps intro!: mem_write_wp\<close>)
qed

lemma may_fail_keccak256:
  assumes "ready 2 d s"
  shows "may_fail (- 1) (keccak256_instr L s) s"
proof -
  from ready2 [OF assms(1)] obtain a b r where st: "stack s = a # b # r" by blast
  show ?thesis
    unfolding may_fail_def keccak256_instr_def st
    by (simp add: wp_rules, rule check_memory_wp)
      (use assms st in \<open>auto simp: contract_simps intro!: mem_read_wp\<close>)
qed

lemma check_memory_cases:
  assumes "state_wf s" "0 \<le> gas_left s"
  obtains (fail) g m where "check_memory s off sz = Some (False, s\<lparr>gas_left := g, memory := m\<rparr>)" "grown s g m"
  | (ok) g m where "check_memory s off sz = Some (True, s\<lparr>gas_left := g, memory := m\<rparr>)" "grown s g m" "0 \<le> g"
      "unat sz < 2 ^ 32" "to_size sz = 0 \<or> to_size off + to_size sz \<le> length m"
proof -
  from check_memory_spec [OF assms, of off sz] obtain ok g m where
    *: "check_memory s off sz = Some (ok, s\<lparr>gas_left := g, memory := m\<rparr>)" "grown s g m"
    "ok \<longrightarrow> 0 \<le> g \<and> unat sz < 2 ^ 32 \<and> (to_size sz = 0 \<or> to_size off + to_size sz \<le> length m)"
    by blast
  with that show ?thesis by (cases ok) auto
qed

lemma write_padded_wp:
  assumes "n = 0 \<or> dst + n \<le> length m" "length xs \<le> n" "\<And>m'. length m' = length m \<Longrightarrow> Q m'"
  shows "wp (write_padded m dst xs n) Q"
  using assms by (auto simp: write_padded_def wp_rules mem_write_def)

lemma may_fail_copy_zero_extended:
  assumes "ready 3 d s"
  shows "may_fail (- 3) (copy_zero_extended data s) s"
proof -
  from ready3 [OF assms(1)] obtain a b c r where st: "stack s = a # b # c # r" by blast
  show ?thesis
    unfolding may_fail_def copy_zero_extended_def
    by (simp only: wp_rules stk_pop.simps prod.case st, rule check_memory_wp)
      (use assms st in \<open>auto simp: contract_simps intro!: write_padded_wp\<close>)
qed

lemma may_fail_copies:
  assumes "ready 3 d s"
  shows "may_fail (- 3) (calldatacopy_instr s) s" "may_fail (- 3) (codecopy_instr s) s"
  using may_fail_copy_zero_extended [OF assms] by (simp_all add: calldatacopy_instr_def codecopy_instr_def)

text \<open>Within the address space the sum of a position in a buffer and a checked size does not wrap around.\<close>

lemma to_size_sum:
  assumes "unat a < 2 ^ 63" "to_size b \<le> 2 ^ 33"
  shows "unat (to_u64 a + to_u64 b) = to_size a + to_size b"
proof -
  have "to_size a = unat a" using assms(1) by (simp add: to_size_def to_u64_def unsigned_ucast_eq take_bit_nat_eq_self_iff)
  with assms have "unat (to_u64 a) + unat (to_u64 b) < 2 ^ LENGTH(64)" by (simp add: to_size_def)
  then show ?thesis by (simp add: to_size_def unat_word_ariths)
qed

lemma may_fail_returndatacopy:
  assumes "ready 3 d s"
  shows "may_fail (- 3) (returndatacopy_instr s) s"
proof -
  from ready3 [OF assms(1)] obtain a b c r where st: "stack s = a # b # c # r" by blast
  have rd: "length (return_data s) < 2 ^ 63" using assms by (simp add: ready_def state_wf_def)
  have copy: "wp (mem_read (return_data s) (to_size b) (to_size c)) (\<lambda>x. wp (mem_write m (to_size a) x) Q)"
    if "unat b \<le> length (return_data s)" "unat (to_u64 b + to_u64 c) \<le> length (return_data s)"
      "to_size a + to_size c \<le> length m" "length m \<le> memory_bound" "\<And>m'. length m' = length m \<Longrightarrow> Q m'" for m Q
  proof -
    have "to_size b + to_size c \<le> length (return_data s)"
      using to_size_sum [of b c] that rd by (simp add: memory_bound_def)
    with that(3,5) show ?thesis by (auto intro!: mem_read_wp mem_write_wp)
  qed
  show ?thesis
    unfolding may_fail_def returndatacopy_instr_def st
    by (simp add: wp_rules, rule check_memory_wp)
      (use assms st in \<open>auto simp: contract_simps not_less intro!: copy\<close>)
qed

text \<open>The cold account charge either runs out of gas or leaves a state that differs in gas and host only.\<close>

lemma charge_cold_account_cases:
  assumes "0 \<le> cost"
  obtains (fail) g h where "charge_cold_account H cost a s = Inl (s\<lparr>gas_left := g, host := h\<rparr>)" "g \<le> gas_left s" "g < 0"
  | (ok) g h where "charge_cold_account H cost a s = Inr (s\<lparr>gas_left := g, host := h\<rparr>)" "g \<le> gas_left s"
      "0 \<le> gas_left s \<longrightarrow> 0 \<le> g"
proof (cases "revision s \<ge> IVMC_BERLIN")
  case False
  then have "charge_cold_account H cost a s = Inr (s\<lparr>gas_left := gas_left s, host := host s\<rparr>)"
    by (simp add: charge_cold_account_def)
  then show ?thesis by (rule ok) simp_all
next
  case True
  obtain acc h where ah: "access_account H a (host s) = (acc, h)" by (cases "access_account H a (host s)")
  show ?thesis
  proof (cases "acc = IVMC_ACCESS_COLD")
    case False
    with True ah have "charge_cold_account H cost a s = Inr (s\<lparr>gas_left := gas_left s, host := h\<rparr>)"
      by (simp add: charge_cold_account_def)
    then show ?thesis by (rule ok) simp_all
  next
    case cold: True
    show ?thesis
    proof (cases "gas_left s - cost < 0")
      case lt: True
      with True cold ah have "charge_cold_account H cost a s = Inl (s\<lparr>gas_left := gas_left s - cost, host := h\<rparr>)"
        by (simp add: charge_cold_account_def use_gas_def Let_def)
      then show ?thesis by (rule fail) (use lt assms in simp_all)
    next
      case ge: False
      with True cold ah have "charge_cold_account H cost a s = Inr (s\<lparr>gas_left := gas_left s - cost, host := h\<rparr>)"
        by (simp add: charge_cold_account_def use_gas_def Let_def)
      then show ?thesis by (rule ok) (use ge assms in simp_all)
    qed
  qed
qed

lemma cold_costs_nonneg [simp]: "0 \<le> additional_cold_account_access_cost" "0 \<le> cold_account_access_cost"
  by (simp_all add: cost_defs)

lemma may_fail_account:
  assumes "ready 1 d s"
  shows "may_fail 0 (balance_instr L H s) s" "may_fail 0 (extcodesize_instr L H s) s"
    "may_fail 0 (extcodehash_instr L H s) s"
proof -
  from ready1 [OF assms] obtain a r where st: "stack s = a # r" by blast
  show "may_fail 0 (balance_instr L H s) s" "may_fail 0 (extcodesize_instr L H s) s"
    "may_fail 0 (extcodehash_instr L H s) s"
    unfolding balance_instr_def extcodesize_instr_def extcodehash_instr_def
    by (rule charge_cold_account_cases [OF cold_costs_nonneg(1), of H "be_trunc L a" s];
        use assms st in \<open>auto simp: contract_simps\<close>)+
qed

lemma charge_cold_account_wp:
  assumes "0 \<le> cost" "\<And>g h. g \<le> gas_left s \<Longrightarrow> Q (IVMC_OUT_OF_GAS, s\<lparr>gas_left := g, host := h\<rparr>)"
    "\<And>g h. g \<le> gas_left s \<Longrightarrow> 0 \<le> gas_left s \<longrightarrow> 0 \<le> g \<Longrightarrow> wp (f (s\<lparr>gas_left := g, host := h\<rparr>)) Q"
  shows "wp (case charge_cold_account H cost x s of
     Inl s \<Rightarrow> Some (IVMC_OUT_OF_GAS, s) | Inr s \<Rightarrow> f s) Q"
  by (rule charge_cold_account_cases [OF assms(1), of H x s]) (use assms(2,3) in auto)

lemma may_fail_extcodecopy:
  assumes "ready 4 d s" "host_ok H"
  shows "may_fail (- 4) (extcodecopy_instr L H s) s"
proof -
  from ready3 [OF ready_mono [OF assms(1), of 3]] assms(1) obtain a b c e r where st: "stack s = a # b # c # e # r"
    by (cases "tl (tl (tl (stack s)))") (auto simp: ready_def)
  show ?thesis
    unfolding may_fail_def extcodecopy_instr_def
    apply (simp only: wp_rules stk_pop.simps prod.case st Let_def)
    apply (rule check_memory_wp)
    subgoal using assms st by (simp add: contract_simps)
    subgoal using assms by (simp add: ready_def)
    subgoal premises p for ok g m
      apply (simp only: prod.case)
      apply (intro if_boolI)
      subgoal using p assms st by (simp add: contract_simps)
      subgoal using p assms st by (simp add: contract_simps)
      apply (rule charge_cold_account_wp)
      subgoal by simp
      subgoal using p assms st by (auto simp: contract_simps dest!: words_gas_le)
      subgoal using p assms st
        by (auto simp: contract_simps host_ok_copy host_ok_copy [THEN leD] dest!: words_gas_le intro!: write_padded_wp)
      done
    done
qed

lemma may_fail_sload:
  assumes "ready 1 d s"
  shows "may_fail 0 (sload_instr L H s) s"
proof -
  from ready1 [OF assms] obtain a r where st: "stack s = a # r" by blast
  show ?thesis
    using assms st by (auto simp: sload_instr_def contract_simps cost_defs split: prod.splits)
qed

lemma sstore_cost_nonneg: "0 \<le> c \<Longrightarrow> 0 \<le> sstore_cost r c x"
  by (cases x) (simp_all add: cost_defs)

lemma may_fail_sstore:
  assumes "ready 2 d s"
  shows "may_fail (- 2) (sstore_instr L H s) s"
proof -
  from ready2 [OF assms] obtain a b r where st: "stack s = a # b # r" by blast
  have "0 \<le> cold_sload_cost" by (simp add: cost_defs)
  note cost = sstore_cost_nonneg [OF this] sstore_cost_nonneg [OF order_refl]
  show ?thesis
    using assms st cost
    by (auto simp: sstore_instr_def contract_simps split: prod.splits)
qed

lemma pop_topics_ok:
  "n \<le> length st \<Longrightarrow> \<exists>ts. pop_topics L n st = Some (ts, drop n st)"
proof (induction n arbitrary: st)
  case 0
  then show ?case by simp
next
  case (Suc n)
  then obtain v st' where st: "st = v # st'" "n \<le> length st'" by (cases st) auto
  from Suc.IH [OF st(2)] st(1) show ?case by auto
qed

lemma sint_to_u64: "unat x < 2 ^ 32 \<Longrightarrow> sint (to_u64 x) = int (unat x)"
proof -
  assume a: "unat x < 2 ^ 32"
  then have "unat (to_u64 x) = unat x"
    by (simp add: to_u64_def unsigned_ucast_eq take_bit_nat_eq_self_iff)
  with a sint_u64_small [of "to_u64 x"] show ?thesis by simp
qed

lemma may_fail_log:
  assumes "ready (int n + 2) d s"
  shows "may_fail (- int n - 2) (log_instr L H n s) s"
proof -
  from ready2 [OF ready_mono [OF assms, of 2]] assms obtain a b r where st: "stack s = a # b # r" and n: "n \<le> length r"
    by (auto simp: ready_def)
  from pop_topics_ok [OF n, of L] obtain ts where ts: "pop_topics L n r = Some (ts, drop n r)" by blast
  have le: "x \<le> y \<Longrightarrow> x - uint b * 8 \<le> y" for x y
    by (rule order_trans [of _ x]) simp_all
  have static: "is_static (msg s) \<Longrightarrow> ?thesis"
    using assms by (simp add: log_instr_def contract_simps)
  have "may_fail (- int n - 2) (log_instr L H n s) s" if ns: "\<not> is_static (msg s)"
    unfolding may_fail_def log_instr_def if_not_P [OF ns]
    apply (simp only: wp_rules stk_pop.simps prod.case st Let_def)
    apply (rule check_memory_wp)
    subgoal using assms st by (simp add: contract_simps)
    subgoal using assms by (simp add: ready_def)
    subgoal premises p for ok g m
      using p assms st n ts le [of g "gas_left s"]
      by (auto simp: contract_simps sint_to_u64 intro!: mem_read_wp)
    done
  with static show ?thesis by blast
qed

lemma terminates_simple: "ready 0 d s \<Longrightarrow> terminates (stop_instr s) s" "ready 0 d s \<Longrightarrow> terminates (invalid_instr s) s"
  by (simp_all add: stop_instr_def invalid_instr_def contract_simps)

lemma terminates_return:
  assumes "ready 2 d s" "ok_status c"
  shows "terminates (return_instr c s) s"
proof -
  from ready2 [OF assms(1)] obtain a b r where st: "stack s = a # b # r" by blast
  show ?thesis
    unfolding terminates_def return_instr_def
    by (simp add: wp_rules st, rule check_memory_wp)
      (use assms st in \<open>auto simp: contract_simps\<close>)
qed

lemma terminates_selfdestruct:
  assumes "ready 1 d s"
  shows "terminates (selfdestruct_instr L H s) s"
proof -
  from ready1 [OF assms] obtain a r where st: "stack s = a # r" by blast
  show ?thesis
    by (rule charge_cold_account_cases [OF cold_costs_nonneg(2), of H "be_trunc L a" s])
      (use assms st in \<open>auto simp: selfdestruct_instr_def contract_simps\<close>)
qed

section \<open>Calls and creations\<close>

lemma asked_gas_nonneg: "0 \<le> (if uint gas < int64_max then sint (to_u64 gas) else int64_max)"
proof (cases "uint gas < int64_max")
  case True
  then have "uint gas < 2 ^ 63" by (simp add: int64_max_def)
  then have n: "unat gas < 2 ^ 63" by (metis nat_less_numeral_power_cancel_iff unat_eq_nat_uint)
  then have "unat (to_u64 gas) = unat gas"
    by (simp add: to_u64_def unsigned_ucast_eq take_bit_nat_eq_self_iff)
  with n sint_u64_small [of "to_u64 gas"] True show ?thesis by simp
qed (simp add: int64_max_def)

lemma sdiv64: "0 \<le> (n :: int) \<Longrightarrow> 0 \<le> n - n sdiv 64 \<and> n - n sdiv 64 \<le> n"
proof -
  assume n: "0 \<le> n"
  then have "0 \<le> n div 64" "n div 64 \<le> n" by presburger+
  with n show ?thesis by (simp add: signed_divide_int_def sgn_if)
qed

lemma callee_gas_bounds:
  assumes "callee_gas r gas left = Some g" "0 \<le> left"
  shows "0 \<le> g" "g \<le> left"
proof -
  define a where "a = (if uint gas < int64_max then sint (to_u64 gas) else int64_max)"
  have "0 \<le> a" unfolding a_def by (rule asked_gas_nonneg)
  with assms sdiv64 [OF assms(2)] show "0 \<le> g" "g \<le> left"
    unfolding callee_gas_def Let_def a_def [symmetric]
    by (auto simp del: not_less split: if_splits)
qed

lemma call_host_wp:
  assumes "host_ok H" "0 \<le> msg_gas m" "stack s \<noteq> []"
    "to_size out_size = 0 \<or> to_size out_offset + to_size out_size \<le> length (memory s)"
    "\<And>h rd x mm g. g \<le> gas_left s \<Longrightarrow> gas_left s - msg_gas m \<le> g \<Longrightarrow> length mm = length (memory s) \<Longrightarrow> length rd < 2 ^ 63 \<Longrightarrow>
      Q (IVMC_SUCCESS, s\<lparr>host := h, return_data := rd, stack := x # tl (stack s), memory := mm, gas_left := g\<rparr>)"
  shows "wp (call_host L H m value out_offset out_size s) Q"
proof -
  from assms(3) obtain x r where st: "stack s = x # r" by (cases "stack s") auto
  then have same: "s\<lparr>return_data := [], stack := x # r\<rparr> = s\<lparr>return_data := []\<rparr>" by (cases s) simp
  have nop: "Q (IVMC_SUCCESS, s\<lparr>return_data := []\<rparr>)"
    using assms(5) [where g = "gas_left s" and mm = "memory s" and h = "host s" and rd = "[]" and x = x] st assms(2)
    by (simp add: same)
  obtain res h where res: "host_call H m (host s) = (res, h)" by (cases "host_call H m (host s)")
  note b = host_ok_call [OF assms(1,2) res] host_ok_output [OF assms(1) res]
  have fin: "Q (IVMC_SUCCESS, use_gas (msg_gas m - res_gas_left res)
      (s\<lparr>host := h, return_data := res_output res, stack := y # r, memory := mm\<rparr>))"
    if "length mm = length (memory s)" for y mm
    using assms(5) [where g = "gas_left s - (msg_gas m - res_gas_left res)" and mm = mm and h = h
        and rd = "res_output res" and x = y] that b st by (simp add: use_gas_def)
  have "s\<lparr>host := h, return_data := rd, stack := st, memory := memory s\<rparr>
      = s\<lparr>host := h, return_data := rd, stack := st\<rparr>" for rd st by (cases s) simp
  with fin [OF refl] have fin': "Q (IVMC_SUCCESS, use_gas (msg_gas m - res_gas_left res)
      (s\<lparr>host := h, return_data := res_output res, stack := y # r\<rparr>))" for y by simp
  show ?thesis
    unfolding call_host_def
    apply (simp only: Let_def wp_rules)
    apply (intro if_boolI)
    subgoal using nop by simp
    subgoal using nop by simp
    subgoal using assms(4) st fin fin'
      by (auto simp: wp_rules res stk_set_def simp del: length_0_conv length_greater_0_conv intro!: mem_write_wp)
    done
qed

lemma may_fail_call_tail:
  assumes "host_ok H" "state_wf s" "stack s \<noteq> []" "gas_left s \<le> G"
    and "to_size out_size = 0 \<or> to_size out_offset + to_size out_size \<le> length (memory s)"
    and "has_value = (value \<noteq> 0)" and "0 \<le> cost" and "has_value \<longrightarrow> 9000 \<le> cost"
    and "0 \<le> gas_left s"
    and Q: "\<And>c s'. env_same s s' \<Longrightarrow> state_wf s' \<Longrightarrow> gas_left s' \<le> G \<Longrightarrow> status s' = status s \<Longrightarrow>
      output_offset s' = output_offset s \<Longrightarrow> output_size s' = output_size s \<Longrightarrow> c \<noteq> IVMC_REVERT \<Longrightarrow>
      (c = IVMC_SUCCESS \<longrightarrow> 0 \<le> gas_left s' \<and> length (stack s') = length (stack s)) \<Longrightarrow> Q (c, s')"
  shows "wp (let s = use_gas cost s
       in if gas_left s < 0 then Some (IVMC_OUT_OF_GAS, s)
          else case callee_gas (revision s) gas (gas_left s) of
            None \<Rightarrow> Some (IVMC_OUT_OF_GAS, s)
          | Some g \<Rightarrow>
              if has_value
              then call_host L H (m\<lparr>msg_gas := g + 2300\<rparr>) value out_offset out_size
                     (s\<lparr>gas_left := gas_left s + 2300\<rparr>)
              else call_host L H (m\<lparr>msg_gas := g\<rparr>) value out_offset out_size s) Q"
proof -
  have oog: "Q (IVMC_OUT_OF_GAS, use_gas cost s)"
    by (rule Q) (use assms in \<open>simp_all add: env_same_def use_gas_def state_wf_def\<close>)
  have host: "wp (call_host L H (m\<lparr>msg_gas := g + k\<rparr>) value out_offset out_size
      (s\<lparr>gas_left := gas_left s - cost + k\<rparr>)) Q"
    if "0 \<le> gas_left s - cost" "callee_gas (revision s) gas (gas_left s - cost) = Some g" "0 \<le> k" "k \<le> cost" for g k
  proof -
    note cg = callee_gas_bounds [OF that(2,1)]
    show ?thesis
      by (rule call_host_wp [OF assms(1)])
        (use assms(2-8) that cg in \<open>auto simp: env_same_def state_wf_def intro!: Q\<close>)
  qed
  from oog host [of _ 0] host [of _ 2300] assms(7,8) show ?thesis
    by (auto simp: use_gas_def Let_def split: option.splits)
qed

text \<open>The number of stack items \<^verbatim>\<open>call<Kind, Static>\<close> takes.\<close>

definition call_arity :: "ivmc_call_kind \<Rightarrow> bool \<Rightarrow> int" where
  "call_arity kind static = (if static \<or> kind = IVMC_DELEGATECALL then 6 else 7)"

lemma call_args:
  assumes "ready (call_arity kind static) d s"
  obtains gas dst "value" i n oo on r st where "stack s = gas # dst # st" "st \<noteq> []"
    "(if static \<or> kind = IVMC_DELEGATECALL then Some (0, st) else stk_pop st) = Some (value, i # n # oo # on # r)"
    "int (length r) + call_arity kind static = int (length (stack s))"
proof -
  have "6 \<le> length (stack s)" using assms by (auto simp: ready_def call_arity_def split: if_splits)
  then obtain a b c e f g r where st: "stack s = a # b # c # e # f # g # r"
    by (auto simp: length_ge)
  show ?thesis
  proof (cases "static \<or> kind = IVMC_DELEGATECALL")
    case True
    with st show ?thesis by (intro that) (auto simp: call_arity_def)
  next
    case False
    with assms st obtain h r' where "r = h # r'" by (cases r) (auto simp: ready_def call_arity_def)
    with st False show ?thesis by (intro that) (auto simp: call_arity_def)
  qed
qed

lemma wp_case_sum [wp_rules]: "wp (case x of Inl a \<Rightarrow> f a | Inr b \<Rightarrow> g b) Q = (case x of Inl a \<Rightarrow> wp (f a) Q | Inr b \<Rightarrow> wp (g b) Q)"
  by (cases x) simp_all

lemma read_input_wp:
  assumes "to_size n = 0 \<or> off + to_size n \<le> length m" "\<And>xs. Q xs"
  shows "wp (if to_size n > 0 then mem_read m off (to_size n) else Some []) Q"
  using assms by (auto intro: mem_read_wp)

lemma may_fail_call:
  assumes "ready (call_arity kind static) d s" "host_ok H"
  shows "may_fail (1 - call_arity kind static) (call_instr L H kind static s) s"
proof -
  from call_args [OF assms(1)] obtain gas dst "value" i n oo on r st where
    st: "stack s = gas # dst # st" "st \<noteq> []" and
    v: "(if static \<or> kind = IVMC_DELEGATECALL then Some (0, st) else stk_pop st) = Some (value, i # n # oo # on # r)" and
    len: "int (length r) + call_arity kind static = int (length (stack s))" .
  have arity: "6 \<le> call_arity kind static" by (simp add: call_arity_def)
  with assms len have push: "length r < stack_limit" and rd: "length (return_data s) < 2 ^ 63"
    by (simp_all add: ready_def state_wf_def)
  show ?thesis
    unfolding may_fail_def call_instr_def
    apply (simp only: wp_bind wp_Some wp_case_prod wp_let stk_pop.simps prod.case st v)
    apply (simp only: stk_push.simps push if_True wp_Some wp_bind Let_def)
    apply (rule charge_cold_account_wp)
    subgoal by simp
    subgoal using assms st len arity push by (simp add: contract_simps)
    subgoal premises p for g h
      apply (simp only: wp_bind)
      apply (rule check_memory_wp)
      subgoal using assms push by (simp add: ready_def state_wf_def)
      subgoal using assms p by (simp add: ready_def)
      subgoal premises q for ok g2 m2
        apply (simp only: prod.case wp_if)
        apply (rule if_boolI)
        subgoal using p q assms st len arity push by (simp add: contract_simps)
        apply (simp only: wp_bind)
        apply (rule check_memory_wp)
        subgoal using q push rd by (simp add: grown_def state_wf_def)
        subgoal using q by simp
        subgoal premises t for ok3 g3 m3
          apply (simp only: prod.case wp_if)
          apply (rule if_boolI)
          subgoal using p q t assms st len arity push by (simp add: contract_simps)
          apply (simp only: wp_bind)
          apply (rule read_input_wp)
          subgoal using q t by (auto simp: grown_def)
          apply (simp only: Let_def wp_if)
          apply (rule if_boolI)
          subgoal using p q t assms st len arity push by (simp add: contract_simps)
          apply (rule may_fail_call_tail [OF assms(2), unfolded Let_def wp_if, where G = "gas_left s"])
          subgoal using t push rd by (simp add: grown_def state_wf_def)
          subgoal by simp
          subgoal using p q t by (simp add: grown_def)
          subgoal using t by simp
          subgoal by simp
          subgoal by simp
          subgoal by simp
          subgoal using t by simp
          subgoal using assms len st by (auto simp: contract_simps)
          done
        done
      done
    done
qed

text \<open>The number of stack items \<^verbatim>\<open>create<Kind>\<close> takes.\<close>

definition create_arity :: "ivmc_call_kind \<Rightarrow> int" where
  "create_arity kind = (if kind = IVMC_CREATE2 then 4 else 3)"

lemma gas_stack_swap: "s\<lparr>gas_left := g, stack := st\<rparr> = s\<lparr>stack := st, gas_left := g\<rparr>"
  by (cases s) simp

lemma create_host_wp:
  assumes "host_ok H" "0 \<le> gas_left s" "stack s \<noteq> []"
    "\<And>h rd x g. g \<le> gas_left s \<Longrightarrow> 0 \<le> g \<Longrightarrow> length rd < 2 ^ 63 \<Longrightarrow>
      Q (IVMC_SUCCESS, s\<lparr>host := h, return_data := rd, stack := x # tl (stack s), gas_left := g\<rparr>)"
  shows "wp (create_host L H kind endowment salt init_code s) Q"
proof -
  from assms(3) obtain x r where st: "stack s = x # r" by (cases "stack s") auto
  define g where "g = (if revision s \<ge> IVMC_TANGERINE_WHISTLE then gas_left s - gas_left s sdiv 64 else gas_left s)"
  have g: "0 \<le> g" "g \<le> gas_left s" using sdiv64 [OF assms(2)] assms(2) by (auto simp: g_def)
  define m where "m = zero_message\<lparr>msg_gas := g, msg_kind := kind, msg_input := init_code,
      msg_sender := msg_recipient (msg s), msg_depth := msg_depth (msg s) + 1,
      msg_create2_salt := be_store L salt, msg_value := be_store L endowment\<rparr>"
  obtain res h where res: "host_call H m (host s) = (res, h)" by (cases "host_call H m (host s)")
  have mg: "msg_gas m = g" by (simp add: m_def)
  note b = host_ok_call [OF assms(1) _ res, unfolded mg, OF g(1)] host_ok_output [OF assms(1) res]
  have same: "s\<lparr>host := h, return_data := rd, stack := x # r, gas_left := gg\<rparr>
      = s\<lparr>host := h, return_data := rd, gas_left := gg\<rparr>" for rd gg using st by (cases s) simp
  have fin: "Q (IVMC_SUCCESS, s\<lparr>host := h, return_data := rd, stack := y # r, gas_left := gas_left s - (g - res_gas_left res)\<rparr>)"
    if "rd = res_output res" for rd y
    using assms(4) [where g = "gas_left s - (g - res_gas_left res)" and h = h and rd = rd and x = y] b g st that by simp
  have "wp (let (result, h) = host_call H m (host s);
          s = use_gas (g - res_gas_left result) (s\<lparr>host := h, return_data := res_output result\<rparr>)
      in if res_status result = IVMC_SUCCESS
         then do {
           st \<leftarrow> stk_set_top (stack s) (be_load L (res_create_address result));
           Some (IVMC_SUCCESS, s\<lparr>stack := st\<rparr>)
         }
         else Some (IVMC_SUCCESS, s)) Q"
    using fin [OF refl] fin [where y = x, OF refl, unfolded same] st by (simp add: res wp_rules use_gas_def stk_set_def gas_stack_swap)
  then show ?thesis unfolding create_host_def g_def m_def by (simp only: Let_def)
qed

lemma create_salt:
  assumes "ready (create_arity kind) d s" "stack s = e # i # n # r"
  obtains x r' where "(if kind = IVMC_CREATE2 then stk_pop r else Some (0, r)) = Some (x, r')"
    "int (length r') + create_arity kind = int (length (stack s))"
  using assms that by (cases r) (auto simp: ready_def create_arity_def split: if_splits)

lemma create_tail_wp:
  assumes H: "host_ok H" and wf: "state_wf s" "0 \<le> gas_left s"
    and salt: "(if kind = IVMC_CREATE2 then stk_pop (stack s) else Some (0, stack s)) = Some (x, r')"
    and push: "length r' < stack_limit"
    and mem: "to_size n = 0 \<or> to_size i + to_size n \<le> length (memory s)"
    and Q: "\<And>c s'. env_same s s' \<Longrightarrow> state_wf s' \<Longrightarrow> gas_left s' \<le> gas_left s \<Longrightarrow> status s' = status s \<Longrightarrow>
      output_offset s' = output_offset s \<Longrightarrow> output_size s' = output_size s \<Longrightarrow> c \<noteq> IVMC_REVERT \<Longrightarrow>
      (c = IVMC_SUCCESS \<longrightarrow> 0 \<le> gas_left s' \<and> length (stack s') = Suc (length r')) \<Longrightarrow> Q (c, s')"
  shows "wp (do {
          (salt, st) \<leftarrow> (if kind = IVMC_CREATE2 then stk_pop (stack s) else Some (0, stack s));
          let s = (if kind = IVMC_CREATE2
                   then use_gas (num_words (to_u64 n) * 6) (s\<lparr>stack := st\<rparr>)
                   else s\<lparr>stack := st\<rparr>)
          in if kind = IVMC_CREATE2 \<and> gas_left s < 0 then Some (IVMC_OUT_OF_GAS, s)
             else do {
               st \<leftarrow> stk_push (stack s) 0;
               let s = s\<lparr>stack := st, return_data := []\<rparr> in
               if msg_depth (msg s) \<ge> 1024 then Some (IVMC_SUCCESS, s)
               else if endowment \<noteq> 0 \<and>
                       be_load L (get_balance H (msg_recipient (msg s)) (host s)) < endowment
               then Some (IVMC_SUCCESS, s)
               else do {
                 init_code \<leftarrow> (if to_size n > 0 then mem_read (memory s) (to_size i) (to_size n) else Some []);
                 create_host L H kind endowment salt init_code s
               }
             }
        }) Q"
proof -
  have r': "length r' \<le> length (stack s)" using salt by (cases "kind = IVMC_CREATE2"; cases "stack s") auto
  obtain g where g: "(if kind = IVMC_CREATE2 then use_gas (num_words (to_u64 n) * 6) (s\<lparr>stack := r'\<rparr>)
      else s\<lparr>stack := r'\<rparr>) = s\<lparr>stack := r', gas_left := g\<rparr>" "g \<le> gas_left s" "kind \<noteq> IVMC_CREATE2 \<longrightarrow> 0 \<le> g"
  proof (cases "kind = IVMC_CREATE2")
    case True
    show ?thesis by (rule that [of "gas_left s - num_words (to_u64 n) * 6"]) (use True in \<open>simp_all add: use_gas_def\<close>)
  next
    case False
    show ?thesis by (rule that [of "gas_left s"]) (use False wf in simp_all)
  qed
  have nop: "Q (IVMC_SUCCESS, s\<lparr>stack := 0 # r', gas_left := g, return_data := []\<rparr>)" if "0 \<le> g"
    by (rule Q) (use that wf push g(2) in \<open>simp_all add: contract_simps\<close>)
  have oog: "Q (IVMC_OUT_OF_GAS, s\<lparr>stack := r', gas_left := g\<rparr>)"
    by (rule Q) (use wf push r' g(2) in \<open>simp_all add: contract_simps\<close>)
  have host: "wp (create_host L H kind endowment x init (s\<lparr>stack := 0 # r', gas_left := g, return_data := []\<rparr>)) Q"
    if "0 \<le> g" for init
    by (rule create_host_wp [OF H]) (use that wf push g(2) in \<open>auto simp: contract_simps intro!: Q\<close>)
  show ?thesis
    unfolding salt bind.bind_lunit Let_def
    apply (simp only: prod.case g(1))
    apply (rule wp_if [THEN iffD2], rule if_boolI)
    subgoal by (rule wp_Some [THEN iffD2], rule oog)
    subgoal premises p
      using p g(3) push nop host mem
      by (auto simp: wp_rules gas_stack_swap [symmetric] intro!: mem_read_wp)
    done
qed

lemma may_fail_create:
  assumes "ready (create_arity kind) d s" "host_ok H"
  shows "may_fail (1 - create_arity kind) (create_instr L H kind s) s"
proof -
  have "ready 3 d s" using assms(1) by (simp add: ready_def create_arity_def split: if_splits)
  from ready3 [OF this] obtain e i n r where st: "stack s = e # i # n # r" by blast
  from create_salt [OF assms(1) st] obtain x r' where
    salt: "(if kind = IVMC_CREATE2 then stk_pop r else Some (0, r)) = Some (x, r')" and
    len: "int (length r') + create_arity kind = int (length (stack s))" .
  have arity: "3 \<le> create_arity kind" by (simp add: create_arity_def)
  with assms len have push: "length r' < stack_limit" by (simp add: ready_def state_wf_def)
  have static: "is_static (msg s) \<Longrightarrow> ?thesis"
    using assms by (simp add: create_instr_def contract_simps)
  have "may_fail (1 - create_arity kind) (create_instr L H kind s) s" if ns: "\<not> is_static (msg s)"
    unfolding may_fail_def create_instr_def if_not_P [OF ns]
    apply (simp only: wp_bind wp_case_prod stk_pop.simps wp_Some prod.case st)
    apply (rule check_memory_wp)
    subgoal using assms st by (simp add: ready_def state_wf_def)
    subgoal using assms by (simp add: ready_def)
    subgoal premises p for ok g m
      apply (simp only: prod.case)
      apply (rule wp_if [THEN iffD2], rule if_boolI)
      subgoal using p assms st by (simp add: contract_simps)
      apply (rule create_tail_wp [OF assms(2) _ _ _ push, where x = x])
      subgoal using p assms st by (simp add: contract_simps)
      subgoal using p by simp
      subgoal using salt by (simp split: if_splits)
      subgoal using p by auto
      subgoal using p assms st len by (auto simp: contract_simps)
      done
    done
  with static show ?thesis by blast
qed

section \<open>The contract of every function of the dispatch table\<close>

text \<open>The items a function takes from the stack and its net effect on the height.\<close>

fun needs :: "instr_name \<Rightarrow> int \<times> int" where
  "needs fn_stop = (0, 0)"
| "needs fn_addmod = (3, - 2)"
| "needs fn_mulmod = (3, - 2)"
| "needs fn_iszero = (1, 0)"
| "needs fn_not = (1, 0)"
| "needs fn_address = (0, 1)"
| "needs fn_balance = (1, 0)"
| "needs fn_origin = (0, 1)"
| "needs fn_caller = (0, 1)"
| "needs fn_callvalue = (0, 1)"
| "needs fn_calldataload = (1, 0)"
| "needs fn_calldatasize = (0, 1)"
| "needs fn_calldatacopy = (3, - 3)"
| "needs fn_codesize = (0, 1)"
| "needs fn_codecopy = (3, - 3)"
| "needs fn_gasprice = (0, 1)"
| "needs fn_extcodesize = (1, 0)"
| "needs fn_extcodecopy = (4, - 4)"
| "needs fn_returndatasize = (0, 1)"
| "needs fn_returndatacopy = (3, - 3)"
| "needs fn_extcodehash = (1, 0)"
| "needs fn_blockhash = (1, 0)"
| "needs fn_coinbase = (0, 1)"
| "needs fn_timestamp = (0, 1)"
| "needs fn_number = (0, 1)"
| "needs fn_difficulty = (0, 1)"
| "needs fn_gaslimit = (0, 1)"
| "needs fn_chainid = (0, 1)"
| "needs fn_selfbalance = (0, 1)"
| "needs fn_basefee = (0, 1)"
| "needs fn_pop = (1, - 1)"
| "needs fn_mload = (1, 0)"
| "needs fn_mstore = (2, - 2)"
| "needs fn_mstore8 = (2, - 2)"
| "needs fn_sload = (1, 0)"
| "needs fn_sstore = (2, - 2)"
| "needs fn_msize = (0, 1)"
| "needs fn_gas = (0, 1)"
| "needs fn_jumpdest = (0, 0)"
| "needs (fn_dup n) = (int n, 1)"
| "needs (fn_swap n) = (int n + 1, 0)"
| "needs (fn_log n) = (int n + 2, - int n - 2)"
| "needs (fn_create kind) = (create_arity kind, 1 - create_arity kind)"
| "needs (fn_call kind static) = (call_arity kind static, 1 - call_arity kind static)"
| "needs (fn_return st) = (2, - 2)"
| "needs fn_invalid = (0, 0)"
| "needs fn_selfdestruct = (1, - 1)"
| "needs n = (2, - 1)"

fun fn_valid :: "instr_name \<Rightarrow> bool" where
  "fn_valid (fn_dup n) = (1 \<le> n)"
| "fn_valid (fn_swap n) = (1 \<le> n)"
| "fn_valid (fn_return st) = ok_status st"
| "fn_valid n = True"

fun contract :: "int \<Rightarrow> ('a, 'h, 'z) state instr_fn \<Rightarrow> ('a, 'h, 'z) state \<Rightarrow> bool" where
  "contract d (Succeeding f) s = succeeds d (f s) s"
| "contract d (MayFail f) s = may_fail d (f s) s"
| "contract d (Terminating f) s = terminates (f s) s"
| "contract d (CodePosition f) s = True"

lemma impl_contract:
  assumes "fn_valid n" "ready (fst (needs n)) (snd (needs n)) s" "host_ok H" "store32 L"
  shows "contract (snd (needs n)) (impl L H n) s"
  using assms
  by (cases n)
    (simp_all add: succeeds_binary succeeds_ternary succeeds_unary succeeds_push succeeds_dup
      succeeds_swap succeeds_jumpdest may_fail_exp may_fail_mload may_fail_mstore may_fail_mstore8
      may_fail_keccak256 may_fail_copies may_fail_returndatacopy may_fail_account may_fail_extcodecopy
      may_fail_sload may_fail_sstore may_fail_log may_fail_call may_fail_create
      terminates_simple terminates_return terminates_selfdestruct)

fun baseline_needs :: "baseline_name \<Rightarrow> int \<times> int" where
  "baseline_needs (Generic n) = needs n"
| "baseline_needs fn_jump = (1, - 1)"
| "baseline_needs fn_jumpi = (2, - 2)"
| "baseline_needs fn_pc = (0, 1)"
| "baseline_needs (fn_push n) = (0, 1)"

text \<open>
  The opcode tables are built by the same sequence of updates, so a relation between their
  entries is checked once per update.
\<close>

definition tables_agree :: "('a \<Rightarrow> 'b \<Rightarrow> bool) \<Rightarrow> (nat \<Rightarrow> 'a) \<Rightarrow> (nat \<Rightarrow> 'b) \<Rightarrow> bool" where
  "tables_agree R t u \<longleftrightarrow> (\<forall>op. R (t op) (u op))"

lemma tables_agree_base: "R x y \<Longrightarrow> tables_agree R (\<lambda>op. x) (\<lambda>op. y)"
  by (simp add: tables_agree_def)

lemma tables_agree_upd: "tables_agree R t u \<Longrightarrow> R x y \<Longrightarrow> tables_agree R (t(op := x)) (u(op := y))"
  by (simp add: tables_agree_def)

lemma tables_agree_range:
  "tables_agree R t u \<Longrightarrow> (\<And>op. lo \<le> op \<Longrightarrow> op \<le> hi \<Longrightarrow> R (f op) (g op)) \<Longrightarrow>
   tables_agree R (set_range lo hi f t) (set_range lo hi g u)"
  by (simp add: tables_agree_def set_range_def)

definition entry_agrees :: "Traits \<Rightarrow> baseline_name option \<Rightarrow> bool" where
  "entry_agrees tr f \<longleftrightarrow> (case f of
     None \<Rightarrow> since tr = None
   | Some b \<Rightarrow> since tr \<noteq> None \<and> (stack_height_required tr, stack_height_change tr) = baseline_needs b)"

lemma op2fn_agrees: "tables_agree entry_agrees traits op2fn"
proof -
  have swap: "f(OP_REVERT := x, OP_INVALID := y) = f(OP_INVALID := y, OP_REVERT := x)" for f :: "nat \<Rightarrow> Traits" and x y
    by (rule fun_upd_twist) simp
  show ?thesis
    unfolding traits_def op2fn_def swap
    by (intro tables_agree_upd tables_agree_range tables_agree_base)
      (simp_all add: entry_agrees_def no_traits_def mk_traits_def create_arity_def call_arity_def)
qed

lemma op2fn_traits_cases: "entry_agrees (traits op) (op2fn op)"
  using op2fn_agrees by (simp add: tables_agree_def)

lemma op2fn_traits:
  "op2fn op = Some b \<Longrightarrow>
   stack_height_required (traits op) = fst (baseline_needs b) \<and>
   stack_height_change (traits op) = snd (baseline_needs b)"
  using op2fn_traits_cases [of op] by (auto simp: entry_agrees_def) (metis fst_conv snd_conv)+

lemma op2fn_valid: "op2fn op = Some (Generic n) \<Longrightarrow> fn_valid n"
  by (auto simp: op2fn_def set_range_def ok_status_def split: if_splits)

lemma op2fn_defined: "op2fn op \<noteq> None \<longleftrightarrow> since (traits op) \<noteq> None"
  using op2fn_traits_cases [of op] by (cases "op2fn op") (simp_all add: entry_agrees_def)

lemma op2fn_push: "op2fn op = Some (fn_push n) \<longleftrightarrow> is_push op \<and> n = push_len op"
  by (auto simp: op2fn_def set_range_def is_push_def push_len_def)

lemma op2fn_stop: "op2fn op = Some (Generic fn_stop) \<longleftrightarrow> op = OP_STOP"
  by (auto simp: op2fn_def set_range_def)

end
