(* ===== verification/Baseline.thy ===== *)
theory Baseline
  imports Instruction_Contracts
begin

text \<open>
  The Baseline interpreter of \<^verbatim>\<open>baseline.cpp\<close>: the instruction table, the check of the
  requirements of an instruction, the dispatch of the four signatures, the interpreter loop and
  the two entry points. The loop is the combinator \<open>loop\<close> of the prelude over \<open>baseline_step\<close>,
  one iteration. The loop ends when an instruction returns the null position.

  The interpretation \<open>base\<close> of \<open>terminating_loop\<close> shows that a step never has undefined behaviour
  (no access outside the padded code, the stack or the memory, no unreachable default case),
  that the loop ends, and what holds of the final state.
\<close>

section \<open>The instruction table\<close>

record InstructionTableEntry =
  gas_cost :: int
  entry_stack_height_required :: int
  can_overflow_stack :: bool

definition get_baseline_instruction_table :: "ivmc_revision \<Rightarrow> nat \<Rightarrow> InstructionTableEntry" where
  "get_baseline_instruction_table r op =
     \<lparr>gas_cost = gas_costs r op,
      entry_stack_height_required = stack_height_required (traits op),
      can_overflow_stack = stack_height_change (traits op) > 0\<rparr>"

definition check_requirements ::
  "(nat \<Rightarrow> InstructionTableEntry) \<Rightarrow> ('a, 'h, 'z) state \<Rightarrow> nat \<Rightarrow> ivmc_status_code \<times> ('a, 'h, 'z) state" where
  "check_requirements instruction_table s op =
     (let metrics = instruction_table op in
      if gas_cost metrics = undefined_cost then (IVMC_UNDEFINED_INSTRUCTION, s)
      else
        let s = s\<lparr>gas_left := gas_left s - gas_cost metrics\<rparr> in
        if gas_left s < 0 then (IVMC_OUT_OF_GAS, s)
        else
          let stack_size = int (length (stack s)) in
          if stack_size = int stack_limit then
            (if can_overflow_stack metrics then (IVMC_STACK_OVERFLOW, s) else (IVMC_SUCCESS, s))
          else if stack_size < entry_stack_height_required metrics then (IVMC_STACK_UNDERFLOW, s)
          else (IVMC_SUCCESS, s))"

section \<open>Dispatch\<close>

text \<open>The four specialisations of \<^verbatim>\<open>invoke\<close>.\<close>

fun invoke ::
  "('a, 'h, 'z) state instr_fn \<Rightarrow> ('a, 'h, 'z) state \<Rightarrow> nat \<Rightarrow> (('a, 'h, 'z) state \<times> nat option) option" where
  "invoke (Succeeding f) s pos = do { s \<leftarrow> f s; Some (s, Some (pos + 1)) }"
| "invoke (MayFail f) s pos = do {
     (st, s) \<leftarrow> f s;
     Some (if st \<noteq> IVMC_SUCCESS then (s\<lparr>status := st\<rparr>, None) else (s, Some (pos + 1))) }"
| "invoke (Terminating f) s pos = do { (st, s) \<leftarrow> f s; Some (s\<lparr>status := st\<rparr>, None) }"
| "invoke (CodePosition f) s pos = do { (q, s) \<leftarrow> f s pos; Some (s, q) }"

text \<open>
  One iteration of the loop: the opcode at the code position, its requirements, the \<^verbatim>\<open>switch\<close>. An
  opcode without a case is \<^verbatim>\<open>INTX_UNREACHABLE()\<close>.
\<close>

definition baseline_step ::
  "lib \<Rightarrow> 'h host_interface \<Rightarrow> (CodeAnalysis, 'h, 'z) state \<Rightarrow> nat \<Rightarrow>
   ((CodeAnalysis, 'h, 'z) state \<times> nat option) option" where
  "baseline_step L H s code_it = do {
     a \<leftarrow> analysis s;
     if length (padded_code a) \<le> code_it then None
     else
       let op = unat (padded_code a ! code_it);
           (st, s) = check_requirements (get_baseline_instruction_table (revision s)) s op
       in if st \<noteq> IVMC_SUCCESS then Some (s\<lparr>status := st\<rparr>, None)
          else do {
            b \<leftarrow> op2fn op;
            invoke (baseline_impl L H b) s code_it
          } }"

section \<open>Execution\<close>

text \<open>
  The end of \<^verbatim>\<open>execute\<close>, the same in both interpreters: an exceptional halt has no gas left, the
  output is copied from the memory.
\<close>

definition state_result :: "('a, 'h, 'z) state \<Rightarrow> ivmc_result option" where
  "state_result s = do {
     out \<leftarrow> (if output_size s \<noteq> 0 then mem_read (memory s) (output_offset s) (output_size s) else Some []);
     Some \<lparr>res_status = status s,
           res_gas_left = (if status s = IVMC_SUCCESS \<or> status s = IVMC_REVERT then gas_left s else 0),
           res_output = out,
           res_create_address = replicate 20 0\<rparr> }"

fun finish :: "('a, 'h, 'z) state outcome \<Rightarrow> (ivmc_result \<times> ('a, 'h, 'z) state) outcome" where
  "finish Undefined = Undefined"
| "finish Running = Running"
| "finish (Exited s) = (case state_result s of None \<Rightarrow> Undefined | Some r \<Rightarrow> Exited (r, s))"

text \<open>
  \<^verbatim>\<open>execute(vm, state, analysis)\<close> with at most \<open>n\<close> iterations. The code view is the first
  \<^verbatim>\<open>state.code.size()\<close> bytes of the padded code.
\<close>

definition baseline_start :: "(CodeAnalysis, 'h, 'z) state \<Rightarrow> CodeAnalysis \<Rightarrow> (CodeAnalysis, 'h, 'z) state" where
  "baseline_start s a = s\<lparr>analysis := Some a, code := take (length (code s)) (padded_code a)\<rparr>"

definition baseline_execute ::
  "lib \<Rightarrow> 'h host_interface \<Rightarrow> nat \<Rightarrow> (CodeAnalysis, 'h, 'z) state \<Rightarrow> CodeAnalysis \<Rightarrow>
   (ivmc_result \<times> (CodeAnalysis, 'h, 'z) state) outcome" where
  "baseline_execute L H n s a = finish (loop (baseline_step L H) n (baseline_start s a) 0)"

text \<open>
  The IVMC entry point: analysis, a fresh state, execution. \<open>garbage\<close> is the content of the
  uninitialised part of the padded code.
\<close>

definition baseline_execute_ivmc ::
  "lib \<Rightarrow> 'h host_interface \<Rightarrow> (nat \<Rightarrow> byte) \<Rightarrow> nat \<Rightarrow> 'h \<Rightarrow> ivmc_revision \<Rightarrow> ivmc_message \<Rightarrow> bytes \<Rightarrow>
   (ivmc_result \<times> (CodeAnalysis, 'h) ExecutionState) outcome" where
  "baseline_execute_ivmc L H garbage n ctx r m c =
     baseline_execute L H n (new_state m r ctx c) (analyze_baseline garbage c)"

section \<open>The invariant of the loop\<close>

definition base_inv ::
  "lib \<Rightarrow> 'h host_interface \<Rightarrow> (nat \<Rightarrow> byte) \<Rightarrow> bytes \<Rightarrow> (CodeAnalysis, 'h, 'z) state \<Rightarrow> nat \<Rightarrow> bool" where
  "base_inv L H g c s p \<longleftrightarrow>
     host_ok H \<and> store32 L \<and> length c < 2 ^ 64 \<and> state_wf s \<and> 0 \<le> gas_left s \<and>
     analysis s = Some (analyze_baseline g c) \<and> code s = c \<and> instr_start c p \<and>
     output_size s = 0 \<and> status s = IVMC_SUCCESS"

text \<open>The measure: gas first, the distance to the end of the code second.\<close>

definition base_mu :: "bytes \<Rightarrow> ('a, 'h, 'z) state \<Rightarrow> nat \<Rightarrow> nat" where
  "base_mu c s p = nat (gas_left s) * (code_end c + 2) + (code_end c + 1 - p)"

text \<open>What holds of the final state \<open>s'\<close> of a run from \<open>s\<close>.\<close>

definition run_final :: "('a, 'h, 'z) state \<Rightarrow> ('a, 'h, 'z) state \<Rightarrow> bool" where
  "run_final s s' \<longleftrightarrow>
     env_same s s' \<and> state_wf s' \<and> gas_left s' \<le> gas_left s \<and>
     (output_size s' = 0 \<or> output_offset s' + output_size s' \<le> length (memory s')) \<and>
     (if ok_status (status s') then 0 \<le> gas_left s' else output_size s' = 0)"

lemma run_final_trans:
  "env_same s s' \<Longrightarrow> gas_left s' \<le> gas_left s \<Longrightarrow> run_final s' s'' \<Longrightarrow> run_final s s''"
  by (auto simp: run_final_def env_same_def split: if_splits)

text \<open>What one iteration establishes, as a predicate of its result.\<close>

definition base_post ::
  "lib \<Rightarrow> 'h host_interface \<Rightarrow> (nat \<Rightarrow> byte) \<Rightarrow> bytes \<Rightarrow> (CodeAnalysis, 'h, 'z) state \<Rightarrow> nat \<Rightarrow>
   (CodeAnalysis, 'h, 'z) state \<times> nat option \<Rightarrow> bool" where
  "base_post L H g c s p = (\<lambda>(s', q). case q of
     None \<Rightarrow> run_final s s'
   | Some q' \<Rightarrow> base_inv L H g c s' q' \<and> base_mu c s' q' < base_mu c s p \<and> env_same s s' \<and>
       gas_left s' \<le> gas_left s)"

section \<open>Requirements\<close>

lemma check_requirements_cases:
  assumes "check_requirements (get_baseline_instruction_table r) s op = (st, s')" "length (stack s) \<le> stack_limit"
  obtains (fail) k where "\<not> ok_status st" "s' = s\<lparr>gas_left := gas_left s - k\<rparr>" "0 \<le> k"
  | (ok) "st = IVMC_SUCCESS" "gas_costs r op \<noteq> undefined_cost" "0 \<le> gas_costs r op"
      "s' = s\<lparr>gas_left := gas_left s - gas_costs r op\<rparr>" "gas_costs r op \<le> gas_left s"
      "stack_height_required (traits op) \<le> int (length (stack s))"
      "0 < stack_height_change (traits op) \<longrightarrow> length (stack s) < stack_limit"
proof -
  have range: "gas_costs r op \<noteq> undefined_cost \<Longrightarrow> 0 \<le> gas_costs r op" using gas_costs_range [of r op] by auto
  have req: "stack_height_required (traits op) \<le> 17" using traits_stack_range [of op] by simp
  have upd: "s = s\<lparr>gas_left := gas_left s - 0\<rparr>" by simp
  consider (undef) "gas_costs r op = undefined_cost"
    | (oog) "gas_costs r op \<noteq> undefined_cost" "gas_left s - gas_costs r op < 0"
    | (over) "gas_costs r op \<noteq> undefined_cost" "0 \<le> gas_left s - gas_costs r op"
        "length (stack s) = stack_limit" "0 < stack_height_change (traits op)"
    | (under) "gas_costs r op \<noteq> undefined_cost" "0 \<le> gas_left s - gas_costs r op"
        "length (stack s) \<noteq> stack_limit" "int (length (stack s)) < stack_height_required (traits op)"
    | (success) "gas_costs r op \<noteq> undefined_cost" "0 \<le> gas_left s - gas_costs r op"
        "length (stack s) = stack_limit \<and> stack_height_change (traits op) \<le> 0 \<or>
         length (stack s) \<noteq> stack_limit \<and> stack_height_required (traits op) \<le> int (length (stack s))"
    by linarith
  then show ?thesis
  proof cases
    case undef
    with assms show ?thesis
      by (intro fail [of 0]) (simp_all add: check_requirements_def get_baseline_instruction_table_def ok_status_def)
  next
    case oog
    with assms range show ?thesis
      by (intro fail [of "gas_costs r op"])
        (simp_all add: check_requirements_def get_baseline_instruction_table_def ok_status_def Let_def)
  next
    case over
    with assms range show ?thesis
      by (intro fail [of "gas_costs r op"])
        (simp_all add: check_requirements_def get_baseline_instruction_table_def ok_status_def Let_def)
  next
    case under
    with assms range show ?thesis
      by (intro fail [of "gas_costs r op"])
        (simp_all add: check_requirements_def get_baseline_instruction_table_def ok_status_def Let_def)
  next
    case success
    with assms range req show ?thesis
      by (intro ok) (auto simp: check_requirements_def get_baseline_instruction_table_def stack_limit_def Let_def)
  qed
qed

section \<open>One iteration\<close>

text \<open>What an instruction that passes on to position \<open>q\<close> leaves.\<close>

definition passes :: "('a, 'h, 'z) state \<Rightarrow> ('a, 'h, 'z) state \<Rightarrow> bool" where
  "passes s s' \<longleftrightarrow> env_same s s' \<and> state_wf s' \<and> 0 \<le> gas_left s' \<and> gas_left s' \<le> gas_left s \<and>
     status s' = status s \<and> output_size s' = output_size s"

lemma succeeds_passes:
  assumes "succeeds d r s" "ready m d s" "d \<le> 1"
  shows "wp r (passes s)"
proof -
  from assms(1) obtain s' where r: "r = Some s'" and s': "s' = s\<lparr>stack := stack s'\<rparr>"
    and len: "int (length (stack s')) = int (length (stack s)) + d"
    by (auto simp: succeeds_def wp_iff)
  define st where "st = stack s'"
  have "length st \<le> stack_limit"
    using len assms(2,3) by (cases "0 < d") (auto simp: ready_def state_wf_def st_def)
  with s' assms(2) show ?thesis
    unfolding r st_def [symmetric] by (metis (no_types, lifting) wp_Some passes_def env_same_def ready_def state_wf_def
        ExecutionState.ext_inject ExecutionState.surjective ExecutionState.update_convs(2) order_refl)
qed

lemma invoke_contract:
  assumes c: "contract d f s" and rd: "ready m d s" "d \<le> 1" and f: "\<And>f'. f \<noteq> CodePosition f'"
    and st: "status s = IVMC_SUCCESS"
  shows "wp (invoke f s p) (\<lambda>(s', q). case q of None \<Rightarrow> run_final s s' | Some q' \<Rightarrow> q' = p + 1 \<and> passes s s')"
proof (cases f)
  case (Succeeding h)
  with c succeeds_passes [OF _ rd] show ?thesis by (auto simp: wp_rules elim: wp_mono)
next
  case (MayFail h)
  from c MayFail rd(1) st show ?thesis
    by (auto simp: wp_rules may_fail_def passes_def run_final_def ready_def env_same_def ok_status_def state_wf_def elim!: wp_mono)
next
  case (Terminating h)
  from c Terminating show ?thesis
    by (auto simp: wp_rules terminates_def run_final_def env_same_def state_wf_def elim!: wp_mono)
next
  case (CodePosition h)
  with f show ?thesis by blast
qed

lemma jump_impl_wp:
  assumes an: "analysis s = Some (analyze_baseline g c)" and len: "length c < 2 ^ 64"
    and no: "Q (None, s\<lparr>status := IVMC_BAD_JUMP_DESTINATION\<rparr>)"
    and yes: "\<And>q. valid_jumpdest c q \<Longrightarrow> Q (Some q, s)"
  shows "wp (jump_impl s dst) Q"
proof -
  have small: "unat dst < length c \<Longrightarrow> to_size dst = unat dst"
    using len by (simp add: to_size_def to_u64_def unsigned_ucast_eq take_bit_nat_eq_self_iff)
  show ?thesis
    using no yes small by (auto simp: jump_impl_def an analyze_baseline_unfold wp_rules)
qed

lemma jumps_wp:
  assumes s: "analysis s = Some (analyze_baseline g c)" "length c < 2 ^ 64"
    and wf: "state_wf s" "0 \<le> gas_left s" "output_size s = 0"
  shows "stack s \<noteq> [] \<Longrightarrow> wp (jump_instr s p) (\<lambda>(q, s'). case q of
      None \<Rightarrow> run_final s s' | Some q' \<Rightarrow> valid_jumpdest c q' \<and> passes s s')"
    and "2 \<le> length (stack s) \<Longrightarrow> wp (jumpi_instr s p) (\<lambda>(q, s'). case q of
      None \<Rightarrow> run_final s s' | Some q' \<Rightarrow> (q' = p + 1 \<or> valid_jumpdest c q') \<and> passes s s')"
proof -
  have bad: "length st \<le> length (stack s) \<Longrightarrow>
      run_final s (s\<lparr>stack := st, status := IVMC_BAD_JUMP_DESTINATION\<rparr>)" for st
    using wf by (simp add: run_final_def env_same_def state_wf_def ok_status_def)
  have ok: "length st \<le> length (stack s) \<Longrightarrow> passes s (s\<lparr>stack := st\<rparr>)" for st
    using wf by (simp add: passes_def env_same_def state_wf_def)
  show "wp (jump_instr s p) (\<lambda>(q, s'). case q of
      None \<Rightarrow> run_final s s' | Some q' \<Rightarrow> valid_jumpdest c q' \<and> passes s s')" if "stack s \<noteq> []"
  proof -
    from that obtain a r where st: "stack s = a # r" by (cases "stack s") auto
    show ?thesis
      unfolding jump_instr_def st
      by (simp add: wp_rules, rule jump_impl_wp [where g = g and c = c])
        (use s st bad [of r] ok [of r] in simp_all)
  qed
  show "wp (jumpi_instr s p) (\<lambda>(q, s'). case q of
      None \<Rightarrow> run_final s s' | Some q' \<Rightarrow> (q' = p + 1 \<or> valid_jumpdest c q') \<and> passes s s')"
    if "2 \<le> length (stack s)"
  proof -
    from that obtain a b r where st: "stack s = a # b # r" by (auto simp: length_ge)
    show ?thesis
      unfolding jumpi_instr_def st
      apply (simp only: wp_rules stk_pop.simps prod.case)
      apply (rule if_boolI)
      subgoal by (rule jump_impl_wp [where g = g and c = c]) (use s st bad [of r] ok [of r] in simp_all)
      subgoal using ok [of r] st by simp
      done
  qed
qed

lemma push_value_wp:
  assumes "ready m 1 s"
  shows "wp (push_instr_value v s) (passes s)"
  using succeeds_passes [OF succeeds_push_value, of s 0 v] assms by (simp add: ready_def)

lemma pc_wp:
  assumes "ready 0 1 s"
  shows "wp (pc_instr s p) (\<lambda>(q, s'). q = Some (p + 1) \<and> passes s s')"
  by (simp add: pc_instr_def wp_rules wp_mono [OF push_value_wp [OF assms]])

lemma push_wp:
  assumes "ready 0 1 s" "analysis s = Some (analyze_baseline g c)" "p + 1 + n \<le> code_end c"
  shows "wp (push_instr L n s p) (\<lambda>(q, s'). q = Some (p + 1 + n) \<and> passes s s')"
  using assms(2,3)
  by (simp add: push_instr_def wp_rules length_padded Let_def wp_mono [OF push_value_wp [OF assms(1)]])

text \<open>The opcode at a position of the loop, and the position after it.\<close>

lemma base_opcode:
  assumes "instr_start c p"
  shows "p < length (padded_code (analyze_baseline g c))"
    and "length c \<le> p \<Longrightarrow> padded_code (analyze_baseline g c) ! p = 0"
    and "p < length c \<Longrightarrow> padded_code (analyze_baseline g c) ! p = c ! p"
    and "p < length c \<Longrightarrow> instr_start c (next_pos c p) \<and> next_pos c p \<le> code_end c"
  using assms instr_start_le_end [OF assms] next_pos_le_end [OF assms] instr_start_end [OF assms]
    padded_code_stop [of g c]
  by (auto simp: length_padded padded_code_prefix intro: instr_start.step)

lemma next_pos_plain: "\<not> is_push (unat (c ! p)) \<Longrightarrow> next_pos c p = p + 1"
  by (simp add: next_pos_def push_len_def)

lemma next_pos_push: "is_push (unat (c ! p)) \<Longrightarrow> next_pos c p = p + 1 + push_len (unat (c ! p))"
  by (simp add: next_pos_def)

lemma base_mu_forward:
  assumes "gas_left s' \<le> gas_left s" "0 \<le> gas_left s'" "p < q" "q \<le> code_end c"
  shows "base_mu c s' q < base_mu c s p"
proof -
  have "nat (gas_left s') * (code_end c + 2) \<le> nat (gas_left s) * (code_end c + 2)"
    using assms by (intro mult_right_mono) auto
  moreover have "code_end c + 1 - q < code_end c + 1 - p" using assms by simp
  ultimately show ?thesis unfolding base_mu_def by (rule add_le_less_mono)
qed

lemma base_mu_gas:
  assumes "gas_left s' < gas_left s" "0 \<le> gas_left s'"
  shows "base_mu c s' q < base_mu c s p"
proof -
  have "(nat (gas_left s') + 1) * (code_end c + 2) \<le> nat (gas_left s) * (code_end c + 2)"
    using assms by (intro mult_right_mono) auto
  then have "nat (gas_left s') * (code_end c + 2) + (code_end c + 2) \<le> nat (gas_left s) * (code_end c + 2)"
    by (simp only: distrib_right mult_1)
  then show ?thesis unfolding base_mu_def by linarith
qed

lemma jump_cost_pos: "op = OP_JUMP \<or> op = OP_JUMPI \<Longrightarrow> 0 < gas_costs r op"
  by (auto simp: gas_costs_control)

lemma op2fn_jumps: "op2fn op = Some fn_jump \<longleftrightarrow> op = OP_JUMP" "op2fn op = Some fn_jumpi \<longleftrightarrow> op = OP_JUMPI"
  by (auto simp: op2fn_def set_range_def)

lemma passes_inv:
  assumes "base_inv L H g c s p" "passes (s\<lparr>gas_left := k\<rparr>) s'" "k \<le> gas_left s" "instr_start c q"
  shows "base_inv L H g c s' q" "env_same s s'" "gas_left s' \<le> gas_left s"
  using assms by (auto simp: base_inv_def passes_def env_same_def)

lemma final_charged:
  assumes "run_final (s\<lparr>gas_left := k\<rparr>) s'" "k \<le> gas_left s"
  shows "run_final s s'"
  using assms by (intro run_final_trans [of s "s\<lparr>gas_left := k\<rparr>"]) (simp_all add: env_same_def)

text \<open>
  The contract of every instruction in the loop: it is defined, and execution ends or goes on at the
  next instruction or, for jumps, at a valid destination.
\<close>

lemma dispatch_contract:
  assumes an: "analysis s = Some (analyze_baseline g c)" "length c < 2 ^ 64" and HL: "host_ok H" "store32 L"
    and st: "status s = IVMC_SUCCESS" and start: "instr_start c p" and p: "p < length c"
    and op: "op = unat (c ! p)" and b: "op2fn op = Some b"
    and rd: "ready (stack_height_required (traits op)) (stack_height_change (traits op)) s"
  shows "wp (invoke (baseline_impl L H b) s p) (\<lambda>(s', q). case q of None \<Rightarrow> run_final s s'
    | Some q' \<Rightarrow> passes s s' \<and> (q' = next_pos c p \<or> op \<in> {OP_JUMP, OP_JUMPI} \<and> valid_jumpdest c q'))"
proof -
  have wf: "state_wf s" "0 \<le> gas_left s" "output_size s = 0" using rd by (simp_all add: ready_def)
  note tr = op2fn_traits [OF b]
  show ?thesis
  proof (cases b)
    case (Generic n)
    have np: "\<not> is_push op" using b Generic op2fn_push [of op] by (cases "is_push op") auto
    have "contract (snd (needs n)) (impl L H n) s"
      using impl_contract [OF op2fn_valid, of op n s H L] b Generic rd tr HL by simp
    moreover have "impl L H n \<noteq> CodePosition f'" for f' by (cases n) simp_all
    moreover have "snd (needs n) \<le> 1" using tr Generic traits_stack_range [of op] by simp
    ultimately have "wp (invoke (impl L H n) s p)
        (\<lambda>(s', q). case q of None \<Rightarrow> run_final s s' | Some q' \<Rightarrow> q' = p + 1 \<and> passes s s')"
      using invoke_contract [where m = "stack_height_required (traits op)"] rd tr Generic st by fastforce
    then show ?thesis
      using Generic next_pos_plain [of c p] np op by (auto elim!: wp_mono split: option.splits)
  next
    case fn_jump
    have "stack s \<noteq> []" using rd tr fn_jump by (auto simp: ready_def)
    moreover have "op = OP_JUMP" using b fn_jump op2fn_jumps by blast
    ultimately show ?thesis
      using jumps_wp(1) [OF an wf, of p] fn_jump by (auto simp: wp_rules elim!: wp_mono split: option.splits)
  next
    case fn_jumpi
    have "2 \<le> length (stack s)" using rd tr fn_jumpi by (auto simp: ready_def)
    moreover have "op = OP_JUMPI" using b fn_jumpi op2fn_jumps by blast
    moreover from this have "next_pos c p = p + 1" using next_pos_plain [of c p] op by (auto simp: is_push_def)
    ultimately show ?thesis
      using jumps_wp(2) [OF an wf, of p] fn_jumpi by (auto simp: wp_rules elim!: wp_mono split: option.splits)
  next
    case fn_pc
    have np: "\<not> is_push op" using b fn_pc op2fn_push [of op] by (cases "is_push op") auto
    have "ready 0 1 s" using rd tr fn_pc by (simp add: ready_def)
    from pc_wp [OF this, of p] show ?thesis using fn_pc next_pos_plain [of c p] np op
      by (auto simp: wp_rules elim!: wp_mono)
  next
    case (fn_push n)
    then have n: "is_push op" "n = push_len op" using b op2fn_push by auto
    have "ready 0 1 s" using rd tr fn_push by (simp add: ready_def)
    from push_wp [OF this an(1), of p n L] show ?thesis
      using fn_push next_pos_push [of c p] n op base_opcode(4) [OF start p] by (auto simp: wp_rules elim!: wp_mono)
  qed
qed

text \<open>An instruction whose requirements are met, from the state after the charge.\<close>

lemma base_dispatch:
  assumes inv: "base_inv L H g c s p" and p: "p < length c" and op: "op = unat (c ! p)"
    and b: "op2fn op = Some b" and k: "k = gas_left s - gas_costs (revision s) op" "0 \<le> k" "0 \<le> gas_costs (revision s) op"
    and rd: "ready (stack_height_required (traits op)) (stack_height_change (traits op)) (s\<lparr>gas_left := k\<rparr>)"
  shows "wp (invoke (baseline_impl L H b) (s\<lparr>gas_left := k\<rparr>) p) (base_post L H g c s p)"
proof -
  let ?s = "s\<lparr>gas_left := k\<rparr>"
  have start: "instr_start c p" and inv': "analysis ?s = Some (analyze_baseline g c)" "length c < 2 ^ 64"
    "host_ok H" "store32 L" "status ?s = IVMC_SUCCESS"
    using inv by (auto simp: base_inv_def)
  note nxt = base_opcode(4) [OF start p]
  have le: "k \<le> gas_left s" using k by simp
  have fwd: "base_post L H g c s p (s', Some (next_pos c p))" if "passes ?s s'" for s'
    using passes_inv [OF inv that le, of "next_pos c p"] base_mu_forward [of s' s p "next_pos c p" c] nxt that
    by (auto simp: base_post_def passes_def)
  have fin: "base_post L H g c s p (s', None)" if "run_final ?s s'" for s'
    using final_charged [OF that le] by (simp add: base_post_def)
  have jump: "base_post L H g c s p (s', Some q)" if "passes ?s s'" "valid_jumpdest c q" "op \<in> {OP_JUMP, OP_JUMPI}" for s' q
  proof -
    have "0 < gas_costs (revision s) op" using that(3) jump_cost_pos by blast
    with passes_inv [OF inv that(1) le, of q] base_mu_gas [of s' s c q p] that k show ?thesis
      by (auto simp: base_post_def passes_def valid_jumpdest_def)
  qed
  from wpD [OF dispatch_contract [OF inv' start p op b rd]] obtain s' q where
    "invoke (baseline_impl L H b) ?s p = Some (s', q)"
    and q: "case q of None \<Rightarrow> run_final ?s s'
      | Some q' \<Rightarrow> passes ?s s' \<and> (q' = next_pos c p \<or> op \<in> {OP_JUMP, OP_JUMPI} \<and> valid_jumpdest c q')" by blast
  moreover have "base_post L H g c s p (s', q)" using q fwd fin jump by (cases q) auto
  ultimately show ?thesis by simp
qed

lemma base_step_post:
  assumes inv: "base_inv L H g c s p"
  shows "wp (baseline_step L H s p) (base_post L H g c s p)"
proof -
  have an: "analysis s = Some (analyze_baseline g c)" and start: "instr_start c p" and wf: "state_wf s"
    using inv by (simp_all add: base_inv_def)
  let ?a = "analyze_baseline g c"
  define op where "op = unat (padded_code ?a ! p)"
  note opc = base_opcode(1-3) [OF start, of g]
  have "wp (let (st, s) = check_requirements (get_baseline_instruction_table (revision s)) s op in
      if st \<noteq> IVMC_SUCCESS then Some (s\<lparr>status := st\<rparr>, None)
      else do { b \<leftarrow> op2fn op; invoke (baseline_impl L H b) s p }) (base_post L H g c s p)"
  proof (cases "check_requirements (get_baseline_instruction_table (revision s)) s op")
    case (Pair st s')
    have "length (stack s) \<le> stack_limit" using wf by (simp add: state_wf_def)
    with Pair show ?thesis
    proof (cases rule: check_requirements_cases)
      case (fail k)
      with Pair inv show ?thesis
        by (auto simp: base_post_def run_final_def env_same_def base_inv_def state_wf_def ok_status_def)
    next
      case ok
      from ok(2) gas_costs_defined_since [of "revision s" op] op2fn_defined [of op]
      obtain b where b: "op2fn op = Some b" by auto
      have rd: "ready (stack_height_required (traits op)) (stack_height_change (traits op)) s'"
        using ok inv by (auto simp: ready_def base_inv_def state_wf_def)
      show ?thesis
      proof (cases "p < length c")
        case True
        then have "op = unat (c ! p)" using opc by (simp add: op_def)
        from base_dispatch [OF inv True this b refl] ok rd b Pair show ?thesis by simp
      next
        case False
        then have "op = OP_STOP" using opc by (simp add: op_def)
        then have "op2fn op = Some (Generic fn_stop)" using op2fn_stop by blast
        with Pair ok inv show ?thesis
          by (auto simp: wp_rules stop_instr_def base_post_def run_final_def env_same_def base_inv_def
              state_wf_def ok_status_def)
      qed
    qed
  qed
  then show ?thesis
    using opc(1) unfolding baseline_step_def op_def by (simp add: an Let_def)
qed

section \<open>Total correctness of the loop\<close>

interpretation base: terminating_loop "baseline_step L H" "base_inv L H g c" "base_mu c" run_final
  for L :: lib and H :: "'h host_interface" and g c
proof
  fix s :: "(CodeAnalysis, 'h, 'z) state" and p
  assume inv: "base_inv L H g c s p"
  note post = base_step_post [OF inv]
  from post show "\<exists>s' q. baseline_step L H s p = Some (s', q)" by (auto simp: wp_iff)
  fix s' q
  assume "baseline_step L H s p = Some (s', Some q)"
  with post show "base_inv L H g c s' q" "base_mu c s' q < base_mu c s p"
    by (simp_all add: base_post_def)
next
  fix s s' :: "(CodeAnalysis, 'h, 'z) state" and p
  assume "base_inv L H g c s p" "baseline_step L H s p = Some (s', None)"
  with base_step_post [OF this(1)] show "run_final s s'" by (simp add: base_post_def)
next
  fix s s' s'' :: "(CodeAnalysis, 'h, 'z) state" and p q
  assume "base_inv L H g c s p" "baseline_step L H s p = Some (s', Some q)" "run_final s' s''"
  with base_step_post [OF this(1)] show "run_final s s''"
    by (auto simp: base_post_def intro: run_final_trans)
qed

lemma baseline_start_new:
  "baseline_start (new_state m r h c) (analyze_baseline g c) =
     (new_state m r h c)\<lparr>analysis := Some (analyze_baseline g c)\<rparr>"
proof -
  have "take (length c) (padded_code (analyze_baseline g c)) = c"
    by (rule nth_equalityI) (use code_end_ge [of c] in \<open>simp_all add: length_padded padded_code_prefix\<close>)
  then show ?thesis by (simp add: baseline_start_def new_state_def)
qed

lemma baseline_start_inv:
  assumes "host_ok H" "store32 L" "length c < 2 ^ 64" "0 \<le> msg_gas m"
  shows "base_inv L H g c (baseline_start (new_state m r h c) (analyze_baseline g c)) 0"
  unfolding baseline_start_new using assms
  by (simp add: base_inv_def new_state_def state_wf_def instr_start.first)

text \<open>A number of iterations that is always enough.\<close>

definition baseline_fuel :: "ivmc_message \<Rightarrow> bytes \<Rightarrow> nat" where
  "baseline_fuel m c = nat (msg_gas m) * (length c + 34) + length c + 34"

lemma baseline_fuel_enough:
  "base_mu c (baseline_start (new_state m r h c) (analyze_baseline g c)) 0 < baseline_fuel m c"
proof -
  have "nat (msg_gas m) * (code_end c + 2) \<le> nat (msg_gas m) * (length c + 34)"
    using code_end_bound [of c] by (intro mult_left_mono) auto
  with code_end_bound [of c] show ?thesis
    unfolding base_mu_def baseline_fuel_def baseline_start_new by (simp add: new_state_def)
qed

lemma state_result_final:
  assumes "run_final s s'"
  shows "\<exists>r. state_result s' = Some r \<and> res_status r = status s' \<and>
    res_gas_left r = (if ok_status (status s') then gas_left s' else 0) \<and>
    length (res_output r) = output_size s' \<and> (\<not> ok_status (status s') \<longrightarrow> res_output r = [])"
  using assms by (auto simp: state_result_def run_final_def ok_status_def mem_read_def split: if_splits)

text \<open>The result of an execution.\<close>

lemma baseline_result:
  assumes "host_ok H" "store32 L" "length c < 2 ^ 64" "0 \<le> msg_gas m"
  shows "\<exists>r s. baseline_execute_ivmc L H garbage (baseline_fuel m c) h rv m c = Exited (r, s) \<and>
    0 \<le> res_gas_left r \<and> res_gas_left r \<le> msg_gas m \<and>
    (\<not> ok_status (res_status r) \<longrightarrow> res_gas_left r = 0 \<and> res_output r = [])"
proof -
  let ?s = "baseline_start (new_state m rv h c) (analyze_baseline garbage c)"
  note inv = baseline_start_inv [OF assms]
  from base.loop_exits [OF inv baseline_fuel_enough] obtain s where
    l: "loop (baseline_step L H) (baseline_fuel m c) ?s 0 = Exited s" and fin: "run_final ?s s" by blast
  from state_result_final [OF fin] obtain r where
    "state_result s = Some r" "res_status r = status s"
    "res_gas_left r = (if ok_status (status s) then gas_left s else 0)"
    "\<not> ok_status (status s) \<longrightarrow> res_output r = []" by blast
  moreover have "gas_left s \<le> msg_gas m" "ok_status (status s) \<longrightarrow> 0 \<le> gas_left s"
    using fin unfolding run_final_def baseline_start_new by (auto simp: new_state_def)
  ultimately show ?thesis
    unfolding baseline_execute_ivmc_def baseline_execute_def l by (auto simp: assms(4))
qed

lemma baseline_defined:
  assumes "host_ok H" "store32 L" "length c < 2 ^ 64" "0 \<le> msg_gas m"
  shows "baseline_execute_ivmc L H garbage n h rv m c \<noteq> Undefined"
proof -
  let ?s = "baseline_start (new_state m rv h c) (analyze_baseline garbage c)"
  note inv = baseline_start_inv [OF assms]
  show ?thesis
  proof (cases "loop (baseline_step L H) n ?s 0")
    case (Exited s)
    from state_result_final [OF base.loop_result [OF inv Exited]] Exited show ?thesis
      by (auto simp: baseline_execute_ivmc_def baseline_execute_def)
  qed (use base.loop_defined [OF inv] in \<open>simp_all add: baseline_execute_ivmc_def baseline_execute_def\<close>)
qed

end
