(* ===== verification/Tracing.thy ===== *)
theory Tracing
  imports Baseline
begin

text \<open>
  Tracers (\<^verbatim>\<open>tracing.hpp\<close>, \<^verbatim>\<open>tracing.cpp\<close>) and the tracing variant of the Baseline interpreter
  (\<^verbatim>\<open>execute<true>\<close>). A tracer is told when an execution starts, before every instruction and when
  the execution ends; tracers form a chain through \<^verbatim>\<open>m_next_tracer\<close>, which is a list here. All
  tracers of a virtual machine write to one stream (\<^verbatim>\<open>std::cerr\<close>), a string that grows.

  The names of opcodes, the hexadecimal printing and the names of revisions and status codes come
  from packages outside the repository and are parameters (\<open>trace_lib\<close>). A context keeps the bytes
  behind its code pointer; reading past them is undefined behaviour, as is \<^verbatim>\<open>top()\<close> of an empty
  stack of contexts.

  The locale \<open>tracer_contract\<close> is what the interpreter relies on: notifications in the order of an
  execution are defined and the end gives back the tracer of the beginning. It is interpreted on
  both tracers, on the virtual dispatch and on the chain.
\<close>

section \<open>Printing\<close>

type_synonym stream = string

record trace_lib =
  instruction_names_table :: "ivmc_revision \<Rightarrow> nat \<Rightarrow> string option"
  hex_byte :: "byte \<Rightarrow> string"
  hex :: "bytes \<Rightarrow> string"
  to_string16 :: "uint256 \<Rightarrow> string"
  show_revision :: "ivmc_revision \<Rightarrow> string"
  show_status :: "ivmc_status_code \<Rightarrow> string"

text \<open>Integers as \<^verbatim>\<open>operator<<\<close> prints them.\<close>

fun show_nat :: "nat \<Rightarrow> string" where
  "show_nat n = (if n < 10 then [] else show_nat (n div 10)) @ [char_of (48 + n mod 10)]"

declare show_nat.simps [simp del]

definition show_int :: "int \<Rightarrow> string" where
  "show_int i = (if i < 0 then ''-'' @ show_nat (nat (- i)) else show_nat (nat i))"

definition newline :: string where
  "newline = [CHR 0x0A]"

definition get_name :: "trace_lib \<Rightarrow> (nat \<Rightarrow> string option) \<Rightarrow> nat \<Rightarrow> string" where
  "get_name T names opcode =
     (case names opcode of Some name \<Rightarrow> name | None \<Rightarrow> ''0x'' @ hex_byte T (of_nat opcode))"

section \<open>The histogram tracer\<close>

record hist_context =
  hc_depth :: int
  hc_code :: bytes
  hc_opcode_names :: "nat \<Rightarrow> string option"
  hc_counts :: "u32 list"

record HistogramTracer =
  hist_contexts :: "hist_context list"

definition hist_execution_start ::
  "trace_lib \<Rightarrow> ivmc_revision \<Rightarrow> ivmc_message \<Rightarrow> bytes \<Rightarrow> HistogramTracer \<Rightarrow> stream \<Rightarrow> (HistogramTracer \<times> stream) option" where
  "hist_execution_start T rv m c t out =
     (let ctx = \<lparr>hc_depth = msg_depth m, hc_code = c, hc_opcode_names = instruction_names_table T rv,
                 hc_counts = replicate 256 0\<rparr>
      in Some (t\<lparr>hist_contexts := ctx # hist_contexts t\<rparr>, out))"

text \<open>Counters are \<^verbatim>\<open>uint32_t\<close> and wrap around.\<close>

definition hist_instruction_start ::
  "nat \<Rightarrow> ('a, 'h, 'z) state \<Rightarrow> HistogramTracer \<Rightarrow> stream \<Rightarrow> (HistogramTracer \<times> stream) option" where
  "hist_instruction_start pc s t out =
     (case hist_contexts t of
        [] \<Rightarrow> None
      | ctx # ctxs \<Rightarrow>
          if length (hc_code ctx) \<le> pc then None
          else
            let op = unat (hc_code ctx ! pc);
                ctx = ctx\<lparr>hc_counts := (hc_counts ctx)[op := hc_counts ctx ! op + 1]\<rparr>
            in Some (t\<lparr>hist_contexts := ctx # ctxs\<rparr>, out))"

definition hist_line :: "trace_lib \<Rightarrow> (nat \<Rightarrow> string option) \<Rightarrow> nat \<Rightarrow> u32 \<Rightarrow> string" where
  "hist_line T names i n =
     (if n \<noteq> 0 then get_name T names i @ '','' @ show_nat (unat n) @ newline else [])"

definition hist_report :: "trace_lib \<Rightarrow> int \<Rightarrow> (nat \<Rightarrow> string option) \<Rightarrow> u32 list \<Rightarrow> string" where
  "hist_report T depth names counts =
     ''--- # HISTOGRAM depth='' @ show_int depth @ newline @ ''opcode,count'' @ newline @
     concat (map (\<lambda>i. hist_line T names i (counts ! i)) [0..<256])"

definition hist_execution_end ::
  "trace_lib \<Rightarrow> ivmc_result \<Rightarrow> HistogramTracer \<Rightarrow> stream \<Rightarrow> (HistogramTracer \<times> stream) option" where
  "hist_execution_end T r t out =
     (case hist_contexts t of
        [] \<Rightarrow> None
      | ctx # ctxs \<Rightarrow>
          Some (t\<lparr>hist_contexts := ctxs\<rparr>,
                out @ hist_report T (hc_depth ctx) (hc_opcode_names ctx) (hc_counts ctx)))"

section \<open>The instruction tracer\<close>

record instr_context =
  ic_code :: bytes
  ic_start_gas :: int

record InstructionTracer =
  instr_contexts :: "instr_context list"
  m_opcode_names :: "(nat \<Rightarrow> string option) option"

text \<open>From the bottom of the stack to its top; \<open>stack[i]\<close> counts from the top.\<close>

definition output_stack :: "trace_lib \<Rightarrow> uint256 list \<Rightarrow> string" where
  \<open>output_stack T st =
     (let top = length st - 1 in
      '',"stack":['' @
      concat (map (\<lambda>i. (if i \<noteq> top then '','' else []) @ ''"0x'' @ to_string16 T (st ! i) @ ''"'')
        (rev [0..<length st])) @
      '']'')\<close>

definition start_line :: "trace_lib \<Rightarrow> ivmc_revision \<Rightarrow> ivmc_message \<Rightarrow> string" where
  \<open>start_line T rv m =
     ''{'' @ ''"depth":'' @ show_int (msg_depth m) @
     '',"rev":"'' @ show_revision T rv @ ''"'' @
     '',"static":'' @ (if is_static m then ''true'' else ''false'') @
     ''}'' @ newline\<close>

definition trace_execution_start ::
  "trace_lib \<Rightarrow> ivmc_revision \<Rightarrow> ivmc_message \<Rightarrow> bytes \<Rightarrow> InstructionTracer \<Rightarrow> stream \<Rightarrow> (InstructionTracer \<times> stream) option" where
  "trace_execution_start T rv m c t out =
     (let t = (if instr_contexts t = [] then t\<lparr>m_opcode_names := Some (instruction_names_table T rv)\<rparr> else t);
          t = t\<lparr>instr_contexts := \<lparr>ic_code = c, ic_start_gas = msg_gas m\<rparr> # instr_contexts t\<rparr>
      in Some (t, out @ start_line T rv m))"

definition instr_line ::
  "trace_lib \<Rightarrow> (nat \<Rightarrow> string option) \<Rightarrow> nat \<Rightarrow> nat \<Rightarrow> ('a, 'h, 'z) state \<Rightarrow> string" where
  \<open>instr_line T names pc opcode s =
     ''{'' @ ''"pc":'' @ show_nat pc @
     '',"op":'' @ show_nat opcode @
     '',"opName":"'' @ get_name T names opcode @ ''"'' @
     '',"gas":'' @ show_int (gas_left s) @
     output_stack T (stack s) @
     '',"memorySize":'' @ show_nat (length (memory s)) @
     ''}'' @ newline\<close>

definition trace_instruction_start ::
  "trace_lib \<Rightarrow> nat \<Rightarrow> ('a, 'h, 'z) state \<Rightarrow> InstructionTracer \<Rightarrow> stream \<Rightarrow> (InstructionTracer \<times> stream) option" where
  "trace_instruction_start T pc s t out =
     (case instr_contexts t of
        [] \<Rightarrow> None
      | ctx # ctxs \<Rightarrow>
          if length (ic_code ctx) \<le> pc then None
          else do {
            names \<leftarrow> m_opcode_names t;
            Some (t, out @ instr_line T names pc (unat (ic_code ctx ! pc)) s)
          })"

definition end_line :: "trace_lib \<Rightarrow> int \<Rightarrow> ivmc_result \<Rightarrow> string" where
  \<open>end_line T start_gas r =
     ''{'' @ ''"error":'' @
     (if res_status r = IVMC_SUCCESS then ''null'' else ''"'' @ show_status T (res_status r) @ ''"'') @
     '',"gas":'' @ show_int (res_gas_left r) @
     '',"gasUsed":'' @ show_int (start_gas - res_gas_left r) @
     '',"output":"'' @ hex T (res_output r) @ ''"'' @
     ''}'' @ newline\<close>

definition trace_execution_end ::
  "trace_lib \<Rightarrow> ivmc_result \<Rightarrow> InstructionTracer \<Rightarrow> stream \<Rightarrow> (InstructionTracer \<times> stream) option" where
  "trace_execution_end T r t out =
     (case instr_contexts t of
        [] \<Rightarrow> None
      | ctx # ctxs \<Rightarrow>
          let t = t\<lparr>instr_contexts := ctxs\<rparr>;
              t = (if ctxs = [] then t\<lparr>m_opcode_names := None\<rparr> else t)
          in Some (t, out @ end_line T (ic_start_gas ctx) r))"

section \<open>Virtual dispatch and the chain\<close>

datatype Tracer = Histogram HistogramTracer | Instruction InstructionTracer

definition create_histogram_tracer :: Tracer where
  "create_histogram_tracer = Histogram \<lparr>hist_contexts = []\<rparr>"

definition create_instruction_tracer :: Tracer where
  "create_instruction_tracer = Instruction \<lparr>instr_contexts = [], m_opcode_names = None\<rparr>"

fun on_execution_start ::
  "trace_lib \<Rightarrow> ivmc_revision \<Rightarrow> ivmc_message \<Rightarrow> bytes \<Rightarrow> Tracer \<Rightarrow> stream \<Rightarrow> (Tracer \<times> stream) option" where
  "on_execution_start T rv m c (Histogram t) out =
     map_option (map_prod Histogram id) (hist_execution_start T rv m c t out)"
| "on_execution_start T rv m c (Instruction t) out =
     map_option (map_prod Instruction id) (trace_execution_start T rv m c t out)"

fun on_instruction_start ::
  "trace_lib \<Rightarrow> nat \<Rightarrow> ('a, 'h, 'z) state \<Rightarrow> Tracer \<Rightarrow> stream \<Rightarrow> (Tracer \<times> stream) option" where
  "on_instruction_start T pc s (Histogram t) out =
     map_option (map_prod Histogram id) (hist_instruction_start pc s t out)"
| "on_instruction_start T pc s (Instruction t) out =
     map_option (map_prod Instruction id) (trace_instruction_start T pc s t out)"

fun on_execution_end :: "trace_lib \<Rightarrow> ivmc_result \<Rightarrow> Tracer \<Rightarrow> stream \<Rightarrow> (Tracer \<times> stream) option" where
  "on_execution_end T r (Histogram t) out = map_option (map_prod Histogram id) (hist_execution_end T r t out)"
| "on_execution_end T r (Instruction t) out = map_option (map_prod Instruction id) (trace_execution_end T r t out)"

text \<open>Each notification goes to the first tracer and then down the chain.\<close>

fun notify_execution_start ::
  "trace_lib \<Rightarrow> ivmc_revision \<Rightarrow> ivmc_message \<Rightarrow> bytes \<Rightarrow> Tracer list \<Rightarrow> stream \<Rightarrow> (Tracer list \<times> stream) option" where
  "notify_execution_start T rv m c [] out = Some ([], out)"
| "notify_execution_start T rv m c (t # ts) out = do {
     (t, out) \<leftarrow> on_execution_start T rv m c t out;
     (ts, out) \<leftarrow> notify_execution_start T rv m c ts out;
     Some (t # ts, out) }"

fun notify_execution_end ::
  "trace_lib \<Rightarrow> ivmc_result \<Rightarrow> Tracer list \<Rightarrow> stream \<Rightarrow> (Tracer list \<times> stream) option" where
  "notify_execution_end T r [] out = Some ([], out)"
| "notify_execution_end T r (t # ts) out = do {
     (t, out) \<leftarrow> on_execution_end T r t out;
     (ts, out) \<leftarrow> notify_execution_end T r ts out;
     Some (t # ts, out) }"

fun notify_instruction_start ::
  "trace_lib \<Rightarrow> nat \<Rightarrow> ('a, 'h, 'z) state \<Rightarrow> Tracer list \<Rightarrow> stream \<Rightarrow> (Tracer list \<times> stream) option" where
  "notify_instruction_start T pc s [] out = Some ([], out)"
| "notify_instruction_start T pc s (t # ts) out = do {
     (t, out) \<leftarrow> on_instruction_start T pc s t out;
     (ts, out) \<leftarrow> notify_instruction_start T pc s ts out;
     Some (t # ts, out) }"

section \<open>The tracing interpreter\<close>

text \<open>A loop whose body first tells an observer with state \<open>'t\<close>.\<close>

definition observed ::
  "('s \<Rightarrow> 'p \<Rightarrow> 't \<Rightarrow> 't option) \<Rightarrow> ('s \<Rightarrow> 'p \<Rightarrow> ('s \<times> 'p option) option) \<Rightarrow>
   's \<times> 't \<Rightarrow> 'p \<Rightarrow> (('s \<times> 't) \<times> 'p option) option" where
  "observed tell step = (\<lambda>(s, t) p. do {
     t \<leftarrow> tell s p t;
     (s, q) \<leftarrow> step s p;
     Some ((s, t), q) })"

text \<open>The notification in the loop; the offset is a \<^verbatim>\<open>uint32_t\<close>. The padding is skipped.\<close>

definition trace_note ::
  "trace_lib \<Rightarrow> ('a, 'h, 'z) state \<Rightarrow> nat \<Rightarrow> Tracer list \<times> stream \<Rightarrow> (Tracer list \<times> stream) option" where
  "trace_note T s code_it = (\<lambda>(ts, out).
     let offset = code_it mod 2 ^ 32
     in if offset < length (code s) then notify_instruction_start T offset s ts out else Some (ts, out))"

text \<open>\<^verbatim>\<open>execute<true>\<close>\<close>

definition baseline_execute_traced ::
  "trace_lib \<Rightarrow> lib \<Rightarrow> 'h host_interface \<Rightarrow> nat \<Rightarrow> (CodeAnalysis, 'h, 'z) state \<Rightarrow> CodeAnalysis \<Rightarrow> Tracer list \<Rightarrow> stream \<Rightarrow>
   ((ivmc_result \<times> (CodeAnalysis, 'h, 'z) state) \<times> Tracer list \<times> stream) outcome" where
  "baseline_execute_traced T L H n s a ts out =
     (let s = baseline_start s a in
      case notify_execution_start T (revision s) (msg s) (code s) ts out of
        None \<Rightarrow> Undefined
      | Some tr \<Rightarrow>
          (case loop (observed (trace_note T) (baseline_step L H)) n (s, tr) 0 of
             Undefined \<Rightarrow> Undefined
           | Running \<Rightarrow> Running
           | Exited (s, ts, out) \<Rightarrow>
               (case state_result s of
                  None \<Rightarrow> Undefined
                | Some r \<Rightarrow>
                    (case notify_execution_end T r ts out of
                       None \<Rightarrow> Undefined
                     | Some tr \<Rightarrow> Exited ((r, s), tr)))))"

section \<open>Observed loops\<close>

text \<open>The states and positions at the iterations of a loop, and the notes an observer takes of them.\<close>

fun visits :: "('s \<Rightarrow> 'p \<Rightarrow> ('s \<times> 'p option) option) \<Rightarrow> nat \<Rightarrow> 's \<Rightarrow> 'p \<Rightarrow> ('s \<times> 'p) list" where
  "visits step 0 s p = []"
| "visits step (Suc n) s p = (s, p) # (case step s p of Some (s', Some q) \<Rightarrow> visits step n s' q | _ \<Rightarrow> [])"

lemma visits_cases:
  assumes "(s', q) \<in> set (visits step (Suc n) s p)"
  shows "(s', q) = (s, p) \<or> (\<exists>s1 p1. step s p = Some (s1, Some p1) \<and> (s', q) \<in> set (visits step n s1 p1))"
proof (cases "\<exists>s1 p1. step s p = Some (s1, Some p1)")
  case True
  with assms show ?thesis by auto
next
  case False
  then have "visits step (Suc n) s p = [(s, p)]" by (auto split: option.splits)
  from assms [unfolded this] show ?thesis by simp
qed

fun tell_all :: "('s \<Rightarrow> 'p \<Rightarrow> 't \<Rightarrow> 't option) \<Rightarrow> ('s \<times> 'p) list \<Rightarrow> 't \<Rightarrow> 't option" where
  "tell_all tell [] t = Some t"
| "tell_all tell ((s, p) # vs) t = do { t \<leftarrow> tell s p t; tell_all tell vs t }"

text \<open>Observation does not change what is observed.\<close>

lemma observed_loop:
  assumes "tell_all tell (visits step n s p) t = Some t'" "loop step n s p = Exited s'"
  shows "loop (observed tell step) n (s, t) p = Exited (s', t')"
  using assms
proof (induction n arbitrary: s p t)
  case 0
  then show ?case by simp
next
  case (Suc n)
  from Suc.prems(1) obtain t1 where t1: "tell s p t = Some t1" by (auto simp: bind_eq_Some_conv)
  from Suc.prems(2) obtain s1 q where st: "step s p = Some (s1, q)" by (cases "step s p") auto
  with Suc t1 show ?case by (cases q) (auto simp: observed_def)
qed

text \<open>
  An observer that copes with every state of an invariant copes with a whole run: \<open>ok t\<close> is what
  it keeps.
\<close>

locale observer =
  fixes step :: "'s \<Rightarrow> 'p \<Rightarrow> ('s \<times> 'p option) option"
    and inv :: "'s \<Rightarrow> 'p \<Rightarrow> bool"
    and tell :: "'s \<Rightarrow> 'p \<Rightarrow> 't \<Rightarrow> 't option"
    and ok :: "'t \<Rightarrow> bool"
  assumes inv_step: "inv s p \<Longrightarrow> step s p = Some (s', Some q) \<Longrightarrow> inv s' q"
    and tell_ok: "inv s p \<Longrightarrow> ok t \<Longrightarrow> \<exists>t'. tell s p t = Some t' \<and> ok t'"
begin

lemma visits_inv: "inv s p \<Longrightarrow> (s', q) \<in> set (visits step n s p) \<Longrightarrow> inv s' q"
  by (induction n arbitrary: s p) (auto split: option.splits, metis inv_step)

lemma tell_all_ok: "inv s p \<Longrightarrow> ok t \<Longrightarrow> \<exists>t'. tell_all tell (visits step n s p) t = Some t' \<and> ok t'"
proof (induction n arbitrary: s p t)
  case 0
  then show ?case by simp
next
  case (Suc n)
  from tell_ok [OF Suc.prems] obtain t1 where t1: "tell s p t = Some t1" "ok t1" by blast
  show ?case
  proof (cases "\<exists>s1 q. step s p = Some (s1, Some q)")
    case True
    then obtain s1 q where st: "step s p = Some (s1, Some q)" by blast
    from Suc.IH [OF inv_step [OF Suc.prems(1) st] t1(2)] st t1 show ?thesis by simp
  next
    case False
    then have "visits step (Suc n) s p = [(s, p)]" by (auto split: option.splits)
    with t1 show ?thesis by simp
  qed
qed

lemma observed_exits:
  assumes "inv s p" "ok t" "loop step n s p = Exited s'"
  shows "\<exists>t'. loop (observed tell step) n (s, t) p = Exited (s', t') \<and> ok t'"
  using tell_all_ok [OF assms(1,2)] observed_loop assms(3) by fast

end

section \<open>The contract of tracers\<close>

text \<open>
  \<open>rest t\<close> holds of a tracer between executions (of the same depth), \<open>active c t t'\<close> of the tracer
  \<open>t'\<close> during an execution of the code \<open>c\<close> that began with tracer \<open>t\<close>.
\<close>

locale tracer_contract =
  fixes start :: "ivmc_revision \<Rightarrow> ivmc_message \<Rightarrow> bytes \<Rightarrow> 't \<Rightarrow> stream \<Rightarrow> ('t \<times> stream) option"
    and instr :: "nat \<Rightarrow> ('a, 'h, 'z) state \<Rightarrow> 't \<Rightarrow> stream \<Rightarrow> ('t \<times> stream) option"
    and finish :: "ivmc_result \<Rightarrow> 't \<Rightarrow> stream \<Rightarrow> ('t \<times> stream) option"
    and rest :: "'t \<Rightarrow> bool"
    and active :: "bytes \<Rightarrow> 't \<Rightarrow> 't \<Rightarrow> bool"
  assumes start_active: "rest t \<Longrightarrow> wp (start r m c t out) (\<lambda>(t', out'). active c t t')"
    and instr_active: "active c t t' \<Longrightarrow> pc < length c \<Longrightarrow> wp (instr pc s t' out) (\<lambda>(t'', out'). active c t t'')"
    and finish_restores: "active c t t' \<Longrightarrow> rest t \<Longrightarrow> wp (finish res t' out) (\<lambda>(t'', out'). t'' = t)"

definition hist_active :: "bytes \<Rightarrow> HistogramTracer \<Rightarrow> HistogramTracer \<Rightarrow> bool" where
  "hist_active c t t' \<longleftrightarrow>
     (\<exists>ctx. t' = t\<lparr>hist_contexts := ctx # hist_contexts t\<rparr> \<and> hc_code ctx = c \<and> length (hc_counts ctx) = 256)"

definition trace_rest :: "InstructionTracer \<Rightarrow> bool" where
  "trace_rest t \<longleftrightarrow> (instr_contexts t = [] \<longleftrightarrow> m_opcode_names t = None)"

definition trace_active :: "bytes \<Rightarrow> InstructionTracer \<Rightarrow> InstructionTracer \<Rightarrow> bool" where
  "trace_active c t t' \<longleftrightarrow>
     (\<exists>ctx names. instr_contexts t' = ctx # instr_contexts t \<and> ic_code ctx = c \<and> m_opcode_names t' = Some names \<and>
        (instr_contexts t \<noteq> [] \<longrightarrow> m_opcode_names t = Some names))"

interpretation hist: tracer_contract "hist_execution_start T" hist_instruction_start "hist_execution_end T" "\<lambda>t. True" hist_active
  for T
proof unfold_locales
  show "wp (hist_execution_start T r m c t out) (\<lambda>(t', out'). hist_active c t t')" for t r m c out
    by (auto simp: hist_execution_start_def hist_active_def Let_def)
  show "wp (hist_instruction_start pc s t' out) (\<lambda>(t'', out'). hist_active c t t'')"
    if "hist_active c t t'" "pc < length c" for c t t' pc out and s :: "('a, 'h, 'z) state"
  proof -
    from that(1) obtain ctx where t': "t' = t\<lparr>hist_contexts := ctx # hist_contexts t\<rparr>" "hc_code ctx = c"
      "length (hc_counts ctx) = 256" by (auto simp: hist_active_def)
    let ?ctx = "ctx\<lparr>hc_counts := (hc_counts ctx)[unat (c ! pc) := hc_counts ctx ! unat (c ! pc) + 1]\<rparr>"
    have "hist_active c t (t\<lparr>hist_contexts := ?ctx # hist_contexts t\<rparr>)"
      unfolding hist_active_def by (rule exI [of _ ?ctx]) (use t' in simp)
    with t' that(2) show ?thesis by (simp add: hist_instruction_start_def Let_def)
  qed
  show "wp (hist_execution_end T res t' out) (\<lambda>(t'', out'). t'' = t)" if "hist_active c t t'" for c t t' res out
    using that by (auto simp: hist_execution_end_def hist_active_def)
qed

interpretation itr: tracer_contract "trace_execution_start T" "trace_instruction_start T" "trace_execution_end T" trace_rest trace_active
  for T
proof unfold_locales
  show "wp (trace_execution_start T r m c t out) (\<lambda>(t', out'). trace_active c t t')" if "trace_rest t" for t r m c out
    using that by (auto simp: trace_execution_start_def trace_active_def trace_rest_def Let_def)
  show "wp (trace_instruction_start T pc s t' out) (\<lambda>(t'', out'). trace_active c t t'')"
    if "trace_active c t t'" "pc < length c" for c t t' pc out and s :: "('a, 'h, 'z) state"
    using that by (auto simp: trace_instruction_start_def trace_active_def)
  show "wp (trace_execution_end T res t' out) (\<lambda>(t'', out'). t'' = t)"
    if "trace_active c t t'" "trace_rest t" for c t t' res out
    using that by (auto simp: trace_execution_end_def trace_active_def trace_rest_def Let_def)
qed

text \<open>The dispatch and the chain inherit the contract.\<close>

fun tracer_rest :: "Tracer \<Rightarrow> bool" where
  "tracer_rest (Histogram t) = True"
| "tracer_rest (Instruction t) = trace_rest t"

fun tracer_active :: "bytes \<Rightarrow> Tracer \<Rightarrow> Tracer \<Rightarrow> bool" where
  "tracer_active c (Histogram t) (Histogram t') = hist_active c t t'"
| "tracer_active c (Instruction t) (Instruction t') = trace_active c t t'"
| "tracer_active c _ _ = False"

lemma wp_map: "wp (map_option (map_prod f id) m) (\<lambda>(x, y). P x) = wp m (\<lambda>(x, y). P (f x))"
  by (cases m) (auto simp: case_prod_beta)

interpretation any: tracer_contract "on_execution_start T" "on_instruction_start T" "on_execution_end T" tracer_rest tracer_active
  for T
proof unfold_locales
  show "wp (on_execution_start T r m c t out) (\<lambda>(t', out'). tracer_active c t t')" if "tracer_rest t" for t r m c out
    using that hist.start_active itr.start_active by (cases t) (simp_all add: wp_map)
  show "wp (on_instruction_start T pc s t' out) (\<lambda>(t'', out'). tracer_active c t t'')"
    if "tracer_active c t t'" "pc < length c" for c t t' pc out and s :: "('a, 'h, 'z) state"
    using that hist.instr_active itr.instr_active by (cases t; cases t') (simp_all add: wp_map)
  show "wp (on_execution_end T res t' out) (\<lambda>(t'', out'). t'' = t)"
    if "tracer_active c t t'" "tracer_rest t" for c t t' res out
    using that hist.finish_restores itr.finish_restores by (cases t; cases t') (simp_all add: wp_map)
qed

interpretation chain: tracer_contract "notify_execution_start T" "notify_instruction_start T" "notify_execution_end T"
    "list_all tracer_rest" "\<lambda>c. list_all2 (tracer_active c)"
  for T
proof unfold_locales
  show "wp (notify_execution_start T r m c ts out) (\<lambda>(ts', out'). list_all2 (tracer_active c) ts ts')"
    if "list_all tracer_rest ts" for ts r m c out
    using that
  proof (induction ts arbitrary: out)
    case (Cons t ts)
    from wpD [OF any.start_active [of t T r m c out]] Cons.prems obtain t' out1 where
      "on_execution_start T r m c t out = Some (t', out1)" "tracer_active c t t'" by auto
    with Cons.IH [of out1] Cons.prems show ?case by (auto simp: wp_rules wp_iff)
  qed simp
  show "wp (notify_instruction_start T pc s ts' out) (\<lambda>(ts'', out'). list_all2 (tracer_active c) ts ts'')"
    if "list_all2 (tracer_active c) ts ts'" "pc < length c" for c ts ts' pc out and s :: "('a, 'h, 'z) state"
    using that
  proof (induction arbitrary: out rule: list_all2_induct)
    case (Cons t ts t' ts')
    from wpD [OF any.instr_active [OF Cons.hyps(1) Cons.prems, of T s out]] obtain t'' out1 where
      "on_instruction_start T pc s t' out = Some (t'', out1)" "tracer_active c t t''" by auto
    with Cons.IH [OF Cons.prems, of out1] show ?case by (auto simp: wp_rules wp_iff)
  qed simp
  show "wp (notify_execution_end T res ts' out) (\<lambda>(ts'', out'). ts'' = ts)"
    if "list_all2 (tracer_active c) ts ts'" "list_all tracer_rest ts" for c ts ts' res out
    using that
  proof (induction arbitrary: out rule: list_all2_induct)
    case (Cons t ts t' ts')
    from wpD [OF any.finish_restores [OF Cons.hyps(1), of T res out]] Cons.prems obtain out1 where
      "on_execution_end T res t' out = Some (t, out1)" by auto
    with Cons.IH [of out1] Cons.prems show ?case by (auto simp: wp_rules wp_iff)
  qed simp
qed

section \<open>Tracing does not change the execution\<close>

interpretation obs: observer "baseline_step L H" "base_inv L H g c" "trace_note T"
    "\<lambda>(ts', out). list_all2 (tracer_active c) ts ts'"
  for L :: lib and H :: "'h host_interface" and g c T ts
proof unfold_locales
  show "base_inv L H g c s' q" if "base_inv L H g c s p" "baseline_step L H s p = Some (s', Some q)"
    for s s' :: "(CodeAnalysis, 'h, 'z) state" and p q
    using base.step_keeps that by blast
  show "\<exists>t'. trace_note T s p t = Some t' \<and> (case t' of (ts', out) \<Rightarrow> list_all2 (tracer_active c) ts ts')"
    if "base_inv L H g c s p" "case t of (ts', out) \<Rightarrow> list_all2 (tracer_active c) ts ts'"
    for s :: "(CodeAnalysis, 'h, 'z) state" and p t
  proof -
    obtain ts' out where t: "t = (ts', out)" by (cases t)
    have "code s = c" using that(1) by (simp add: base_inv_def)
    with that(2) t wpD [OF chain.instr_active, of c ts ts' "p mod 2 ^ 32" T s out] show ?thesis
      by (cases "p mod 2 ^ 32 < length c") (auto simp: trace_note_def Let_def)
  qed
qed

text \<open>A traced execution is the execution with its notifications beside it.\<close>

lemma traced_run:
  assumes run: "baseline_execute L H n s a = Exited (r, s')"
    and start: "notify_execution_start T (revision s) (msg s) (code (baseline_start s a)) ts out = Some tr1"
    and tells: "tell_all (trace_note T) (visits (baseline_step L H) n (baseline_start s a) 0) tr1 = Some (ts2, out2)"
    and fin: "notify_execution_end T r ts2 out2 = Some tr3"
  shows "baseline_execute_traced T L H n s a ts out = Exited ((r, s'), tr3)"
proof -
  let ?s = "baseline_start s a"
  have ms: "msg ?s = msg s" "revision ?s = revision s" by (simp_all add: baseline_start_def)
  from run have l: "loop (baseline_step L H) n ?s 0 = Exited s'" and r: "state_result s' = Some r"
    by (auto simp: baseline_execute_def elim!: finish.elims split: option.splits)
  from observed_loop [OF tells l] start r fin show ?thesis
    by (simp add: baseline_execute_traced_def ms Let_def)
qed

lemma traced_execute:
  assumes inv: "base_inv L H g c (baseline_start s a) 0" and ts: "list_all tracer_rest ts"
    and run: "baseline_execute L H n s a = Exited (r, s')"
  shows "\<exists>out'. baseline_execute_traced T L H n s a ts out = Exited ((r, s'), ts, out')"
proof -
  let ?s = "baseline_start s a"
  have c: "code ?s = c" using inv by (simp add: base_inv_def)
  from wpD [OF chain.start_active [OF ts, of T "revision s" "msg s" c out]] obtain ts1 out1 where
    st: "notify_execution_start T (revision s) (msg s) c ts out = Some (ts1, out1)"
      "list_all2 (tracer_active c) ts ts1" by auto
  from obs.tell_all_ok [OF inv, where t = "(ts1, out1)" and ts = ts and T = T and n = n] st(2) obtain ts2 out2 where
    o: "tell_all (trace_note T) (visits (baseline_step L H) n ?s 0) (ts1, out1) = Some (ts2, out2)"
      "list_all2 (tracer_active c) ts ts2" by auto
  from wpD [OF chain.finish_restores [OF o(2) ts, of T r out2]] obtain out3 where
    "notify_execution_end T r ts2 out2 = Some (ts, out3)" by auto
  with traced_run [OF run _ o(1)] st(1) c show ?thesis by auto
qed

section \<open>What the tracers report\<close>

definition count_op :: "bytes \<Rightarrow> ('s \<times> nat) list \<Rightarrow> nat \<Rightarrow> nat" where
  "count_op c vs i = length (filter (\<lambda>(s, p). p < length c \<and> unat (c ! p) = i) vs)"

text \<open>The positions of a run are those the notification reports: they fit in 32 bits.\<close>

definition on_code :: "bytes \<Rightarrow> (('a, 'h, 'z) state \<times> nat) list \<Rightarrow> bool" where
  "on_code c vs \<longleftrightarrow> (\<forall>(s, p) \<in> set vs. code s = c \<and> p < 2 ^ 32)"

lemma visits_on_code:
  assumes "base_inv L H g c s 0" "length c + 32 < 2 ^ 32"
  shows "on_code c (visits (baseline_step L H) n s 0)"
  unfolding on_code_def
proof clarify
  fix s' p
  assume "(s', p) \<in> set (visits (baseline_step L H) n s 0)"
  from obs.visits_inv [OF assms(1) this] have "code s' = c" "instr_start c p" by (simp_all add: base_inv_def)
  with instr_start_le_end [of c p] code_end_bound [of c] assms(2) show "code s' = c \<and> p < 2 ^ 32" by simp
qed

text \<open>What holds at every iteration of a run.\<close>

lemma visits_gas:
  assumes "base_inv L H g c s p" "(s', q) \<in> set (visits (baseline_step L H) n s p)"
  shows "gas_left s' \<le> gas_left s \<and> env_same s s'"
  using assms
proof (induction n arbitrary: s p)
  case 0
  then show ?case by simp
next
  case (Suc n)
  show ?case
  proof (cases "(s', q) = (s, p)")
    case True
    then show ?thesis by (simp add: env_same_def)
  next
    case False
    with visits_cases [OF Suc.prems(2)] obtain s1 p1 where st: "baseline_step L H s p = Some (s1, Some p1)"
      and v: "(s', q) \<in> set (visits (baseline_step L H) n s1 p1)" by auto
    from base_step_post [OF Suc.prems(1)] st have "base_inv L H g c s1 p1" "gas_left s1 \<le> gas_left s" "env_same s s1"
      by (simp_all add: base_post_def)
    with Suc.IH [OF this(1) v] show ?thesis by (auto simp: env_same_def)
  qed
qed

lemma hist_tell_all:
  assumes "on_code c vs" "hc_code ctx = c" "length (hc_counts ctx) = 256"
  shows "tell_all (trace_note T) vs ([Histogram (t\<lparr>hist_contexts := ctx # ctxs\<rparr>)], out) =
    Some ([Histogram (t\<lparr>hist_contexts := ctx\<lparr>hc_counts :=
       map (\<lambda>i. hc_counts ctx ! i + of_nat (count_op c vs i)) [0..<256]\<rparr> # ctxs\<rparr>)], out)"
  using assms
proof (induction vs arbitrary: ctx)
  case Nil
  have "map (\<lambda>i. hc_counts ctx ! i) [0..<256] = hc_counts ctx" using Nil by (metis map_nth)
  then show ?case by (simp add: count_op_def)
next
  case (Cons v vs)
  obtain s p where v: "v = (s, p)" by (cases v)
  have oc: "on_code c vs" and s: "code s = c" and p: "p mod 4294967296 = p" using Cons.prems(1) by (simp_all add: on_code_def v)
  show ?case
  proof (cases "p < length c")
    case True
    let ?op = "unat (c ! p)"
    define ctx' where "ctx' = ctx\<lparr>hc_counts := (hc_counts ctx)[?op := hc_counts ctx ! ?op + 1]\<rparr>"
    have tell: "trace_note T s p ([Histogram (t\<lparr>hist_contexts := ctx # ctxs\<rparr>)], out) =
        Some ([Histogram (t\<lparr>hist_contexts := ctx' # ctxs\<rparr>)], out)"
      using True Cons.prems(2) by (simp add: trace_note_def s p hist_instruction_start_def ctx'_def Let_def)
    have "map (\<lambda>i. hc_counts ctx' ! i + of_nat (count_op c vs i)) [0..<256] =
        map (\<lambda>i. hc_counts ctx ! i + of_nat (count_op c (v # vs) i)) [0..<256]"
      using Cons.prems(3) True by (auto simp: ctx'_def count_op_def v nth_list_update)
    moreover have "ctx'\<lparr>hc_counts := y\<rparr> = ctx\<lparr>hc_counts := y\<rparr>" for y by (simp add: ctx'_def)
    ultimately show ?thesis using Cons.IH [OF oc, of ctx'] Cons.prems tell by (simp add: v ctx'_def)
  next
    case False
    then have "count_op c (v # vs) i = count_op c vs i" for i by (simp add: count_op_def v)
    moreover have "trace_note T s p tr = Some tr" for tr using False by (simp add: trace_note_def s p Let_def case_prod_beta)
    ultimately show ?thesis using Cons.IH [OF oc] Cons.prems by (simp add: v)
  qed
qed

lemma trace_tell_all:
  assumes "on_code c vs" "instr_contexts t = ctx # ctxs" "ic_code ctx = c" "m_opcode_names t = Some names"
  shows "tell_all (trace_note T) vs ([Instruction t], out) =
    Some ([Instruction t], out @ concat (map (\<lambda>(s, p). if p < length c then instr_line T names p (unat (c ! p)) s else []) vs))"
  using assms(1)
proof (induction vs arbitrary: out)
  case Nil
  then show ?case by simp
next
  case (Cons v vs)
  obtain s p where v: "v = (s, p)" by (cases v)
  have oc: "on_code c vs" and s: "code s = c" and p: "p mod 4294967296 = p" using Cons.prems by (simp_all add: on_code_def v)
  have "trace_note T s p ([Instruction t], out) =
      Some ([Instruction t], out @ (if p < length c then instr_line T names p (unat (c ! p)) s else []))"
    using assms(2-) by (simp add: trace_note_def s p trace_instruction_start_def Let_def)
  with Cons.IH [OF oc] show ?case by (simp add: v)
qed

text \<open>The reports of whole executions; \<open>vs\<close> are the iterations of the loop.\<close>

lemma histogram_execute:
  assumes inv: "base_inv L H g c (baseline_start s a) 0" and len: "length c + 32 < 2 ^ 32"
    and run: "baseline_execute L H n s a = Exited (r, s')"
    and vs: "vs = visits (baseline_step L H) n (baseline_start s a) 0"
  shows "baseline_execute_traced T L H n s a [Histogram t] out =
    Exited ((r, s'), [Histogram t], out @ hist_report T (msg_depth (msg s)) (instruction_names_table T (revision s))
       (map (\<lambda>i. of_nat (count_op c vs i)) [0..<256]))"
proof -
  have c: "code (baseline_start s a) = c" using inv by (simp add: base_inv_def)
  define ctx where "ctx = \<lparr>hc_depth = msg_depth (msg s), hc_code = c, hc_opcode_names = instruction_names_table T (revision s),
    hc_counts = replicate 256 0\<rparr>"
  let ?ctx = "ctx\<lparr>hc_counts := map (\<lambda>i. of_nat (count_op c vs i)) [0..<256]\<rparr>"
  have "tell_all (trace_note T) vs ([Histogram (t\<lparr>hist_contexts := ctx # hist_contexts t\<rparr>)], out) =
      Some ([Histogram (t\<lparr>hist_contexts := ?ctx # hist_contexts t\<rparr>)], out)"
    using hist_tell_all [OF visits_on_code [OF inv len, of n, folded vs], where ctx = ctx and T = T and t = t
        and ctxs = "hist_contexts t" and out = out]
    by (simp add: ctx_def cong: map_cong)
  from traced_run [OF run _ this [unfolded vs]] show ?thesis
    by (simp add: c hist_execution_start_def hist_execution_end_def vs ctx_def Let_def)
qed

lemma instruction_trace_execute:
  assumes inv: "base_inv L H g c (baseline_start s a) 0" and len: "length c + 32 < 2 ^ 32"
    and run: "baseline_execute L H n s a = Exited (r, s')"
    and vs: "vs = visits (baseline_step L H) n (baseline_start s a) 0"
  shows "baseline_execute_traced T L H n s a [create_instruction_tracer] out =
    Exited ((r, s'), [create_instruction_tracer], out @ start_line T (revision s) (msg s) @
      concat (map (\<lambda>(s1, p). if p < length c then instr_line T (instruction_names_table T (revision s)) p (unat (c ! p)) s1 else []) vs) @
      end_line T (msg_gas (msg s)) r)"
proof -
  have c: "code (baseline_start s a) = c" using inv by (simp add: base_inv_def)
  let ?t = "\<lparr>instr_contexts = [\<lparr>ic_code = c, ic_start_gas = msg_gas (msg s)\<rparr>],
    m_opcode_names = Some (instruction_names_table T (revision s))\<rparr>"
  note tells = trace_tell_all [OF visits_on_code [OF inv len, of n], where t = ?t and T = T
      and out = "out @ start_line T (revision s) (msg s)", simplified]
  from traced_run [OF run _ tells] show ?thesis
    by (simp add: c create_instruction_tracer_def trace_execution_start_def trace_execution_end_def vs Let_def)
qed

end
