(* ===== verification/Gas_Shift.thy ===== *)
theory Gas_Shift
  imports Instruction_Contracts
begin

text \<open>
  Instructions do not look at the code analysis, at the extension of the state, or at the absolute
  amount of gas left. \<open>recast k a y s\<close> is the state \<open>s\<close> with analysis \<open>a\<close>, extension \<open>y\<close> and \<open>k\<close> less
  gas. Run on it, an instruction does the same or, for positive \<open>k\<close>, runs out of gas where the
  original run ends with less than \<open>k\<close> gas (\<open>shifts\<close>). Exceptions are the instructions that read
  the gas left, for which \<open>k\<close> must be zero. This relates the two interpreters, and two runs with
  different analyses.
\<close>

section \<open>States with another analysis and less gas\<close>

definition recast :: "int \<Rightarrow> 'b option \<Rightarrow> 'y \<Rightarrow> ('a, 'h, 'z) state \<Rightarrow> ('b, 'h, 'y) state" where
  "recast k a y s =
     \<lparr>gas_left = gas_left s - k, stack = stack s, memory = memory s, msg = msg s, host = host s,
      revision = revision s, return_data = return_data s, code = code s, status = status s,
      output_offset = output_offset s, output_size = output_size s, analysis = a, \<dots> = y\<rparr>"

lemma recast_sel [simp]:
  "gas_left (recast k a y s) = gas_left s - k" "stack (recast k a y s) = stack s"
  "memory (recast k a y s) = memory s" "msg (recast k a y s) = msg s" "host (recast k a y s) = host s"
  "revision (recast k a y s) = revision s" "return_data (recast k a y s) = return_data s"
  "code (recast k a y s) = code s" "status (recast k a y s) = status s"
  "output_offset (recast k a y s) = output_offset s" "output_size (recast k a y s) = output_size s"
  "analysis (recast k a y s) = a" "ExecutionState.more (recast k a y s) = y"
  by (simp_all add: recast_def)

lemma recast_upd [simp]:
  "(recast k a y s)\<lparr>stack := st\<rparr> = recast k a y (s\<lparr>stack := st\<rparr>)"
  "(recast k a y s)\<lparr>memory := m\<rparr> = recast k a y (s\<lparr>memory := m\<rparr>)"
  "(recast k a y s)\<lparr>host := h\<rparr> = recast k a y (s\<lparr>host := h\<rparr>)"
  "(recast k a y s)\<lparr>return_data := rd\<rparr> = recast k a y (s\<lparr>return_data := rd\<rparr>)"
  "(recast k a y s)\<lparr>status := c\<rparr> = recast k a y (s\<lparr>status := c\<rparr>)"
  "(recast k a y s)\<lparr>output_offset := i\<rparr> = recast k a y (s\<lparr>output_offset := i\<rparr>)"
  "(recast k a y s)\<lparr>output_size := i\<rparr> = recast k a y (s\<lparr>output_size := i\<rparr>)"
  "(recast k a y s)\<lparr>gas_left := g\<rparr> = recast k a y (s\<lparr>gas_left := g + k\<rparr>)"
  by (simp_all add: recast_def)

lemma recast_use_gas [simp]: "use_gas n (recast k a y s) = recast k a y (use_gas n s)"
  by (simp add: use_gas_def)

section \<open>Instructions that always succeed\<close>

lemma on_stack_recast: "on_stack f (recast k a y s) = map_option (recast k a y) (on_stack f s)"
  by (cases "f (stack s)") (simp_all add: on_stack_def)

lemma push_recast: "push_instr_value v (recast k a y s) = map_option (recast k a y) (push_instr_value v s)"
  by (simp add: push_instr_value_def on_stack_recast)

definition natural :: "int \<Rightarrow> 'b option \<Rightarrow> 'y \<Rightarrow> (('a, 'h, 'z) state \<Rightarrow> ('a, 'h, 'z) state option) \<Rightarrow>
    (('b, 'h, 'y) state \<Rightarrow> ('b, 'h, 'y) state option) \<Rightarrow> bool" where
  "natural k a y f g \<longleftrightarrow> (\<forall>s. g (recast k a y s) = map_option (recast k a y) (f s))"

lemma set_top_recast:
  "do { st \<leftarrow> stk_set (stack s) i v; Some (recast k a y (s\<lparr>stack := st\<rparr>)) } =
   map_option (recast k a y) (do { st \<leftarrow> stk_set (stack s) i v; Some (s\<lparr>stack := st\<rparr>) })"
  by (cases "stk_set (stack s) i v") simp_all

lemma calldataload_recast: "calldataload_instr L (recast k a y s) = map_option (recast k a y) (calldataload_instr L s)"
  by (cases "stk_top (stack s)") (simp_all add: calldataload_instr_def Let_def set_top_recast)

lemma blockhash_recast: "blockhash_instr L H (recast k a y s) = map_option (recast k a y) (blockhash_instr L H s)"
  by (cases "stk_top (stack s)") (simp_all add: blockhash_instr_def Let_def set_top_recast)

lemma natural_succeeding:
  assumes "impl L H n = Succeeding f" "impl L H n = Succeeding g" "n \<noteq> fn_gas"
  shows "natural k a y f g"
proof -
  have "impl L H n = Succeeding f \<Longrightarrow> impl L H n = Succeeding g \<Longrightarrow> g (recast k a y s) = map_option (recast k a y) (f s)" for s
    using assms(3)
    by (cases n)
      (auto simp: add_instr_def mul_instr_def sub_instr_def div_instr_def sdiv_instr_def mod_instr_def smod_instr_def
        addmod_instr_def mulmod_instr_def signextend_instr_def lt_instr_def gt_instr_def slt_instr_def sgt_instr_def
        eq_instr_def iszero_instr_def and_instr_def or_instr_def xor_instr_def not_instr_def byte_instr_def
        shl_instr_def shr_instr_def sar_instr_def pop_instr_def dup_instr_def swap_instr_def on_stack_recast
        push_recast address_instr_def origin_instr_def caller_instr_def callvalue_instr_def calldatasize_instr_def
        codesize_instr_def gasprice_instr_def returndatasize_instr_def coinbase_instr_def timestamp_instr_def
        number_instr_def difficulty_instr_def gaslimit_instr_def chainid_instr_def selfbalance_instr_def
        basefee_instr_def msize_instr_def jumpdest_instr_def calldataload_recast blockhash_recast)
  with assms show ?thesis by (simp add: natural_def)
qed

section \<open>Instructions that may fail\<close>

definition shifts ::
  "int \<Rightarrow> 'b option \<Rightarrow> 'y \<Rightarrow> (ivmc_status_code \<times> ('a, 'h, 'z) state) option \<Rightarrow>
   (ivmc_status_code \<times> ('b, 'h, 'y) state) option \<Rightarrow> bool" where
  "shifts k a y r r' \<longleftrightarrow> (\<forall>c s'. r = Some (c, s') \<longrightarrow>
     r' = Some (c, recast k a y s') \<or>
     0 < k \<and> (\<exists>t'. r' = Some (IVMC_OUT_OF_GAS, t')) \<and> (c = IVMC_SUCCESS \<longrightarrow> gas_left s' < k))"

text \<open>A continuation that does not add gas.\<close>

definition no_gain :: "(ivmc_status_code \<times> ('a, 'h, 'z) state) option \<Rightarrow> int \<Rightarrow> bool" where
  "no_gain r g \<longleftrightarrow> (\<forall>c s'. r = Some (c, s') \<longrightarrow> gas_left s' \<le> g)"

lemma shifts_Some: "shifts k a y (Some (c, s)) (Some (c, recast k a y s))"
  by (simp add: shifts_def)

lemma shifts_None: "shifts k a y None r"
  by (simp add: shifts_def)

lemma shifts_bind: "(\<And>x. m = Some x \<Longrightarrow> shifts k a y (f x) (g x)) \<Longrightarrow> shifts k a y (m \<bind> f) (m \<bind> g)"
  by (cases m) (simp_all add: shifts_None)

lemma shifts_bind2: "(\<And>x z. m = Some (x, z) \<Longrightarrow> shifts k a y (f x z) (g x z)) \<Longrightarrow>
  shifts k a y (do { (x, z) \<leftarrow> m; f x z }) (do { (x, z) \<leftarrow> m; g x z })"
  by (cases m) (auto simp: shifts_None)

lemma no_gain_bind: "(\<And>x. m = Some x \<Longrightarrow> no_gain (f x) g) \<Longrightarrow> no_gain (m \<bind> f) g"
  by (cases m) (simp_all add: no_gain_def)

lemma check_memory64_shift:
  assumes "check_memory64 s off sz = Some (ok, s')" "0 \<le> k"
  shows "check_memory64 (recast k a y s) off sz = Some (ok, recast k a y s') \<or>
    0 < k \<and> (\<exists>t. check_memory64 (recast k a y s) off sz = Some (False, t)) \<and> (ok \<longrightarrow> gas_left s' < k)"
  using assms
  by (auto simp: check_memory64_def grow_memory_def Let_def split: if_splits bind_splits)

lemma check_memory_shift:
  assumes "check_memory s off sz = Some (ok, s')" "0 \<le> k"
  shows "check_memory (recast k a y s) off sz = Some (ok, recast k a y s') \<or>
    0 < k \<and> (\<exists>t. check_memory (recast k a y s) off sz = Some (False, t)) \<and> (ok \<longrightarrow> gas_left s' < k)"
  using assms check_memory64_shift [of s off "to_u64 sz" ok s' k a y]
  by (auto simp: check_memory_def split: if_splits)

text \<open>The common shape: a memory check, out of gas when it fails, a continuation otherwise.\<close>

lemma shifts_checked:
  assumes m: "\<And>ok s'. m = Some (ok, s') \<Longrightarrow> m' = Some (ok, recast k a y s') \<or>
      0 < k \<and> (\<exists>t. m' = Some (False, t)) \<and> (ok \<longrightarrow> gas_left s' < k)"
    and f: "\<And>s'. m = Some (True, s') \<Longrightarrow> shifts k a y (f s') (g (recast k a y s'))"
    and gain: "\<And>s'. m = Some (True, s') \<Longrightarrow> no_gain (f s') (gas_left s')"
  shows "shifts k a y (do { (ok, s) \<leftarrow> m; if \<not> ok then Some (IVMC_OUT_OF_GAS, s) else f s })
    (do { (ok, s) \<leftarrow> m'; if \<not> ok then Some (IVMC_OUT_OF_GAS, s) else g s })"
proof (cases m)
  case None
  then show ?thesis by (simp add: shifts_None)
next
  case (Some x)
  obtain ok s' where x: "m = Some (ok, s')" using Some by (cases x) auto
  from m [OF x] show ?thesis
  proof
    assume "m' = Some (ok, recast k a y s')"
    with x f [of s'] show ?thesis by (cases ok) (simp_all add: shifts_Some)
  next
    assume *: "0 < k \<and> (\<exists>t. m' = Some (False, t)) \<and> (ok \<longrightarrow> gas_left s' < k)"
    show ?thesis
    proof (cases ok)
      case True
      with x gain [of s'] * show ?thesis by (fastforce simp: shifts_def no_gain_def)
    next
      case False
      with x * show ?thesis by (auto simp: shifts_def)
    qed
  qed
qed

lemmas shifts_check64 = shifts_checked [OF check_memory64_shift]
lemmas shifts_check = shifts_checked [OF check_memory_shift]

lemma shifts_charge:
  assumes "0 \<le> k" "\<And>s'. s' = use_gas n s \<Longrightarrow> shifts k a y (f s') (g (recast k a y s'))"
    "\<And>s'. s' = use_gas n s \<Longrightarrow> no_gain (f s') (gas_left s')"
  shows "shifts k a y (let s = use_gas n s in if gas_left s < 0 then Some (IVMC_OUT_OF_GAS, s) else f s)
    (let s = use_gas n (recast k a y s) in if gas_left s < 0 then Some (IVMC_OUT_OF_GAS, s) else g s)"
  using assms(2,3) [OF refl] assms(1)
  by (auto simp: Let_def shifts_Some shifts_def no_gain_def split: if_splits)

lemma charge_cold_account_shift:
  assumes "0 \<le> k"
  shows "charge_cold_account H cost x (recast k a y s) = map_sum (recast k a y) (recast k a y) (charge_cold_account H cost x s) \<or>
    0 < k \<and> (\<exists>t. charge_cold_account H cost x (recast k a y s) = Inl t) \<and>
      (\<exists>s'. charge_cold_account H cost x s = Inr s' \<and> gas_left s' < k)"
  using assms by (auto simp: charge_cold_account_def Let_def use_gas_def split: prod.splits)

lemma shifts_cold:
  assumes "0 \<le> k" "\<And>s'. shifts k a y (f s') (g (recast k a y s'))" "\<And>s'. no_gain (f s') (gas_left s')"
  shows "shifts k a y
    (case charge_cold_account H cost x s of Inl s \<Rightarrow> Some (IVMC_OUT_OF_GAS, s) | Inr s \<Rightarrow> f s)
    (case charge_cold_account H cost x (recast k a y s) of Inl s \<Rightarrow> Some (IVMC_OUT_OF_GAS, s) | Inr s \<Rightarrow> g s)"
proof (cases "charge_cold_account H cost x s")
  case (Inl s')
  with charge_cold_account_shift [OF assms(1), of H cost x a y s] show ?thesis by (auto simp: shifts_Some)
next
  case (Inr s')
  with charge_cold_account_shift [OF assms(1), of H cost x a y s] assms(2,3) show ?thesis
    by (fastforce simp: shifts_def no_gain_def)
qed

lemma no_gain_Some: "gas_left s \<le> g \<Longrightarrow> no_gain (Some (c, s)) g"
  by (simp add: no_gain_def)

lemma no_gain_if: "(b \<Longrightarrow> no_gain x g) \<Longrightarrow> (\<not> b \<Longrightarrow> no_gain y g) \<Longrightarrow> no_gain (if b then x else y) g"
  by simp

lemma shifts_if: "(b \<Longrightarrow> shifts k a y r r') \<Longrightarrow> (\<not> b \<Longrightarrow> shifts k a y q q') \<Longrightarrow>
  shifts k a y (if b then r else q) (if b then r' else q')"
  by simp

lemma no_gain_charge:
  "0 \<le> n \<Longrightarrow> no_gain (f (use_gas n s)) (gas_left s) \<Longrightarrow>
   no_gain (let s = use_gas n s in if gas_left s < 0 then Some (IVMC_OUT_OF_GAS, s) else f s) (gas_left s)"
  by (simp add: no_gain_def Let_def use_gas_def)

lemma shifts_set_top:
  "shifts k a y (do { st \<leftarrow> stk_set (stack s) i v; Some (c, s\<lparr>stack := st\<rparr>) })
     (do { st \<leftarrow> stk_set (stack s) i v; Some (c, recast k a y (s\<lparr>stack := st\<rparr>)) })"
  by (cases "stk_set (stack s) i v") (simp_all add: shifts_Some shifts_None)

lemma no_gain_set_top: "no_gain (do { st \<leftarrow> stk_set (stack s) i v; Some (c, s\<lparr>stack := st\<rparr>) }) (gas_left s)"
  by (cases "stk_set (stack s) i v") (simp_all add: no_gain_def)

lemma exp_shift: "0 \<le> k \<Longrightarrow> shifts k a y (exp_instr L s) (exp_instr L (recast k a y s))"
  by (cases "stack s"; cases "stk_top (tl (stack s))")
    (auto simp: exp_instr_def shifts_def Let_def use_gas_def stk_set_def split: if_splits)

lemma mload_shift: "0 \<le> k \<Longrightarrow> shifts k a y (mload_instr L s) (mload_instr L (recast k a y s))"
  unfolding mload_instr_def recast_sel
  by (rule shifts_bind, rule shifts_check64)
    (auto intro!: shifts_bind shifts_Some no_gain_bind no_gain_Some)

lemma mstore_shift: "0 \<le> k \<Longrightarrow> shifts k a y (mstore_instr L s) (mstore_instr L (recast k a y s))"
  unfolding mstore_instr_def recast_sel recast_upd
  by (rule shifts_bind2, rule shifts_bind2, rule shifts_check64)
    (auto intro!: shifts_bind shifts_Some no_gain_bind no_gain_Some)

lemma mstore8_shift: "0 \<le> k \<Longrightarrow> shifts k a y (mstore8_instr s) (mstore8_instr (recast k a y s))"
  unfolding mstore8_instr_def recast_sel recast_upd
  by (rule shifts_bind2, rule shifts_bind2, rule shifts_check64)
    (auto intro!: shifts_bind shifts_Some no_gain_bind no_gain_Some)

text \<open>The charge that follows a memory check, with the rest of the instruction behind it.\<close>

lemma keccak256_shift: "0 \<le> k \<Longrightarrow> shifts k a y (keccak256_instr L s) (keccak256_instr L (recast k a y s))"
  unfolding keccak256_instr_def recast_sel recast_upd
  apply (rule shifts_bind2, rule shifts_bind, rule shifts_check)
  subgoal by assumption
  subgoal by assumption
  subgoal unfolding Let_def
    by (rule shifts_charge [unfolded Let_def])
      (auto intro!: shifts_bind shifts_Some no_gain_bind no_gain_Some)
  subgoal unfolding Let_def
    by (rule no_gain_charge [unfolded Let_def])
      (auto intro!: no_gain_bind no_gain_Some simp: num_words_nonneg use_gas_def)
  done

lemma copy_zero_extended_shift:
  "0 \<le> k \<Longrightarrow> shifts k a y (copy_zero_extended data s) (copy_zero_extended data (recast k a y s))"
  unfolding copy_zero_extended_def recast_sel recast_upd
  apply (rule shifts_bind2, rule shifts_bind2, rule shifts_bind2, rule shifts_check)
  subgoal by assumption
  subgoal by assumption
  subgoal unfolding Let_def
    by (rule shifts_charge [unfolded Let_def])
      (auto intro!: shifts_bind shifts_Some no_gain_bind no_gain_Some)
  subgoal unfolding Let_def
    by (rule no_gain_charge [unfolded Let_def])
      (auto intro!: no_gain_bind no_gain_Some simp: num_words_nonneg use_gas_def)
  done

lemma returndatacopy_shift:
  "0 \<le> k \<Longrightarrow> shifts k a y (returndatacopy_instr s) (returndatacopy_instr (recast k a y s))"
  unfolding returndatacopy_instr_def recast_sel recast_upd
  apply (rule shifts_bind2, rule shifts_bind2, rule shifts_bind2, rule shifts_check)
  subgoal by assumption
  subgoal by assumption
  subgoal unfolding Let_def recast_sel
    apply (rule shifts_if, rule shifts_Some, rule shifts_if, rule shifts_Some)
    apply (rule shifts_charge [unfolded Let_def])
    subgoal by assumption
    subgoal by (auto intro!: shifts_bind shifts_Some)
    subgoal by (auto intro!: no_gain_bind no_gain_Some)
    done
  subgoal unfolding Let_def
    apply (rule no_gain_if, simp add: no_gain_def, rule no_gain_if, simp add: no_gain_def)
    apply (rule no_gain_charge [unfolded Let_def])
    subgoal by (simp add: num_words_nonneg)
    subgoal by (auto intro!: no_gain_bind no_gain_Some simp: use_gas_def num_words_nonneg)
    done
  done

lemma account_shift:
  assumes "0 \<le> k"
  shows "shifts k a y (balance_instr L H s) (balance_instr L H (recast k a y s))"
    "shifts k a y (extcodesize_instr L H s) (extcodesize_instr L H (recast k a y s))"
    "shifts k a y (extcodehash_instr L H s) (extcodehash_instr L H (recast k a y s))"
  unfolding balance_instr_def extcodesize_instr_def extcodehash_instr_def recast_sel Let_def
  by (rule shifts_bind, rule shifts_cold [OF assms];
      auto intro!: shifts_bind shifts_Some no_gain_bind no_gain_Some)+

lemma no_gain_cold:
  assumes "0 \<le> cost" "\<And>s'. gas_left s' \<le> g \<Longrightarrow> no_gain (f s') g" "gas_left s \<le> g"
  shows "no_gain (case charge_cold_account H cost x s of Inl s \<Rightarrow> Some (IVMC_OUT_OF_GAS, s) | Inr s \<Rightarrow> f s) g"
proof (rule charge_cold_account_cases [OF assms(1), of H x s])
  fix g' h
  assume "charge_cold_account H cost x s = Inl (s\<lparr>gas_left := g', host := h\<rparr>)" "g' \<le> gas_left s"
  with assms(3) show ?thesis by (simp add: no_gain_def)
next
  fix g' h
  assume "charge_cold_account H cost x s = Inr (s\<lparr>gas_left := g', host := h\<rparr>)" "g' \<le> gas_left s"
  with assms(2) [of "s\<lparr>gas_left := g', host := h\<rparr>"] assms(3) show ?thesis by simp
qed

lemma extcodecopy_shift:
  assumes "0 \<le> k"
  shows "shifts k a y (extcodecopy_instr L H s) (extcodecopy_instr L H (recast k a y s))"
  unfolding extcodecopy_instr_def recast_sel recast_upd Let_def
  apply (rule shifts_bind2, rule shifts_bind2, rule shifts_bind2, rule shifts_bind2,
      rule shifts_check)
  subgoal by assumption
  subgoal using assms by simp
  subgoal
    apply (rule shifts_charge [unfolded Let_def])
    subgoal using assms by simp
    subgoal using assms
      by (auto intro!: shifts_cold shifts_bind shifts_Some no_gain_bind no_gain_Some shifts_None shifts_if no_gain_if
          simp: no_gain_def [of None])
    subgoal by (rule no_gain_cold) (auto intro!: no_gain_bind no_gain_Some no_gain_if simp: no_gain_def [of None])
    done
  subgoal
    by (rule no_gain_charge [unfolded Let_def])
      (auto intro!: no_gain_cold no_gain_bind no_gain_Some no_gain_if simp: no_gain_def [of None] use_gas_def num_words_nonneg)
  done

lemma sload_shift:
  assumes "0 \<le> k"
  shows "shifts k a y (sload_instr L H s) (sload_instr L H (recast k a y s))"
proof (cases "stk_top (stack s)")
  case None
  then show ?thesis by (simp add: sload_instr_def shifts_None)
next
  case (Some x)
  obtain acc h where ah: "access_storage H (msg_recipient (msg s)) (be_store L x) (host s) = (acc, h)"
    by (cases "access_storage H (msg_recipient (msg s)) (be_store L x) (host s)")
  show ?thesis
    unfolding sload_instr_def recast_sel Some bind.bind_lunit ah Let_def prod.case
    apply (intro shifts_if)
    subgoal
      unfolding recast_upd
      by (rule shifts_charge [unfolded Let_def])
        (use assms in \<open>auto intro!: shifts_bind shifts_Some no_gain_bind no_gain_Some\<close>)
    subgoal by (auto intro!: shifts_bind shifts_Some)
    subgoal by (auto intro!: shifts_bind shifts_Some)
    done
qed

lemma check_memory_sint:
  assumes "check_memory s off sz = Some (True, t)"
  shows "0 \<le> sint (to_u64 sz)"
proof -
  have "sz = 0 \<or> limb sz 0 \<le> max_buffer_size"
    using assms by (auto simp: check_memory_def split: if_splits)
  then have "unat (to_u64 sz) < 2 ^ 63"
    by (auto simp: to_u64_def limb_def max_buffer_size_def word_le_nat_alt)
  then show ?thesis using sint_u64_small [of "to_u64 sz"] by simp
qed

lemma log_shift:
  assumes "0 \<le> k"
  shows "shifts k a y (log_instr L H n s) (log_instr L H n (recast k a y s))"
    unfolding log_instr_def recast_sel recast_upd
    apply (rule shifts_if, rule shifts_Some)
    apply (rule shifts_bind2, rule shifts_bind2, rule shifts_check)
    subgoal by assumption
    subgoal using assms by simp
    subgoal unfolding Let_def
      by (rule shifts_charge [unfolded Let_def])
        (use assms in \<open>auto intro!: shifts_bind shifts_Some no_gain_bind no_gain_Some\<close>)
    subgoal premises p unfolding Let_def
      by (rule no_gain_charge [unfolded Let_def])
        (use check_memory_sint [OF p(4)] in \<open>auto intro!: no_gain_bind no_gain_Some simp: use_gas_def\<close>)
    done

section \<open>Instructions that depend on the gas left\<close>

text \<open>For these the amount of gas must be the same; then the result is the same.\<close>

abbreviation recast0 :: "'b option \<Rightarrow> 'y \<Rightarrow> ('a, 'h, 'z) state \<Rightarrow> ('b, 'h, 'y) state" where
  "recast0 \<equiv> recast 0"

definition same0 ::
  "'b option \<Rightarrow> 'y \<Rightarrow> ('x \<times> ('a, 'h, 'z) state) option \<Rightarrow> ('x \<times> ('b, 'h, 'y) state) option \<Rightarrow> bool" where
  "same0 a y r r' \<longleftrightarrow> r' = map_option (map_prod id (recast0 a y)) r"

lemma same0_Some: "same0 a y (Some (c, s)) (Some (c, recast0 a y s))"
  by (simp add: same0_def)

lemma same0_bind: "(\<And>x. m = Some x \<Longrightarrow> same0 a y (f x) (g x)) \<Longrightarrow> same0 a y (m \<bind> f) (m \<bind> g)"
  by (cases m) (simp_all add: same0_def)

lemma same0_bind2: "(\<And>x z. m = Some (x, z) \<Longrightarrow> same0 a y (f x z) (g x z)) \<Longrightarrow>
  same0 a y (do { (x, z) \<leftarrow> m; f x z }) (do { (x, z) \<leftarrow> m; g x z })"
  by (cases m) (auto simp: same0_def)

lemma same0_state: "same0 a y m m' \<Longrightarrow> (\<And>x s. m = Some (x, s) \<Longrightarrow> same0 a y (f x s) (g x (recast0 a y s))) \<Longrightarrow>
  same0 a y (do { (x, s) \<leftarrow> m; f x s }) (do { (x, s) \<leftarrow> m'; g x s })"
  by (cases m) (auto simp: same0_def)

lemma same0_if: "(b \<Longrightarrow> same0 a y r r') \<Longrightarrow> (\<not> b \<Longrightarrow> same0 a y q q') \<Longrightarrow>
  same0 a y (if b then r else q) (if b then r' else q')"
  by simp

lemma check_memory_same0: "same0 a y (check_memory s off sz) (check_memory (recast0 a y s) off sz)"
proof -
  have grow: "same0 a y (grow_memory s n) (grow_memory (recast0 a y s) n)" for n
    by (cases "mem_grow (memory s) (nat (num_words n * 32))")
      (simp_all add: grow_memory_def same0_def Let_def)
  then show ?thesis
    by (auto simp: check_memory_def check_memory64_def Let_def same0_Some)
qed

lemma cold_same0: "charge_cold_account H cost x (recast0 a y s) =
  map_sum (recast0 a y) (recast0 a y) (charge_cold_account H cost x s)"
  using charge_cold_account_shift [of 0 H cost x a y s] by simp

lemma same0_cold:
  "(\<And>s. same0 a y (f s) (g (recast0 a y s))) \<Longrightarrow> same0 a y
    (case charge_cold_account H cost x s of Inl s \<Rightarrow> Some (c, s) | Inr s \<Rightarrow> f s)
    (case charge_cold_account H cost x (recast0 a y s) of Inl s \<Rightarrow> Some (c, s) | Inr s \<Rightarrow> g s)"
  by (simp add: cold_same0 same0_Some split: sum.split)

lemma sstore_same0: "same0 a y (sstore_instr L H s) (sstore_instr L H (recast0 a y s))"
  unfolding sstore_instr_def recast_sel
  by (auto intro!: same0_if same0_bind2 same0_Some simp: Let_def split: prod.split)

lemma return_same0: "same0 a y (return_instr c s) (return_instr c (recast0 a y s))"
  unfolding return_instr_def recast_sel
  by (auto intro!: same0_bind same0_state check_memory_same0 same0_if same0_Some)

lemma selfdestruct_same0: "same0 a y (selfdestruct_instr L H s) (selfdestruct_instr L H (recast0 a y s))"
  unfolding selfdestruct_instr_def recast_sel
  by (auto intro!: same0_if same0_bind same0_cold same0_Some simp: Let_def)

lemma call_host_same0:
  "same0 a y (call_host L H m v oo on s) (call_host L H m v oo on (recast0 a y s))"
  unfolding call_host_def recast_upd recast_sel Let_def
  by (auto intro!: same0_if same0_bind same0_Some split: prod.split)

lemma call_same0: "same0 a y (call_instr L H kind static s) (call_instr L H kind static (recast0 a y s))"
  unfolding call_instr_def recast_upd recast_sel Let_def
  apply (rule same0_bind2)+
  apply (rule same0_bind)
  apply (rule same0_cold)
  apply (rule same0_state [OF check_memory_same0])
  apply (rule same0_if, rule same0_Some)
  apply (rule same0_state [OF check_memory_same0])
  apply (rule same0_if, rule same0_Some)
  unfolding recast_sel recast_use_gas
  apply (rule same0_bind)
  apply (rule same0_if, rule same0_Some)
  apply simp
  apply (auto intro!: same0_Some call_host_same0 split: option.split)
  done

lemma create_host_same0:
  "same0 a y (create_host L H kind e salt c s) (create_host L H kind e salt c (recast0 a y s))"
  unfolding create_host_def recast_sel Let_def diff_0_right
  by (auto intro!: same0_if same0_bind same0_Some split: prod.split)

lemma create_same0: "same0 a y (create_instr L H kind s) (create_instr L H kind (recast0 a y s))"
  unfolding create_instr_def recast_upd recast_sel
  apply (rule same0_if, rule same0_Some)
  apply (rule same0_bind2)+
  apply (rule same0_state [OF check_memory_same0])
  apply (rule same0_if, rule same0_Some)
  unfolding recast_sel
  apply (rule same0_bind2)
  apply (cases "kind = IVMC_CREATE2"; simp only: if_True if_False simp_thms Let_def recast_upd recast_use_gas recast_sel diff_0_right)
   apply (rule same0_if, rule same0_Some)
   apply (rule same0_bind)
   apply (rule same0_if, rule same0_Some, rule same0_if, rule same0_Some)
   apply (rule same0_bind, rule create_host_same0)
  apply (rule same0_bind)
  apply (rule same0_if, rule same0_Some, rule same0_if, rule same0_Some)
  apply (rule same0_bind, rule create_host_same0)
  done

section \<open>Every instruction\<close>

text \<open>The instructions whose effect depends on the gas left.\<close>

fun reads_gas :: "instr_name \<Rightarrow> bool" where
  "reads_gas fn_gas = True"
| "reads_gas fn_sstore = True"
| "reads_gas (fn_call kind static) = True"
| "reads_gas (fn_create kind) = True"
| "reads_gas n = False"

lemma impl_shifts:
  assumes "impl L H n = MayFail f" "impl L H n = MayFail g" "\<not> reads_gas n" "0 \<le> k"
  shows "shifts k a y (f s) (g (recast k a y s))"
  using assms
  by (cases n)
    (auto simp: exp_shift mload_shift mstore_shift mstore8_shift keccak256_shift calldatacopy_instr_def
      codecopy_instr_def copy_zero_extended_shift returndatacopy_shift account_shift extcodecopy_shift sload_shift log_shift)

lemma shifts0_same0: "shifts 0 a y r r' \<Longrightarrow> r \<noteq> None \<Longrightarrow> same0 a y r r'"
  by (auto simp: shifts_def same0_def)

lemma impl_same0_gas: "gas_instr L (recast0 a y s) = map_option (recast0 a y) (gas_instr L s)"
  by (simp add: gas_instr_def push_recast)

lemma impl_same0_reads:
  assumes "impl L H n = MayFail f" "impl L H n = MayFail g" "reads_gas n"
  shows "same0 a y (f s) (g (recast0 a y s))"
  using assms by (cases n) (auto simp: sstore_same0 call_same0 create_same0)

lemma impl_same0_terminating:
  assumes "impl L H n = Terminating f" "impl L H n = Terminating g"
  shows "same0 a y (f s) (g (recast0 a y s))"
  using assms
  by (cases n) (auto simp: return_same0 selfdestruct_same0 stop_instr_def invalid_instr_def same0_Some)

end
