(* ===== verification/Advanced_Analysis.thy ===== *)
theory Advanced_Analysis
  imports Dispatch
begin

text \<open>
  The code analysis of the Advanced interpreter (\<^verbatim>\<open>analysis.hpp\<close>, \<^verbatim>\<open>analysis.cpp\<close>, the opcode tables
  of \<^verbatim>\<open>instructions.cpp\<close>): the code is translated into a table of instructions with arguments, cut
  into basic blocks. The first instruction of a block carries the gas cost and the stack
  requirements of the whole block.

  A function pointer is the name of the function; the pointer to a push value is an index into
  \<open>push_values\<close> (the vector never reallocates: it reserves more than it ever holds). The union
  \<open>instruction_argument\<close> is a datatype, and reading another member than the one written is
  undefined behaviour.
\<close>

section \<open>Limits\<close>

definition max_code_size :: nat where
  "max_code_size = 0x6000"

definition max_instruction_base_cost :: int where
  "max_instruction_base_cost = 32000"

definition max_instruction_stack_increase :: int where
  "max_instruction_stack_increase = 1"

section \<open>Data\<close>

record block_info =
  bi_gas_cost :: int
  bi_stack_req :: int
  bi_stack_max_growth :: int

definition no_block :: block_info where
  "no_block = \<lparr>bi_gas_cost = 0, bi_stack_req = 0, bi_stack_max_growth = 0\<rparr>"

datatype instruction_argument =
    Arg_number int
  | Arg_push_value nat
  | Arg_small_push_value u64
  | Arg_block block_info

datatype instruction_exec_fn =
    Fn_op instr_name | Fn_stop | Fn_sstore | Fn_jump | Fn_jumpi | Fn_pc | Fn_gas | Fn_push_small
  | Fn_push_full | Fn_invalid | Fn_return ivmc_status_code | Fn_call ivmc_call_kind bool
  | Fn_create ivmc_call_kind | Fn_undefined | Fn_selfdestruct | Fn_beginblock

record op_table_entry =
  entry_fn :: "instruction_exec_fn option"
  entry_gas_cost :: int
  entry_stack_req :: int
  entry_stack_change :: int

record instruction =
  instr_exec :: "instruction_exec_fn option"
  instr_arg :: instruction_argument

text \<open>The constructor: the union is initialised with an empty block.\<close>

definition new_instruction :: "instruction_exec_fn option \<Rightarrow> instruction" where
  "new_instruction f = \<lparr>instr_exec = f, instr_arg = Arg_block no_block\<rparr>"

record AdvancedCodeAnalysis =
  instrs :: "instruction list"
  push_values :: "uint256 list"
  jumpdest_offsets :: "int list"
  jumpdest_targets :: "int list"

section \<open>The opcode table\<close>

abbreviation (input) OPX_BEGINBLOCK :: nat where "OPX_BEGINBLOCK \<equiv> OP_JUMPDEST"

definition instruction_implementations :: "nat \<Rightarrow> instruction_exec_fn option" where
  "instruction_implementations =
     (set_range OP_LOG0 OP_LOG4 (\<lambda>op. Some (Fn_op (fn_log (op - OP_LOG0))))
     (set_range OP_SWAP1 OP_SWAP16 (\<lambda>op. Some (Fn_op (fn_swap (op - OP_SWAP1 + 1))))
     (set_range OP_DUP1 OP_DUP16 (\<lambda>op. Some (Fn_op (fn_dup (op - OP_DUP1 + 1))))
     (set_range OP_PUSH9 OP_PUSH32 (\<lambda>op. Some Fn_push_full)
     (set_range OP_PUSH1 OP_PUSH8 (\<lambda>op. Some Fn_push_small)
     ((\<lambda>op. None)(
      OP_STOP \<mapsto> Fn_stop,
      OP_ADD \<mapsto> Fn_op fn_add,
      OP_MUL \<mapsto> Fn_op fn_mul,
      OP_SUB \<mapsto> Fn_op fn_sub,
      OP_DIV \<mapsto> Fn_op fn_div,
      OP_SDIV \<mapsto> Fn_op fn_sdiv,
      OP_MOD \<mapsto> Fn_op fn_mod,
      OP_SMOD \<mapsto> Fn_op fn_smod,
      OP_ADDMOD \<mapsto> Fn_op fn_addmod,
      OP_MULMOD \<mapsto> Fn_op fn_mulmod,
      OP_EXP \<mapsto> Fn_op fn_exp,
      OP_SIGNEXTEND \<mapsto> Fn_op fn_signextend,
      OP_LT \<mapsto> Fn_op fn_lt,
      OP_GT \<mapsto> Fn_op fn_gt,
      OP_SLT \<mapsto> Fn_op fn_slt,
      OP_SGT \<mapsto> Fn_op fn_sgt,
      OP_EQ \<mapsto> Fn_op fn_eq,
      OP_ISZERO \<mapsto> Fn_op fn_iszero,
      OP_AND \<mapsto> Fn_op fn_and,
      OP_OR \<mapsto> Fn_op fn_or,
      OP_XOR \<mapsto> Fn_op fn_xor,
      OP_NOT \<mapsto> Fn_op fn_not,
      OP_BYTE \<mapsto> Fn_op fn_byte,
      OP_SHL \<mapsto> Fn_op fn_shl,
      OP_SHR \<mapsto> Fn_op fn_shr,
      OP_SAR \<mapsto> Fn_op fn_sar,
      OP_KECCAK256 \<mapsto> Fn_op fn_keccak256,
      OP_ADDRESS \<mapsto> Fn_op fn_address,
      OP_BALANCE \<mapsto> Fn_op fn_balance,
      OP_ORIGIN \<mapsto> Fn_op fn_origin,
      OP_CALLER \<mapsto> Fn_op fn_caller,
      OP_CALLVALUE \<mapsto> Fn_op fn_callvalue,
      OP_CALLDATALOAD \<mapsto> Fn_op fn_calldataload,
      OP_CALLDATASIZE \<mapsto> Fn_op fn_calldatasize,
      OP_CALLDATACOPY \<mapsto> Fn_op fn_calldatacopy,
      OP_CODESIZE \<mapsto> Fn_op fn_codesize,
      OP_CODECOPY \<mapsto> Fn_op fn_codecopy,
      OP_GASPRICE \<mapsto> Fn_op fn_gasprice,
      OP_EXTCODESIZE \<mapsto> Fn_op fn_extcodesize,
      OP_EXTCODECOPY \<mapsto> Fn_op fn_extcodecopy,
      OP_RETURNDATASIZE \<mapsto> Fn_op fn_returndatasize,
      OP_RETURNDATACOPY \<mapsto> Fn_op fn_returndatacopy,
      OP_EXTCODEHASH \<mapsto> Fn_op fn_extcodehash,
      OP_BLOCKHASH \<mapsto> Fn_op fn_blockhash,
      OP_COINBASE \<mapsto> Fn_op fn_coinbase,
      OP_TIMESTAMP \<mapsto> Fn_op fn_timestamp,
      OP_NUMBER \<mapsto> Fn_op fn_number,
      OP_DIFFICULTY \<mapsto> Fn_op fn_difficulty,
      OP_GASLIMIT \<mapsto> Fn_op fn_gaslimit,
      OP_CHAINID \<mapsto> Fn_op fn_chainid,
      OP_SELFBALANCE \<mapsto> Fn_op fn_selfbalance,
      OP_BASEFEE \<mapsto> Fn_op fn_basefee,
      OP_POP \<mapsto> Fn_op fn_pop,
      OP_MLOAD \<mapsto> Fn_op fn_mload,
      OP_MSTORE \<mapsto> Fn_op fn_mstore,
      OP_MSTORE8 \<mapsto> Fn_op fn_mstore8,
      OP_SLOAD \<mapsto> Fn_op fn_sload,
      OP_SSTORE \<mapsto> Fn_sstore,
      OP_JUMP \<mapsto> Fn_jump,
      OP_JUMPI \<mapsto> Fn_jumpi,
      OP_PC \<mapsto> Fn_pc,
      OP_MSIZE \<mapsto> Fn_op fn_msize,
      OP_GAS \<mapsto> Fn_gas,
      OPX_BEGINBLOCK \<mapsto> Fn_beginblock)))))))(
      OP_CREATE \<mapsto> Fn_create IVMC_CREATE,
      OP_CALL \<mapsto> Fn_call IVMC_CALL False,
      OP_CALLCODE \<mapsto> Fn_call IVMC_CALLCODE False,
      OP_RETURN \<mapsto> Fn_return IVMC_SUCCESS,
      OP_DELEGATECALL \<mapsto> Fn_call IVMC_DELEGATECALL False,
      OP_CREATE2 \<mapsto> Fn_create IVMC_CREATE2,
      OP_STATICCALL \<mapsto> Fn_call IVMC_CALL True,
      OP_REVERT \<mapsto> Fn_return IVMC_REVERT,
      OP_INVALID \<mapsto> Fn_invalid,
      OP_SELFDESTRUCT \<mapsto> Fn_selfdestruct)"

definition get_op_table :: "ivmc_revision \<Rightarrow> nat \<Rightarrow> op_table_entry" where
  "get_op_table r i =
     (if gas_costs r i = undefined_cost
      then \<lparr>entry_fn = Some Fn_undefined, entry_gas_cost = 0, entry_stack_req = 0, entry_stack_change = 0\<rparr>
      else \<lparr>entry_fn = instruction_implementations i, entry_gas_cost = gas_costs r i,
            entry_stack_req = stack_height_required (traits i),
            entry_stack_change = stack_height_change (traits i)\<rparr>)"

section \<open>Blocks\<close>

definition clamp :: "int \<Rightarrow> int \<Rightarrow> int" where
  "clamp mx x = (if x \<le> mx then x else mx)"

record block_analysis =
  ba_gas_cost :: int
  ba_stack_req :: int
  ba_stack_max_growth :: int
  ba_stack_change :: int
  begin_block_index :: nat

definition new_block :: "nat \<Rightarrow> block_analysis" where
  "new_block index = \<lparr>ba_gas_cost = 0, ba_stack_req = 0, ba_stack_max_growth = 0, ba_stack_change = 0,
     begin_block_index = index\<rparr>"

text \<open>The limits are those of \<^verbatim>\<open>uint32_t\<close> and \<^verbatim>\<open>int16_t\<close>.\<close>

definition close :: "block_analysis \<Rightarrow> block_info" where
  "close b = \<lparr>bi_gas_cost = clamp (2 ^ 32 - 1) (ba_gas_cost b),
     bi_stack_req = clamp (2 ^ 15 - 1) (ba_stack_req b),
     bi_stack_max_growth = clamp (2 ^ 15 - 1) (ba_stack_max_growth b)\<rparr>"

definition add_to_block :: "op_table_entry \<Rightarrow> block_analysis \<Rightarrow> block_analysis" where
  "add_to_block info b =
     (let b = b\<lparr>ba_stack_req := max (ba_stack_req b) (entry_stack_req info - ba_stack_change b)\<rparr>;
          b = b\<lparr>ba_stack_change := ba_stack_change b + entry_stack_change info\<rparr>;
          b = b\<lparr>ba_stack_max_growth := max (ba_stack_max_growth b) (ba_stack_change b)\<rparr>
      in b\<lparr>ba_gas_cost := ba_gas_cost b + entry_gas_cost info\<rparr>)"

section \<open>Push data\<close>

definition to_int32 :: "int \<Rightarrow> int" where
  "to_int32 x = signed_take_bit 31 x"

text \<open>\<^verbatim>\<open>ANY_SMALL_PUSH\<close>, \<^verbatim>\<open>ANY_LARGE_PUSH\<close>\<close>

definition any_small_push :: "nat \<Rightarrow> bool" where
  "any_small_push op \<longleftrightarrow> OP_PUSH1 \<le> op \<and> op \<le> OP_PUSH8"

definition any_large_push :: "nat \<Rightarrow> bool" where
  "any_large_push op \<longleftrightarrow> OP_PUSH9 \<le> op \<and> op \<le> OP_PUSH32"

text \<open>
  The copy loops over the push data that is there. The last decrement of the position, after
  the last byte, may wrap around in the source; its value is not used.
\<close>

fun small_push_loop :: "bytes \<Rightarrow> nat \<Rightarrow> u64 \<Rightarrow> u64" where
  "small_push_loop [] insert_bit_pos v = v"
| "small_push_loop (b # bs) insert_bit_pos v =
     small_push_loop bs (insert_bit_pos - 8) (v OR push_bit insert_bit_pos (ucast b))"

fun large_push_loop :: "bytes \<Rightarrow> nat \<Rightarrow> bytes \<Rightarrow> bytes" where
  "large_push_loop [] insert_pos vs = vs"
| "large_push_loop (b # bs) insert_pos vs = large_push_loop bs (insert_pos - 1) (vs[insert_pos := b])"

text \<open>The number whose bytes in memory, least significant first, are the given ones.\<close>

definition le_load :: "bytes \<Rightarrow> uint256" where
  "le_load bs = of_nat (be_value (rev bs))"

section \<open>The analysis\<close>

text \<open>\<^verbatim>\<open>analysis.instrs.back().arg = a\<close>\<close>

definition set_last_arg :: "instruction_argument \<Rightarrow> AdvancedCodeAnalysis \<Rightarrow> AdvancedCodeAnalysis" where
  "set_last_arg a an =
     an\<lparr>instrs := butlast (instrs an) @ [(last (instrs an))\<lparr>instr_arg := a\<rparr>]\<rparr>"

definition is_terminator :: "nat \<Rightarrow> bool" where
  "is_terminator op \<longleftrightarrow> op \<in> {OP_JUMP, OP_JUMPI, OP_STOP, OP_RETURN, OP_REVERT, OP_SELFDESTRUCT}"

text \<open>The \<^verbatim>\<open>switch\<close> of the loop; \<open>pos\<close> is the position after the opcode.\<close>

definition analyze_switch ::
  "bytes \<Rightarrow> nat \<Rightarrow> nat \<Rightarrow> int \<Rightarrow> AdvancedCodeAnalysis \<Rightarrow> nat \<times> AdvancedCodeAnalysis" where
  "analyze_switch c opcode pos block_cost an =
     (let push_size = opcode - OP_PUSH1 + 1;
          push_end = min (pos + push_size) (length c);
          data = take (push_end - pos) (drop pos c)
      in if any_small_push opcode
         then (push_end, set_last_arg (Arg_small_push_value (small_push_loop data ((push_size - 1) * 8) 0)) an)
         else if any_large_push opcode
         then (push_end,
               (set_last_arg (Arg_push_value (length (push_values an))) an)
                 \<lparr>push_values := push_values an @
                    [le_load (large_push_loop data (push_size - 1) (replicate 32 0))]\<rparr>)
         else if opcode \<in> {OP_GAS, OP_CALL, OP_CALLCODE, OP_DELEGATECALL, OP_STATICCALL, OP_CREATE,
                            OP_CREATE2, OP_SSTORE}
         then (pos, set_last_arg (Arg_number block_cost) an)
         else if opcode = OP_PC then (pos, set_last_arg (Arg_number (int pos - 1)) an)
         else (pos, an))"

definition save_block :: "block_analysis \<Rightarrow> AdvancedCodeAnalysis \<Rightarrow> AdvancedCodeAnalysis" where
  "save_block b an =
     an\<lparr>instrs := (instrs an)[begin_block_index b :=
                     (instrs an ! begin_block_index b)\<lparr>instr_arg := Arg_block (close b)\<rparr>]\<rparr>"

text \<open>One iteration of the loop.\<close>

definition analyze_step ::
  "(nat \<Rightarrow> op_table_entry) \<Rightarrow> bytes \<Rightarrow> nat \<Rightarrow> AdvancedCodeAnalysis \<Rightarrow> block_analysis \<Rightarrow>
   nat \<times> AdvancedCodeAnalysis \<times> block_analysis" where
  "analyze_step op_tbl c code_pos an block =
     (let opcode = unat (c ! code_pos);
          pos = code_pos + 1;
          info = op_tbl opcode;
          block = add_to_block info block;
          an = (if opcode = OP_JUMPDEST
                then an\<lparr>jumpdest_offsets := jumpdest_offsets an @ [to_int32 (int pos - 1)],
                        jumpdest_targets := jumpdest_targets an @ [to_int32 (int (length (instrs an)) - 1)]\<rparr>
                else an\<lparr>instrs := instrs an @ [new_instruction (entry_fn info)]\<rparr>);
          (pos, an) = analyze_switch c opcode pos (ba_gas_cost block) an
      in if is_terminator opcode \<or> (pos \<noteq> length c \<and> unat (c ! pos) = OP_JUMPDEST)
         then let an = save_block block an;
                  an = an\<lparr>instrs := instrs an @ [new_instruction (entry_fn (op_tbl OPX_BEGINBLOCK))]\<rparr>
              in (pos, an, new_block (length (instrs an) - 1))
         else (pos, an, block))"

text \<open>The position after the opcode and its push data.\<close>

definition after_push :: "bytes \<Rightarrow> nat \<Rightarrow> nat" where
  "after_push c p = min (next_pos c p) (length c)"

lemma analyze_switch_pos:
  assumes "p < length c"
  shows "fst (analyze_switch c (unat (c ! p)) (p + 1) k an) = after_push c p"
  using assms
  by (auto simp: analyze_switch_def after_push_def next_pos_def push_len_def is_push_def any_small_push_def
      any_large_push_def Let_def)

lemma analyze_step_pos: "p < length c \<Longrightarrow> fst (analyze_step op_tbl c p an b) = after_push c p"
  unfolding analyze_step_def Let_def
  by (simp only: case_prod_beta fst_conv if_distrib [of fst] if_cancel analyze_switch_pos)

lemma after_push_gt: "p < length c \<Longrightarrow> p < after_push c p"
  using next_pos_gt [of p c] by (simp add: after_push_def)

text \<open>The loop. The position never passes the end of the code (\<open>analyze_step_pos\<close>).\<close>

function analyze_loop ::
  "(nat \<Rightarrow> op_table_entry) \<Rightarrow> bytes \<Rightarrow> nat \<Rightarrow> AdvancedCodeAnalysis \<Rightarrow> block_analysis \<Rightarrow>
   AdvancedCodeAnalysis \<times> block_analysis" where
  "analyze_loop op_tbl c pos an block =
     (if pos < length c then
        let (pos', an', block') = analyze_step op_tbl c pos an block in analyze_loop op_tbl c pos' an' block'
      else (an, block))"
  by pat_completeness auto
termination
proof (relation "measure (\<lambda>(t, c, pos, an, b). length c - pos)")
  fix t c pos an b x pos' y an' block'
  assume a: "pos < length (c :: bytes)" "x = analyze_step t c pos an b" "(pos', y) = x" "(an', block') = y"
  then have "pos' = after_push c pos" using analyze_step_pos [of pos c t an b] by (metis fst_conv)
  with a(1) after_push_gt [of pos c]
  show "((t, c, pos', an', block'), t, c, pos, an, b) \<in> measure (\<lambda>(t, c, pos, an, b). length c - pos)" by simp
qed simp

declare analyze_loop.simps [simp del]

definition analyze :: "ivmc_revision \<Rightarrow> bytes \<Rightarrow> AdvancedCodeAnalysis" where
  "analyze r c =
     (let op_tbl = get_op_table r;
          an = \<lparr>instrs = [new_instruction (entry_fn (op_tbl OPX_BEGINBLOCK))], push_values = [],
                jumpdest_offsets = [], jumpdest_targets = []\<rparr>;
          (an, block) = analyze_loop op_tbl c 0 an (new_block 0);
          an = save_block block an
      in an\<lparr>instrs := instrs an @ [new_instruction (entry_fn (op_tbl OP_STOP))]\<rparr>)"

section \<open>Jump destinations\<close>

text \<open>
  \<^verbatim>\<open>std::lower_bound\<close> of the standard library, by its specification: the first position of a sorted
  range whose element is not smaller than the value. That the ranges are sorted is \<open>jumps_sorted\<close>.
\<close>

definition lower_bound :: "int list \<Rightarrow> int \<Rightarrow> nat" where
  "lower_bound xs v = length (takeWhile (\<lambda>x. x < v) xs)"

definition find_jumpdest :: "AdvancedCodeAnalysis \<Rightarrow> int \<Rightarrow> int" where
  "find_jumpdest an offset =
     (let n = length (jumpdest_offsets an);
          it = lower_bound (jumpdest_offsets an) offset
      in if it \<noteq> n \<and> jumpdest_offsets an ! it = offset then jumpdest_targets an ! it else - 1)"

end
