(* ===== verification/Advanced.thy ===== *)
theory Advanced
  imports Advanced_Analysis Baseline
begin

text \<open>
  The Advanced interpreter: the instruction functions of \<^verbatim>\<open>instructions.cpp\<close> over the analysed code
  and the loop of \<^verbatim>\<open>execution.cpp\<close>. The state extends \<^verbatim>\<open>ExecutionState\<close> with the gas cost of the
  current block. A pointer to an instruction is its index in the table; the null pointer ends the
  loop. A result is the new state and the next index.
\<close>

section \<open>The state\<close>

record ('a, 'h) AdvancedExecutionState = "('a, 'h) ExecutionState" +
  current_block_cost :: int

type_synonym 'h adv_state = "(AdvancedCodeAnalysis, 'h) AdvancedExecutionState"

type_synonym 'h adv_result = "('h adv_state \<times> nat option) option"

definition new_adv_state :: "ivmc_message \<Rightarrow> ivmc_revision \<Rightarrow> 'h \<Rightarrow> bytes \<Rightarrow> 'h adv_state" where
  "new_adv_state m r h c = ExecutionState.extend (new_state m r h c) \<lparr>current_block_cost = 0\<rparr>"

definition exit :: "ivmc_status_code \<Rightarrow> 'h adv_state \<Rightarrow> 'h adv_state \<times> nat option" where
  "exit status_code s = (s\<lparr>status := status_code\<rparr>, None)"

definition reset_adv_state ::
  "ivmc_message \<Rightarrow> ivmc_revision \<Rightarrow> 'h \<Rightarrow> bytes \<Rightarrow> 'h adv_state \<Rightarrow> 'h adv_state" where
  "reset_adv_state m r h c s = (reset_state m r h c s)\<lparr>analysis := None, current_block_cost := 0\<rparr>"

section \<open>Instruction functions\<close>

text \<open>The members of the argument union.\<close>

fun arg_number :: "instruction_argument \<Rightarrow> int option" where
  "arg_number (Arg_number n) = Some n"
| "arg_number _ = None"

fun arg_push_value :: "instruction_argument \<Rightarrow> nat option" where
  "arg_push_value (Arg_push_value i) = Some i"
| "arg_push_value _ = None"

fun arg_small_push_value :: "instruction_argument \<Rightarrow> u64 option" where
  "arg_small_push_value (Arg_small_push_value v) = Some v"
| "arg_small_push_value _ = None"

fun arg_block :: "instruction_argument \<Rightarrow> block_info option" where
  "arg_block (Arg_block b) = Some b"
| "arg_block _ = None"

text \<open>The two wrappers \<^verbatim>\<open>op<instr_fn>\<close>, by the signature of the wrapped function.\<close>

fun op_wrap :: "'h adv_state instr_fn \<Rightarrow> nat \<Rightarrow> 'h adv_state \<Rightarrow> 'h adv_result" where
  "op_wrap (Succeeding f) j s = do { s \<leftarrow> f s; Some (s, Some (j + 1)) }"
| "op_wrap (MayFail f) j s = do {
     (status_code, s) \<leftarrow> f s;
     Some (if status_code \<noteq> IVMC_SUCCESS then exit status_code s else (s, Some (j + 1))) }"
| "op_wrap _ j s = None"

definition op_stop :: "'h adv_state \<Rightarrow> 'h adv_result" where
  "op_stop s = Some (exit IVMC_SUCCESS s)"

text \<open>
  The instructions that depend on the exact gas left: \<^verbatim>\<open>op_sstore\<close>, \<^verbatim>\<open>op_call\<close> and \<^verbatim>\<open>op_create\<close> give the
  gas of the rest of the block back for the time of the instruction.
\<close>

definition with_exact_gas ::
  "('h adv_state \<Rightarrow> (ivmc_status_code \<times> 'h adv_state) option) \<Rightarrow> instruction_argument \<Rightarrow> nat \<Rightarrow> 'h adv_state \<Rightarrow> 'h adv_result" where
  "with_exact_gas f arg j s = do {
     number \<leftarrow> arg_number arg;
     let gas_left_correction = current_block_cost s - number in do {
       (st, s) \<leftarrow> f (s\<lparr>gas_left := gas_left s + gas_left_correction\<rparr>);
       if st \<noteq> IVMC_SUCCESS then Some (exit st s)
       else
         let s = s\<lparr>gas_left := gas_left s - gas_left_correction\<rparr> in
         if gas_left s < 0 then Some (exit IVMC_OUT_OF_GAS s) else Some (s, Some (j + 1))
     } }"

definition op_sstore :: "lib \<Rightarrow> 'h host_interface \<Rightarrow> instruction_argument \<Rightarrow> nat \<Rightarrow> 'h adv_state \<Rightarrow> 'h adv_result" where
  "op_sstore L H = with_exact_gas (sstore_instr L H)"

definition op_call ::
  "lib \<Rightarrow> 'h host_interface \<Rightarrow> ivmc_call_kind \<Rightarrow> bool \<Rightarrow> instruction_argument \<Rightarrow> nat \<Rightarrow> 'h adv_state \<Rightarrow> 'h adv_result" where
  "op_call L H kind static = with_exact_gas (call_instr L H kind static)"

definition op_create ::
  "lib \<Rightarrow> 'h host_interface \<Rightarrow> ivmc_call_kind \<Rightarrow> instruction_argument \<Rightarrow> nat \<Rightarrow> 'h adv_state \<Rightarrow> 'h adv_result" where
  "op_create L H kind = with_exact_gas (create_instr L H kind)"

definition op_jump :: "'h adv_state \<Rightarrow> 'h adv_result" where
  "op_jump s = do {
     (dst, st) \<leftarrow> stk_pop (stack s);
     a \<leftarrow> analysis s;
     let s = s\<lparr>stack := st\<rparr>;
         pc = find_jumpdest a (int (unat dst))
     in if 2 ^ 31 - 1 < unat dst \<or> pc < 0 then Some (exit IVMC_BAD_JUMP_DESTINATION s)
        else if length (instrs a) \<le> nat pc then None
        else Some (s, Some (nat pc)) }"

definition op_jumpi :: "nat \<Rightarrow> 'h adv_state \<Rightarrow> 'h adv_result" where
  "op_jumpi j s = do {
     cond \<leftarrow> stk_get (stack s) 1;
     (s, q) \<leftarrow> (if cond \<noteq> 0 then op_jump s
                else do { (_, st) \<leftarrow> stk_pop (stack s); Some (s\<lparr>stack := st\<rparr>, Some (j + 1)) });
     (_, st) \<leftarrow> stk_pop (stack s);
     Some (s\<lparr>stack := st\<rparr>, q) }"

definition op_pc :: "lib \<Rightarrow> instruction_argument \<Rightarrow> nat \<Rightarrow> 'h adv_state \<Rightarrow> 'h adv_result" where
  "op_pc L arg j s = do {
     number \<leftarrow> arg_number arg;
     s \<leftarrow> push_instr_value (intx_of_int64 L number) s;
     Some (s, Some (j + 1)) }"

definition op_gas :: "instruction_argument \<Rightarrow> nat \<Rightarrow> 'h adv_state \<Rightarrow> 'h adv_result" where
  "op_gas arg j s = do {
     number \<leftarrow> arg_number arg;
     let correction = current_block_cost s - number;
         gas = word_of_int (gas_left s + correction) :: u64
     in do { s \<leftarrow> push_instr_value (ucast gas) s; Some (s, Some (j + 1)) } }"

definition op_push_small :: "instruction_argument \<Rightarrow> nat \<Rightarrow> 'h adv_state \<Rightarrow> 'h adv_result" where
  "op_push_small arg j s = do {
     v \<leftarrow> arg_small_push_value arg;
     s \<leftarrow> push_instr_value (ucast v) s;
     Some (s, Some (j + 1)) }"

definition op_push_full :: "instruction_argument \<Rightarrow> nat \<Rightarrow> 'h adv_state \<Rightarrow> 'h adv_result" where
  "op_push_full arg j s = do {
     i \<leftarrow> arg_push_value arg;
     a \<leftarrow> analysis s;
     if length (push_values a) \<le> i then None
     else do { s \<leftarrow> push_instr_value (push_values a ! i) s; Some (s, Some (j + 1)) } }"

definition op_invalid :: "'h adv_state \<Rightarrow> 'h adv_result" where
  "op_invalid s = Some (exit IVMC_INVALID_INSTRUCTION s)"

definition op_return :: "ivmc_status_code \<Rightarrow> 'h adv_state \<Rightarrow> 'h adv_result" where
  "op_return status_code s = do {
     off \<leftarrow> stk_get (stack s) 0;
     size \<leftarrow> stk_get (stack s) 1;
     (ok, s) \<leftarrow> check_memory s off size;
     if \<not> ok then Some (exit IVMC_OUT_OF_GAS s)
     else
       let s = s\<lparr>output_size := to_size size\<rparr>;
           s = (if output_size s \<noteq> 0 then s\<lparr>output_offset := to_size off\<rparr> else s)
       in Some (exit status_code s) }"

definition op_undefined :: "'h adv_state \<Rightarrow> 'h adv_result" where
  "op_undefined s = Some (exit IVMC_UNDEFINED_INSTRUCTION s)"

definition op_selfdestruct :: "lib \<Rightarrow> 'h host_interface \<Rightarrow> 'h adv_state \<Rightarrow> 'h adv_result" where
  "op_selfdestruct L H s = do { (st, s) \<leftarrow> selfdestruct_instr L H s; Some (exit st s) }"

definition opx_beginblock :: "instruction_argument \<Rightarrow> nat \<Rightarrow> 'h adv_state \<Rightarrow> 'h adv_result" where
  "opx_beginblock arg j s = do {
     block \<leftarrow> arg_block arg;
     let s = s\<lparr>gas_left := gas_left s - bi_gas_cost block\<rparr>;
         stack_size = int (length (stack s))
     in Some (if gas_left s < 0 then exit IVMC_OUT_OF_GAS s
              else if stack_size < bi_stack_req block then exit IVMC_STACK_UNDERFLOW s
              else if int stack_limit < stack_size + bi_stack_max_growth block then exit IVMC_STACK_OVERFLOW s
              else (s\<lparr>current_block_cost := bi_gas_cost block\<rparr>, Some (j + 1))) }"

section \<open>The interpreter\<close>

text \<open>The call through the function pointer.\<close>

fun exec_fn ::
  "lib \<Rightarrow> 'h host_interface \<Rightarrow> instruction_exec_fn \<Rightarrow> instruction_argument \<Rightarrow> nat \<Rightarrow> 'h adv_state \<Rightarrow> 'h adv_result" where
  "exec_fn L H (Fn_op n) arg j s = op_wrap (impl L H n) j s"
| "exec_fn L H Fn_stop arg j s = op_stop s"
| "exec_fn L H Fn_sstore arg j s = op_sstore L H arg j s"
| "exec_fn L H Fn_jump arg j s = op_jump s"
| "exec_fn L H Fn_jumpi arg j s = op_jumpi j s"
| "exec_fn L H Fn_pc arg j s = op_pc L arg j s"
| "exec_fn L H Fn_gas arg j s = op_gas arg j s"
| "exec_fn L H Fn_push_small arg j s = op_push_small arg j s"
| "exec_fn L H Fn_push_full arg j s = op_push_full arg j s"
| "exec_fn L H Fn_invalid arg j s = op_invalid s"
| "exec_fn L H (Fn_return st) arg j s = op_return st s"
| "exec_fn L H (Fn_call kind static) arg j s = op_call L H kind static arg j s"
| "exec_fn L H (Fn_create kind) arg j s = op_create L H kind arg j s"
| "exec_fn L H Fn_undefined arg j s = op_undefined s"
| "exec_fn L H Fn_selfdestruct arg j s = op_selfdestruct L H s"
| "exec_fn L H Fn_beginblock arg j s = opx_beginblock arg j s"

text \<open>\<^verbatim>\<open>instr = instr->fn(instr, state)\<close>; the null function is undefined behaviour.\<close>

definition advanced_step :: "lib \<Rightarrow> 'h host_interface \<Rightarrow> 'h adv_state \<Rightarrow> nat \<Rightarrow> 'h adv_result" where
  "advanced_step L H s j = do {
     a \<leftarrow> analysis s;
     if length (instrs a) \<le> j then None
     else do {
       f \<leftarrow> instr_exec (instrs a ! j);
       exec_fn L H f (instr_arg (instrs a ! j)) j s
     } }"

definition advanced_execute ::
  "lib \<Rightarrow> 'h host_interface \<Rightarrow> nat \<Rightarrow> 'h adv_state \<Rightarrow> AdvancedCodeAnalysis \<Rightarrow> (ivmc_result \<times> 'h adv_state) outcome" where
  "advanced_execute L H n s a = finish (loop (advanced_step L H) n (s\<lparr>analysis := Some a\<rparr>) 0)"

definition advanced_execute_ivmc ::
  "lib \<Rightarrow> 'h host_interface \<Rightarrow> nat \<Rightarrow> 'h \<Rightarrow> ivmc_revision \<Rightarrow> ivmc_message \<Rightarrow> bytes \<Rightarrow>
   (ivmc_result \<times> 'h adv_state) outcome" where
  "advanced_execute_ivmc L H n ctx r m c =
     advanced_execute L H n (new_adv_state m r ctx c) (analyze r c)"

end
