(* ===== verification/Advanced_Compile.thy ===== *)
theory Advanced_Compile
  imports Advanced_Analysis Instruction_Contracts
begin

text \<open>
  What the code analysis of the Advanced interpreter produces. \<open>compile\<close> is its specification as a
  translation of the code from a position on: the data of the current block at its end and the
  instructions still to come. \<open>analyze_compile\<close> shows that the loop with its patching of block
  headers computes it; the other lemmas are about jump destinations, push values and the bounds
  of block data.
\<close>

section \<open>The translation\<close>

abbreviation opcode_at :: "bytes \<Rightarrow> nat \<Rightarrow> nat" where
  "opcode_at c p \<equiv> unat (c ! p)"

definition push_data :: "bytes \<Rightarrow> nat \<Rightarrow> bytes" where
  "push_data c p = take (after_push c p - (p + 1)) (drop (p + 1) c)"

definition gas_op :: "nat \<Rightarrow> bool" where
  "gas_op op \<longleftrightarrow> op \<in> {OP_GAS, OP_CALL, OP_CALLCODE, OP_DELEGATECALL, OP_STATICCALL, OP_CREATE, OP_CREATE2, OP_SSTORE}"

definition arg_at :: "bytes \<Rightarrow> nat \<Rightarrow> int \<Rightarrow> nat \<Rightarrow> instruction_argument" where
  "arg_at c p cost np =
     (let op = opcode_at c p in
      if any_small_push op then Arg_small_push_value (small_push_loop (push_data c p) ((op - OP_PUSH1) * 8) 0)
      else if any_large_push op then Arg_push_value np
      else if gas_op op then Arg_number cost
      else if op = OP_PC then Arg_number (int p)
      else Arg_block no_block)"

definition own_push :: "bytes \<Rightarrow> nat \<Rightarrow> uint256 list" where
  "own_push c p =
     (if any_large_push (opcode_at c p)
      then [le_load (large_push_loop (push_data c p) (opcode_at c p - OP_PUSH1) (replicate 32 0))] else [])"

definition own_instr :: "(nat \<Rightarrow> op_table_entry) \<Rightarrow> bytes \<Rightarrow> nat \<Rightarrow> int \<Rightarrow> nat \<Rightarrow> instruction list" where
  "own_instr tbl c p cost np =
     (if opcode_at c p = OP_JUMPDEST then []
      else [\<lparr>instr_exec = entry_fn (tbl (opcode_at c p)), instr_arg = arg_at c p cost np\<rparr>])"

definition ends_block :: "bytes \<Rightarrow> nat \<Rightarrow> bool" where
  "ends_block c p \<longleftrightarrow> is_terminator (opcode_at c p) \<or>
     (after_push c p \<noteq> length c \<and> opcode_at c (after_push c p) = OP_JUMPDEST)"

definition header :: "(nat \<Rightarrow> op_table_entry) \<Rightarrow> block_analysis \<Rightarrow> instruction" where
  "header tbl b = \<lparr>instr_exec = entry_fn (tbl OPX_BEGINBLOCK), instr_arg = Arg_block (close b)\<rparr>"

text \<open>The index of the next instruction after the one at \<open>p\<close>, and after a block header it may need.\<close>

definition next_index :: "bytes \<Rightarrow> nat \<Rightarrow> nat \<Rightarrow> nat" where
  "next_index c p k = k + (if opcode_at c p = OP_JUMPDEST then 0 else 1) + (if ends_block c p then 1 else 0)"

function compile ::
  "(nat \<Rightarrow> op_table_entry) \<Rightarrow> bytes \<Rightarrow> nat \<Rightarrow> block_analysis \<Rightarrow> nat \<Rightarrow> nat \<Rightarrow> block_analysis \<times> instruction list" where
  "compile tbl c p b np k =
     (if p < length c then
        let b' = add_to_block (tbl (opcode_at c p)) b;
            own = own_instr tbl c p (ba_gas_cost b') np;
            np' = np + length (own_push c p);
            k' = next_index c p k
        in if ends_block c p
           then let (b2, is2) = compile tbl c (after_push c p) (new_block (k' - 1)) np' k'
                in (b', own @ header tbl b2 # is2)
           else let (b2, is2) = compile tbl c (after_push c p) b' np' k' in (b2, own @ is2)
      else (b, [new_instruction (entry_fn (tbl OP_STOP))]))"
  by pat_completeness auto
termination
  by (relation "measure (\<lambda>(t, c, p, b, np, k). length c - p)") (auto simp: after_push_gt diff_less_mono2)

declare compile.simps [simp del]

function pushes :: "bytes \<Rightarrow> nat \<Rightarrow> uint256 list" where
  "pushes c p = (if p < length c then own_push c p @ pushes c (after_push c p) else [])"
  by pat_completeness auto
termination
  by (relation "measure (\<lambda>(c, p). length c - p)") (auto simp: after_push_gt diff_less_mono2)

declare pushes.simps [simp del]

text \<open>The jump destinations from \<open>p\<close> on with the index of their block header.\<close>

function jumps :: "bytes \<Rightarrow> nat \<Rightarrow> nat \<Rightarrow> (nat \<times> nat) list" where
  "jumps c p k =
     (if p < length c
      then (if opcode_at c p = OP_JUMPDEST then [(p, k - 1)] else []) @ jumps c (after_push c p) (next_index c p k)
      else [])"
  by pat_completeness auto
termination
  by (relation "measure (\<lambda>(c, p, k). length c - p)") (auto simp: after_push_gt diff_less_mono2)

declare jumps.simps [simp del]

section \<open>The loop computes the translation\<close>

lemma any_push: "any_small_push op \<or> any_large_push op \<longleftrightarrow> is_push op"
  by (auto simp: any_small_push_def any_large_push_def is_push_def)

text \<open>The analysis after the opcode at \<open>p\<close> and its push data have been recorded.\<close>

definition record_op ::
  "(nat \<Rightarrow> op_table_entry) \<Rightarrow> bytes \<Rightarrow> nat \<Rightarrow> int \<Rightarrow> AdvancedCodeAnalysis \<Rightarrow> AdvancedCodeAnalysis" where
  "record_op tbl c p cost an =
     an\<lparr>instrs := instrs an @ own_instr tbl c p cost (length (push_values an)),
        push_values := push_values an @ own_push c p,
        jumpdest_offsets := jumpdest_offsets an @ (if opcode_at c p = OP_JUMPDEST then [to_int32 (int p)] else []),
        jumpdest_targets := jumpdest_targets an @
          (if opcode_at c p = OP_JUMPDEST then [to_int32 (int (length (instrs an)) - 1)] else [])\<rparr>"

lemma set_last_new:
  "set_last_arg a (an\<lparr>instrs := is @ [new_instruction f]\<rparr>) = an\<lparr>instrs := is @ [\<lparr>instr_exec = f, instr_arg = a\<rparr>]\<rparr>"
  by (simp add: set_last_arg_def new_instruction_def)

lemma push_end: "p < length c \<Longrightarrow> is_push (opcode_at c p) \<Longrightarrow>
  min (p + 1 + (opcode_at c p - OP_PUSH1 + 1)) (length c) = after_push c p"
  by (simp add: after_push_def next_pos_def push_len_def)

lemma analyze_switch_jumpdest:
  "p < length c \<Longrightarrow> opcode_at c p = OP_JUMPDEST \<Longrightarrow> analyze_switch c (opcode_at c p) (p + 1) cost an = (after_push c p, an)"
  by (auto simp: analyze_switch_def any_small_push_def any_large_push_def Let_def after_push_def next_pos_def
      push_len_def is_push_def)

lemma analyze_switch_other:
  assumes p: "p < length c" and nj: "opcode_at c p \<noteq> OP_JUMPDEST"
  shows "analyze_switch c (opcode_at c p) (p + 1) cost
      (an\<lparr>instrs := instrs an @ [new_instruction (entry_fn (tbl (opcode_at c p)))]\<rparr>) =
    (after_push c p, record_op tbl c p cost an)"
proof (cases "is_push (opcode_at c p)")
  case True
  note e = push_end [OF p True]
  have d: "any_small_push (opcode_at c p) \<Longrightarrow> \<not> any_large_push (opcode_at c p)"
    "any_large_push (opcode_at c p) \<Longrightarrow> \<not> any_small_push (opcode_at c p)"
    by (simp_all add: any_small_push_def any_large_push_def)
  from True any_push have "any_small_push (opcode_at c p) \<or> any_large_push (opcode_at c p)" by blast
  with nj d show ?thesis
    unfolding analyze_switch_def e Let_def record_op_def own_instr_def own_push_def arg_at_def push_data_def
    by (elim disjE) (simp_all add: set_last_new)
next
  case False
  then have "\<not> any_small_push (opcode_at c p)" "\<not> any_large_push (opcode_at c p)" "after_push c p = p + 1"
    using any_push p by (auto simp: after_push_def next_pos_def push_len_def)
  with nj show ?thesis
    unfolding analyze_switch_def gas_op_def [symmetric] Let_def record_op_def own_instr_def own_push_def arg_at_def
    by (cases "gas_op (opcode_at c p)"; cases "opcode_at c p = OP_PC")
      (simp_all add: set_last_arg_def new_instruction_def)
qed

lemma analyze_step_eq:
  assumes p: "p < length c"
  shows "analyze_step tbl c p an b =
    (let b' = add_to_block (tbl (opcode_at c p)) b; an' = record_op tbl c p (ba_gas_cost b') an
     in if ends_block c p
        then (after_push c p,
              (save_block b' an')\<lparr>instrs := instrs (save_block b' an') @ [new_instruction (entry_fn (tbl OPX_BEGINBLOCK))]\<rparr>,
              new_block (length (instrs an')))
        else (after_push c p, an', b'))"
proof (cases "opcode_at c p = OP_JUMPDEST")
  case True
  have "record_op tbl c p cost an = an\<lparr>jumpdest_offsets := jumpdest_offsets an @ [to_int32 (int p)],
      jumpdest_targets := jumpdest_targets an @ [to_int32 (int (length (instrs an)) - 1)]\<rparr>" for cost
    using True by (simp add: record_op_def own_instr_def own_push_def any_large_push_def)
  with True analyze_switch_jumpdest [OF p True] show ?thesis
    by (simp add: analyze_step_def Let_def ends_block_def save_block_def)
next
  case False
  with analyze_switch_other [OF p False] show ?thesis
    by (simp add: analyze_step_def Let_def ends_block_def save_block_def)
qed

lemma length_own_instr: "length (own_instr tbl c p cost np) = (if opcode_at c p = OP_JUMPDEST then 0 else 1)"
  by (simp add: own_instr_def)

definition patch :: "block_analysis \<Rightarrow> nat \<Rightarrow> instruction list \<Rightarrow> instruction list" where
  "patch b i is = is[i := (is ! i)\<lparr>instr_arg := Arg_block (close b)\<rparr>]"

lemma instrs_save_block: "instrs (save_block b an) = patch b (begin_block_index b) (instrs an)"
  by (simp add: save_block_def patch_def)

lemma save_block_frame [simp]: "push_values (save_block b an) = push_values an"
  "jumpdest_offsets (save_block b an) = jumpdest_offsets an" "jumpdest_targets (save_block b an) = jumpdest_targets an"
  by (simp_all add: save_block_def)

lemma patch_append: "i < length xs \<Longrightarrow> patch b i (xs @ ys) = patch b i xs @ ys"
  by (simp add: patch_def nth_append list_update_append1)

lemma patch_last: "patch b (length xs) (xs @ [new_instruction f]) = xs @ [\<lparr>instr_exec = f, instr_arg = Arg_block (close b)\<rparr>]"
  by (simp add: patch_def new_instruction_def)

lemma length_patch [simp]: "length (patch b i xs) = length xs"
  by (simp add: patch_def)

lemma add_to_block_index [simp]: "begin_block_index (add_to_block info b) = begin_block_index b"
  by (simp add: add_to_block_def Let_def)

lemma new_block_index [simp]: "begin_block_index (new_block i) = i"
  by (simp add: new_block_def)

lemma analyze_loop_compile:
  assumes "begin_block_index b < length (instrs an)"
  shows "analyze_loop tbl c p an b = (an', b') \<Longrightarrow>
    instrs (save_block b' an') @ [new_instruction (entry_fn (tbl OP_STOP))] =
      patch (fst (compile tbl c p b (length (push_values an)) (length (instrs an)))) (begin_block_index b) (instrs an) @
      snd (compile tbl c p b (length (push_values an)) (length (instrs an)))"
  using assms
proof (induction tbl c p an b arbitrary: an' b' rule: analyze_loop.induct)
  case (1 tbl c p an b)
  let ?np = "length (push_values an)" and ?k = "length (instrs an)"
  show ?case
  proof (cases "p < length c")
    case False
    with 1 show ?thesis
      by (subst compile.simps) (simp add: analyze_loop.simps [of _ _ p] compile.simps instrs_save_block)
  next
    case True
    define nb where "nb = add_to_block (tbl (opcode_at c p)) b"
    define rn where "rn = record_op tbl c p (ba_gas_cost nb) an"
    have rn: "instrs rn = instrs an @ own_instr tbl c p (ba_gas_cost nb) ?np"
      "length (push_values rn) = ?np + length (own_push c p)"
      by (simp_all add: rn_def record_op_def)
    note step = analyze_step_eq [OF True, of tbl an b, folded nb_def rn_def, unfolded Let_def, folded nb_def, folded rn_def]
    show ?thesis
    proof (cases "ends_block c p")
      case False
      have k: "length (instrs rn) = next_index c p ?k"
        using False by (simp add: rn(1) length_own_instr next_index_def)
      have "analyze_loop tbl c (after_push c p) rn nb = (an', b')"
        using 1(2) True False step by (simp add: analyze_loop.simps [of _ _ p])
      from 1(1) [OF True _ _ _ this] step False 1(3) have
        "instrs (save_block b' an') @ [new_instruction (entry_fn (tbl OP_STOP))] =
          patch (fst (compile tbl c (after_push c p) nb (length (push_values rn)) (length (instrs rn)))) (begin_block_index nb) (instrs rn) @
          snd (compile tbl c (after_push c p) nb (length (push_values rn)) (length (instrs rn)))"
        by (simp add: rn(1) nb_def)
      then show ?thesis
        using True False 1(3) k rn
        by (subst (1 2) compile.simps)
          (simp add: Let_def nb_def [symmetric] case_prod_beta patch_append, simp add: nb_def patch_append)
    next
      case ends: True
      let ?an2 = "(save_block nb rn)\<lparr>instrs := instrs (save_block nb rn) @ [new_instruction (entry_fn (tbl OPX_BEGINBLOCK))]\<rparr>"
      have k: "length (instrs ?an2) = next_index c p ?k" "length (instrs rn) = next_index c p ?k - 1"
        using ends by (simp_all add: rn(1) length_own_instr next_index_def instrs_save_block)
      have k3: "length (patch nb i (instrs rn) @ [x]) = next_index c p ?k" for i x
        using ends by (simp add: rn(1) length_own_instr next_index_def)
      have "analyze_loop tbl c (after_push c p) ?an2 (new_block (length (instrs rn))) = (an', b')"
        using 1(2) True ends step by (simp add: analyze_loop.simps [of _ _ p])
      from 1(1) [OF True _ _ _ this] step ends have
        "instrs (save_block b' an') @ [new_instruction (entry_fn (tbl OP_STOP))] =
          patch (fst (compile tbl c (after_push c p) (new_block (length (instrs rn))) (length (push_values rn)) (length (instrs ?an2))))
            (length (instrs rn)) (instrs ?an2) @
          snd (compile tbl c (after_push c p) (new_block (length (instrs rn))) (length (push_values rn)) (length (instrs ?an2)))"
        by (simp add: instrs_save_block)
      moreover have "instrs ?an2 = patch nb (begin_block_index b) (instrs rn) @ [new_instruction (entry_fn (tbl OPX_BEGINBLOCK))]"
        by (simp add: instrs_save_block nb_def)
      moreover have "patch B (length (instrs rn)) (patch nb i (instrs rn) @ [new_instruction f]) =
          patch nb i (instrs rn) @ [\<lparr>instr_exec = f, instr_arg = Arg_block (close B)\<rparr>]" for B f i
        using patch_last [of B "patch nb i (instrs rn)" f] by simp
      ultimately have "instrs (save_block b' an') @ [new_instruction (entry_fn (tbl OP_STOP))] =
          patch nb (begin_block_index b) (instrs rn) @
          header tbl (fst (compile tbl c (after_push c p) (new_block (next_index c p ?k - 1)) (length (push_values rn)) (next_index c p ?k))) #
          snd (compile tbl c (after_push c p) (new_block (next_index c p ?k - 1)) (length (push_values rn)) (next_index c p ?k))"
        by (simp only: k k3 header_def append_assoc append.simps)
      moreover have "patch nb (begin_block_index b) (instrs rn) =
          patch nb (begin_block_index b) (instrs an) @ own_instr tbl c p (ba_gas_cost nb) ?np"
        using 1(3) by (simp add: rn(1) patch_append)
      ultimately show ?thesis
        using True ends rn(2)
        by (subst (1 2) compile.simps) (simp add: Let_def nb_def [symmetric] case_prod_beta)
    qed
  qed
qed

theorem analyze_compile:
  "instrs (analyze r c) =
    (let (b, is) = compile (get_op_table r) c 0 (new_block 0) 0 1 in header (get_op_table r) b # is)"
proof -
  let ?t = "get_op_table r"
  let ?an = "\<lparr>instrs = [new_instruction (entry_fn (?t OPX_BEGINBLOCK))], push_values = [],
                jumpdest_offsets = [], jumpdest_targets = []\<rparr>"
  obtain an' b' where l: "analyze_loop ?t c 0 ?an (new_block 0) = (an', b')" by (cases "analyze_loop ?t c 0 ?an (new_block 0)")
  have "patch B 0 [new_instruction f] = [\<lparr>instr_exec = f, instr_arg = Arg_block (close B)\<rparr>]" for B f
    using patch_last [of B "[]" f] by simp
  with analyze_loop_compile [OF _ l] l show ?thesis
    by (simp add: analyze_def Let_def case_prod_beta header_def)
qed

section \<open>Push values and jump destinations\<close>

lemma analyze_loop_tables:
  "push_values (fst (analyze_loop tbl c p an b)) = push_values an @ pushes c p"
  "jumpdest_offsets (fst (analyze_loop tbl c p an b)) =
     jumpdest_offsets an @ map (\<lambda>(q, t). to_int32 (int q)) (jumps c p (length (instrs an)))"
  "instrs an \<noteq> [] \<Longrightarrow> jumpdest_targets (fst (analyze_loop tbl c p an b)) =
     jumpdest_targets an @ map (\<lambda>(q, t). to_int32 (int t)) (jumps c p (length (instrs an)))"
proof (induction tbl c p an b rule: analyze_loop.induct)
  case (1 tbl c p an b)
  show "push_values (fst (analyze_loop tbl c p an b)) = push_values an @ pushes c p"
    using 1(1) analyze_step_eq [of p c tbl an b]
    by (cases "p < length c"; cases "ends_block c p")
      (simp_all add: analyze_loop.simps [of _ _ p] pushes.simps [of c p] Let_def record_op_def)
  have n: "length (instrs an) + length (own_instr tbl c p cost np) + (if ends_block c p then 1 else 0)
      = next_index c p (length (instrs an))" for cost np
    by (simp add: length_own_instr next_index_def)
  show "jumpdest_offsets (fst (analyze_loop tbl c p an b)) =
     jumpdest_offsets an @ map (\<lambda>(q, t). to_int32 (int q)) (jumps c p (length (instrs an)))"
    using 1(2) analyze_step_eq [of p c tbl an b] n
    by (cases "p < length c"; cases "ends_block c p")
      (simp_all add: analyze_loop.simps [of _ _ p] jumps.simps [of c p] Let_def record_op_def instrs_save_block)
  show "jumpdest_targets (fst (analyze_loop tbl c p an b)) =
     jumpdest_targets an @ map (\<lambda>(q, t). to_int32 (int t)) (jumps c p (length (instrs an)))"
    if ne: "instrs an \<noteq> []"
  proof -
    have i: "int (length (instrs an)) - 1 = int (length (instrs an) - 1)" using ne by (cases "instrs an") simp_all
    show ?thesis
      using 1(3) ne analyze_step_eq [of p c tbl an b] n
      by (cases "p < length c"; cases "ends_block c p")
        (simp_all add: analyze_loop.simps [of _ _ p] jumps.simps [of c p] Let_def record_op_def instrs_save_block i)
  qed
qed

lemma analyze_tables:
  "push_values (analyze r c) = pushes c 0"
  "jumpdest_offsets (analyze r c) = map (\<lambda>(q, t). to_int32 (int q)) (jumps c 0 1)"
  "jumpdest_targets (analyze r c) = map (\<lambda>(q, t). to_int32 (int t)) (jumps c 0 1)"
proof -
  let ?t = "get_op_table r"
  let ?an = "\<lparr>instrs = [new_instruction (entry_fn (?t OPX_BEGINBLOCK))], push_values = [],
                jumpdest_offsets = [], jumpdest_targets = []\<rparr>"
  obtain an' b' where l: "analyze_loop ?t c 0 ?an (new_block 0) = (an', b')" by (cases "analyze_loop ?t c 0 ?an (new_block 0)")
  from analyze_loop_tables [where tbl = ?t and c = c and p = 0 and an = ?an and b = "new_block 0"] l show
    "push_values (analyze r c) = pushes c 0"
    "jumpdest_offsets (analyze r c) = map (\<lambda>(q, t). to_int32 (int q)) (jumps c 0 1)"
    "jumpdest_targets (analyze r c) = map (\<lambda>(q, t). to_int32 (int t)) (jumps c 0 1)"
    by (simp_all add: analyze_def Let_def)
qed

lemma after_push_next: "p < length c \<Longrightarrow> after_push c p < length c \<Longrightarrow> after_push c p = next_pos c p"
  by (simp add: after_push_def)

lemma after_push_start:
  "instr_start c p \<Longrightarrow> p < length c \<Longrightarrow> after_push c p < length c \<Longrightarrow> instr_start c (after_push c p)"
  by (metis after_push_next instr_start.step)

lemma jumps_boundaries:
  "map fst (jumps c p k) = filter (\<lambda>q. q < length c \<and> opcode_at c q = OP_JUMPDEST) (boundaries c p)"
proof (induction c p k rule: jumps.induct)
  case (1 c p k)
  show ?case
  proof (cases "p < length c")
    case True
    have "filter (\<lambda>q. q < length c \<and> opcode_at c q = OP_JUMPDEST) (boundaries c (after_push c p)) =
        filter (\<lambda>q. q < length c \<and> opcode_at c q = OP_JUMPDEST) (boundaries c (next_pos c p))"
      by (cases "next_pos c p < length c") (simp_all add: after_push_def boundaries.simps)
    with 1 True show ?thesis by (subst jumps.simps, subst boundaries.simps) simp
  next
    case False
    then show ?thesis by (subst jumps.simps, subst boundaries.simps) simp
  qed
qed

lemma boundaries_sorted: "sorted_wrt (<) (boundaries c p)"
proof (induction c p rule: boundaries.induct)
  case (1 c p)
  have "q \<in> set (boundaries c (next_pos c p)) \<Longrightarrow> p < q" for q
    using boundaries_ge [of q c "next_pos c p"] next_pos_gt [of p c] by linarith
  with 1 show ?case by (subst boundaries.simps) simp
qed

lemma jumps_sorted: "sorted_wrt (<) (map fst (jumps c p k))"
  unfolding jumps_boundaries by (simp add: sorted_wrt_filter boundaries_sorted)

lemma jumps_valid: "set (map fst (jumps c 0 k)) = {q. valid_jumpdest c q}"
  unfolding jumps_boundaries by (auto simp: valid_jumpdest_def instr_start_boundaries)

lemma jumps_positions: "(q, t) \<in> set (jumps c p k) \<Longrightarrow> q < length c"
proof -
  assume "(q, t) \<in> set (jumps c p k)"
  then have "q \<in> set (map fst (jumps c p k))" by force
  then show ?thesis unfolding jumps_boundaries by simp
qed

section \<open>Where the instructions of a position are\<close>

text \<open>From index \<open>j\<close> on the table holds the translation of the code from \<open>p\<close> on, within block \<open>b\<close>.\<close>

definition code_at ::
  "(nat \<Rightarrow> op_table_entry) \<Rightarrow> bytes \<Rightarrow> instruction list \<Rightarrow> uint256 list \<Rightarrow> nat \<Rightarrow> block_analysis \<Rightarrow> nat \<Rightarrow> nat \<Rightarrow> bool" where
  "code_at tbl c is pv p b np j \<longleftrightarrow> drop j is = snd (compile tbl c p b np j) \<and> drop np pv = pushes c p"

text \<open>At index \<open>j\<close> is the header of the block that starts at \<open>p\<close>.\<close>

definition block_at ::
  "(nat \<Rightarrow> op_table_entry) \<Rightarrow> bytes \<Rightarrow> instruction list \<Rightarrow> uint256 list \<Rightarrow> nat \<Rightarrow> nat \<Rightarrow> nat \<Rightarrow> bool" where
  "block_at tbl c is pv p np j \<longleftrightarrow>
     drop j is = header tbl (fst (compile tbl c p (new_block j) np (Suc j))) #
       snd (compile tbl c p (new_block j) np (Suc j)) \<and> drop np pv = pushes c p"

lemma drop_cons: "drop j xs = y # ys \<Longrightarrow> j < length xs \<and> xs ! j = y \<and> drop (Suc j) xs = ys"
  by (metis Cons_nth_drop_Suc drop_eq_Nil2 leI list.inject list.simps(3))

lemma drop_append_own: "drop j xs = ys @ zs \<Longrightarrow> drop (j + length ys) xs = zs"
  by (metis add.commute append_eq_conv_conj drop_drop)

lemma block_at_header:
  assumes "block_at tbl c is pv p np j"
  shows "j < length is" "is ! j = header tbl (fst (compile tbl c p (new_block j) np (Suc j)))"
    "code_at tbl c is pv p (new_block j) np (Suc j)"
  using drop_cons [of j "is"] assms by (auto simp: block_at_def code_at_def)

lemma code_at_step:
  assumes ca: "code_at tbl c is pv p b np j" and p: "p < length c"
    and b': "b' = add_to_block (tbl (opcode_at c p)) b"
  shows "opcode_at c p \<noteq> OP_JUMPDEST \<Longrightarrow> j < length is \<and>
      is ! j = \<lparr>instr_exec = entry_fn (tbl (opcode_at c p)), instr_arg = arg_at c p (ba_gas_cost b') np\<rparr>"
    and "any_large_push (opcode_at c p) \<Longrightarrow> np < length pv \<and> [pv ! np] = own_push c p"
    and "ends_block c p \<Longrightarrow> fst (compile tbl c p b np j) = b' \<and>
      block_at tbl c is pv (after_push c p) (np + length (own_push c p)) (next_index c p j - 1)"
    and "\<not> ends_block c p \<Longrightarrow>
      fst (compile tbl c p b np j) = fst (compile tbl c (after_push c p) b' (np + length (own_push c p)) (next_index c p j)) \<and>
      code_at tbl c is pv (after_push c p) b' (np + length (own_push c p)) (next_index c p j)"
proof -
  let ?own = "own_instr tbl c p (ba_gas_cost b') np"
  have pv: "drop (np + length (own_push c p)) pv = pushes c (after_push c p)"
    using ca p drop_append_own [of np pv "own_push c p" "pushes c (after_push c p)"]
    by (simp add: code_at_def pushes.simps [of c p])
  show "np < length pv \<and> [pv ! np] = own_push c p" if "any_large_push (opcode_at c p)"
    using ca p that drop_cons [of np pv] by (simp add: code_at_def pushes.simps [of c p] own_push_def)
  show "j < length is \<and> is ! j = \<lparr>instr_exec = entry_fn (tbl (opcode_at c p)), instr_arg = arg_at c p (ba_gas_cost b') np\<rparr>"
    if "opcode_at c p \<noteq> OP_JUMPDEST"
    using ca p that b' drop_cons [of j "is"]
    by (cases "ends_block c p")
      (auto simp: code_at_def compile.simps [of _ _ p] own_instr_def Let_def case_prod_beta)
  show "fst (compile tbl c p b np j) = b' \<and>
      block_at tbl c is pv (after_push c p) (np + length (own_push c p)) (next_index c p j - 1)" if e: "ends_block c p"
  proof -
    have j: "next_index c p j = Suc (j + length ?own)" using e by (simp add: next_index_def length_own_instr)
    have "drop j is = ?own @ header tbl (fst (compile tbl c (after_push c p) (new_block (j + length ?own)) (np + length (own_push c p)) (Suc (j + length ?own))))
        # snd (compile tbl c (after_push c p) (new_block (j + length ?own)) (np + length (own_push c p)) (Suc (j + length ?own)))"
      using ca p b' e j by (simp add: code_at_def compile.simps [of _ _ p] Let_def case_prod_beta)
    from drop_append_own [OF this] pv p b' e j show ?thesis
      by (simp add: block_at_def compile.simps [of _ _ p] Let_def case_prod_beta)
  qed
  show "fst (compile tbl c p b np j) = fst (compile tbl c (after_push c p) b' (np + length (own_push c p)) (next_index c p j)) \<and>
      code_at tbl c is pv (after_push c p) b' (np + length (own_push c p)) (next_index c p j)" if e: "\<not> ends_block c p"
  proof -
    have j: "next_index c p j = j + length ?own" using e by (simp add: next_index_def length_own_instr)
    have "drop j is = ?own @ snd (compile tbl c (after_push c p) b' (np + length (own_push c p)) (j + length ?own))"
      using ca p b' e j by (simp add: code_at_def compile.simps [of _ _ p] Let_def case_prod_beta)
    from drop_append_own [OF this] pv p b' e j show ?thesis
      by (simp add: code_at_def compile.simps [of _ _ p] Let_def case_prod_beta)
  qed
qed

lemma code_at_end:
  assumes "code_at tbl c is pv p b np j" "length c \<le> p"
  shows "fst (compile tbl c p b np j) = b" "j < length is" "is ! j = new_instruction (entry_fn (tbl OP_STOP))"
  using assms drop_cons [of j "is"] by (auto simp: code_at_def compile.simps [of _ _ p])

lemma jumps_block_at:
  assumes "code_at tbl c is pv p b np k" "opcode_at c p = OP_JUMPDEST \<longrightarrow> p < length c \<longrightarrow> (\<exists>np'. block_at tbl c is pv p np' (k - 1))"
    and "(q, t) \<in> set (jumps c p k)"
  shows "\<exists>np'. block_at tbl c is pv q np' t"
  using assms
proof (induction c p k arbitrary: b np rule: jumps.induct)
  case (1 c p k)
  show ?case
  proof (cases "p < length c")
    case False
    with 1(4) show ?thesis by (subst (asm) jumps.simps) simp
  next
    case True
    consider "(q, t) = (p, k - 1)" "opcode_at c p = OP_JUMPDEST" | "(q, t) \<in> set (jumps c (after_push c p) (next_index c p k))"
      using 1(4) True by (subst (asm) jumps.simps) (auto split: if_splits)
    then show ?thesis
    proof cases
      case 1
      with True \<open>opcode_at c p = OP_JUMPDEST \<longrightarrow> _\<close> show ?thesis by simp
    next
      case 2
      note step = code_at_step [OF 1(2) True refl]
      show ?thesis
      proof (cases "ends_block c p")
        case True
        note blk = step(3) [OF True, THEN conjunct2]
        have "Suc (next_index c p k - 1) = next_index c p k" using True by (simp add: next_index_def)
        with block_at_header(3) [OF blk] have
          "code_at tbl c is pv (after_push c p) (new_block (next_index c p k - 1)) (np + length (own_push c p)) (next_index c p k)"
          by simp
        from 1(1) [OF \<open>p < length c\<close> this _ 2] blk show ?thesis by blast
      next
        case False
        then have "opcode_at c (after_push c p) = OP_JUMPDEST \<longrightarrow> \<not> after_push c p < length c"
          by (auto simp: ends_block_def)
        with 1(1) [OF \<open>p < length c\<close> step(4) [OF False, THEN conjunct2] _ 2] show ?thesis by blast
      qed
    qed
  qed
qed

lemma analyze_block_at_0: "block_at (get_op_table r) c (instrs (analyze r c)) (push_values (analyze r c)) 0 0 0"
  by (simp add: block_at_def analyze_compile analyze_tables case_prod_beta Let_def)

lemma analyze_jumps_block_at:
  assumes "(q, t) \<in> set (jumps c 0 1)"
  shows "\<exists>np. block_at (get_op_table r) c (instrs (analyze r c)) (push_values (analyze r c)) q np t"
  using jumps_block_at [OF block_at_header(3) [OF analyze_block_at_0]] analyze_block_at_0 assms
  by (metis One_nat_def diff_Suc_1')

section \<open>Finding a jump destination\<close>

lemma lower_bound_le: "lower_bound xs v \<le> length xs"
  by (simp add: lower_bound_def length_takeWhile_le)

lemma lower_bound_found:
  assumes "sorted_wrt (<) xs" "i < length xs"
  shows "lower_bound xs (xs ! i) = i"
proof -
  have "takeWhile (\<lambda>x. x < xs ! i) xs = take i xs"
    using assms by (intro takeWhile_eq_take_P_nth) (auto simp: sorted_wrt_iff_nth_less)
  with assms(2) show ?thesis by (simp add: lower_bound_def)
qed

lemma to_int32_small: "n < 2 ^ 31 \<Longrightarrow> to_int32 (int n) = int n"
  by (simp add: to_int32_def signed_take_bit_int_eq_self_iff)

lemma next_index_le: "next_index c p k \<le> k + 2"
  by (simp add: next_index_def)

lemma jumps_target_bound: "(q, t) \<in> set (jumps c p k) \<Longrightarrow> t + 2 * p \<le> k + 2 * q"
proof (induction c p k rule: jumps.induct)
  case (1 c p k)
  have p: "p < length c" using 1(2) by (subst (asm) jumps.simps) (simp split: if_splits)
  consider "(q, t) = (p, k - 1)" | "(q, t) \<in> set (jumps c (after_push c p) (next_index c p k))"
    using 1(2) p by (subst (asm) jumps.simps) (auto split: if_splits)
  then show ?case
  proof cases
    case 1
    then show ?thesis by simp
  next
    case 2
    from 1(1) [OF p this] after_push_gt [OF p] next_index_le [of c p k] show ?thesis by linarith
  qed
qed

text \<open>The jump destinations the analysis records are those of the code, in order.\<close>

lemma jumps_filter: "map fst (jumps c 0 1) = filter (valid_jumpdest c) [0..<length c]"
proof -
  have "sorted_wrt (<) (filter (valid_jumpdest c) [0..<length c])" by (intro sorted_wrt_filter) simp
  moreover have "set (filter (valid_jumpdest c) [0..<length c]) = set (map fst (jumps c 0 1))"
    using jumps_valid [of c 1] by (auto simp: valid_jumpdest_def)
  ultimately show ?thesis using jumps_sorted [of c 0 1] by (intro strict_sorted_equal) auto
qed

theorem find_jumpdest_jumps:
  assumes len: "length c < 2 ^ 29"
  shows "find_jumpdest (analyze r c) (int q) = (case map_of (jumps c 0 1) q of None \<Rightarrow> - 1 | Some t \<Rightarrow> int t)"
proof -
  let ?js = "jumps c 0 1"
  have small: "to_int32 (int q) = int q" "to_int32 (int t) = int t" if "(q, t) \<in> set ?js" for q t
    using jumps_target_bound [OF that] jumps_positions [OF that] len by (simp_all add: to_int32_small)
  have off: "jumpdest_offsets (analyze r c) = map (int \<circ> fst) ?js"
    unfolding analyze_tables by (rule map_cong [OF refl]) (auto simp: small)
  have tgt: "jumpdest_targets (analyze r c) = map (int \<circ> snd) ?js"
    unfolding analyze_tables by (rule map_cong [OF refl]) (auto simp: small)
  have sorted: "sorted_wrt (<) (map (int \<circ> fst) ?js)"
    using jumps_sorted [of c 0 1] by (simp add: sorted_wrt_map)
  have dist: "distinct (map fst ?js)" using jumps_sorted [of c 0 1] by (simp add: strict_sorted_iff)
  show ?thesis
  proof (cases "map_of ?js q")
    case None
    then have "int q \<notin> set (map (int \<circ> fst) ?js)" by (force simp: map_of_eq_None_iff)
    moreover have "lower_bound (map (int \<circ> fst) ?js) (int q) \<le> length ?js"
      using lower_bound_le [of "map (int \<circ> fst) ?js"] by simp
    ultimately show ?thesis
      unfolding find_jumpdest_def off Let_def None by (auto simp: le_less) (metis comp_apply image_eqI nth_mem)
  next
    case (Some t)
    then obtain i where i: "i < length ?js" "?js ! i = (q, t)" by (meson in_set_conv_nth map_of_SomeD)
    then have v: "map (int \<circ> fst) ?js ! i = int q" by simp
    have "lower_bound (map (int \<circ> fst) ?js) (int q) = i"
      using lower_bound_found [OF sorted, of i] v i(1) by simp
    with Some i v show ?thesis unfolding find_jumpdest_def off tgt Let_def by simp
  qed
qed

section \<open>Push data\<close>

lemma be_value_foldl: "foldl (\<lambda>a b. a * 256 + unat b) k bs = k * 256 ^ length bs + be_value bs"
proof (induction bs arbitrary: k)
  case Nil
  then show ?case by (simp add: be_value_def)
next
  case (Cons b bs)
  have "foldl (\<lambda>a b. a * 256 + unat b) k (b # bs) = (k * 256 + unat b) * 256 ^ length bs + be_value bs"
    using Cons [of "k * 256 + unat b"] by simp
  moreover have "be_value (b # bs) = unat b * 256 ^ length bs + be_value bs"
    using Cons [of "unat b"] by (simp add: be_value_def)
  ultimately show ?case by (simp add: algebra_simps)
qed

lemma be_value_Cons: "be_value (b # bs) = unat b * 256 ^ length bs + be_value bs"
  using be_value_foldl [of "unat b" bs] by (simp add: be_value_def)

lemma be_value_append: "be_value (xs @ ys) = be_value xs * 256 ^ length ys + be_value ys"
  using be_value_foldl [of "be_value xs" ys] by (simp add: be_value_def)

lemma be_value_zeros: "be_value (replicate n 0) = 0"
  by (induction n) (simp_all add: be_value_Cons, simp add: be_value_def)

lemma be_value_less: "be_value bs < 256 ^ length bs"
proof (induction bs)
  case Nil
  then show ?case by (simp add: be_value_def)
next
  case (Cons b bs)
  have "unat b * 256 ^ length bs + be_value bs < (unat b + 1) * 256 ^ length bs" using Cons by simp
  also have "\<dots> \<le> 256 * 256 ^ length bs" using unat_byte_less [of b] by (intro mult_right_mono) auto
  finally show ?case by (simp add: be_value_Cons)
qed

lemma large_push_loop_eq:
  "length bs \<le> Suc i \<Longrightarrow> i < length vs \<Longrightarrow>
   large_push_loop bs i vs = take (Suc i - length bs) vs @ rev bs @ drop (Suc i) vs"
proof (induction bs arbitrary: i vs)
  case Nil
  then show ?case by simp
next
  case (Cons b bs)
  have upd: "vs[i := b] = take i vs @ b # drop (Suc i) vs" using Cons.prems by (simp add: upd_conv_take_nth_drop)
  show ?case
  proof (cases bs)
    case Nil
    then show ?thesis using upd by simp
  next
    case (Cons b' bs')
    with Cons.prems have i: "0 < i" "length bs \<le> Suc (i - 1)" "i - 1 < length (vs[i := b])" by auto
    have "large_push_loop (b # bs) i vs =
        take (Suc (i - 1) - length bs) (vs[i := b]) @ rev bs @ drop (Suc (i - 1)) (vs[i := b])"
      using Cons.IH [OF i(2,3)] by simp
    also have "take (Suc (i - 1) - length bs) (vs[i := b]) = take (Suc i - length (b # bs)) vs"
      using i(1) Cons.prems by (simp add: min_def)
    also have "drop (Suc (i - 1)) (vs[i := b]) = b # drop (Suc i) vs"
      using i(1) Cons.prems(2) unfolding upd by simp
    finally show ?thesis by simp
  qed
qed

lemma large_push_value:
  assumes "length bs \<le> Suc i" "i < 32"
  shows "le_load (large_push_loop bs i (replicate 32 0)) = of_nat (be_value (bs @ replicate (Suc i - length bs) 0))"
proof -
  have "rev (large_push_loop bs i (replicate 32 0)) = replicate (31 - i) 0 @ bs @ replicate (Suc i - length bs) 0"
    using assms by (simp add: large_push_loop_eq min_def)
  then show ?thesis by (simp add: le_load_def be_value_append be_value_zeros)
qed

lemma small_push_loop_eq:
  fixes v :: u64
  assumes "length bs * 8 \<le> k + 8" "k \<le> 56" "2 ^ (k + 8) dvd unat v"
  shows "unat (small_push_loop bs k v) = unat v + be_value bs * 2 ^ (k + 8 - length bs * 8)"
  using assms
proof (induction bs arbitrary: k v)
  case Nil
  then show ?case by (simp add: be_value_def)
next
  case (Cons b bs)
  define w :: u64 where "w = push_bit k (ucast b)"
  have b: "unat (ucast b :: u64) = unat b"
    by (simp add: unsigned_ucast_eq take_bit_nat_eq_self_iff order.strict_trans [OF unat_byte_less])
  have lt: "unat b * 2 ^ k < 2 ^ (k + 8)" using unat_byte_less [of b] by (simp add: power_add)
  have le64: "(2 :: nat) ^ (k + 8) \<le> 2 ^ 64" using Cons.prems(2) by (intro power_increasing) auto
  have w: "unat w = unat b * 2 ^ k"
    unfolding w_def unsigned_push_bit_eq b using lt le64
    by (simp add: push_bit_eq_mult take_bit_nat_eq_self_iff order.strict_trans2)
  from Cons.prems(3) obtain u where u: "unat v = push_bit (k + 8) u"
    by (metis dvd_def mult.commute push_bit_eq_mult)
  have "unat w < 2 ^ (k + 8)" using w lt by simp
  then have wt: "take_bit (k + 8) (unat w) = unat w" by (simp add: take_bit_nat_eq_self_iff)
  have "unat v AND unat w = 0"
    unfolding u by (subst wt [symmetric], rule bit_eqI) (simp add: bit_and_iff bit_push_bit_iff bit_take_bit_iff)
  then have sum: "unat (v OR w) = unat v + unat b * 2 ^ k"
    using disjunctive_add_eq_or [of "unat v" "unat w"] by (simp add: unsigned_or_eq w)
  show ?case
  proof (cases bs)
    case Nil
    then show ?thesis using sum by (simp add: w_def [symmetric] be_value_Cons be_value_def)
  next
    case (Cons b' bs')
    with Cons.prems(1) have k: "8 \<le> k" "length bs * 8 \<le> k - 8 + 8" by auto
    have dvd: "2 ^ (k - 8 + 8) dvd unat (v OR w)"
      using Cons.prems(3) k unfolding sum by (intro dvd_add) (auto simp: power_add elim: dvd_mult_left)
    have e: "k = (k - length bs * 8) + length bs * 8" using k by simp
    have "2 ^ k = 2 ^ (k - length bs * 8) * (256 :: nat) ^ length bs"
      by (subst e) (simp add: power_add power_mult mult.commute [of _ 8])
    then have "unat b * 2 ^ k + be_value bs * 2 ^ (k - length bs * 8) = be_value (b # bs) * 2 ^ (k - length bs * 8)"
      by (simp add: be_value_Cons algebra_simps)
    with Cons.IH [OF k(2) _ dvd] Cons.prems(2) k sum show ?thesis by (simp add: w_def [symmetric])
  qed
qed

lemma small_push_value:
  assumes "length bs \<le> Suc i" "i < 8"
  shows "ucast (small_push_loop bs (i * 8) 0) = (of_nat (be_value (bs @ replicate (Suc i - length bs) 0)) :: uint256)"
proof -
  have e: "i * 8 + 8 - length bs * 8 = 8 * (Suc i - length bs)" using assms by simp
  have "unat (small_push_loop bs (i * 8) 0) = be_value bs * 256 ^ (Suc i - length bs)"
    using small_push_loop_eq [of bs "i * 8" 0] assms by (simp add: e power_mult)
  also have "\<dots> = be_value (bs @ replicate (Suc i - length bs) 0)"
    by (simp add: be_value_append be_value_zeros)
  finally show ?thesis by (metis of_nat_unat)
qed

section \<open>Bounds of block data\<close>

lemma op_entry_range:
  "0 \<le> entry_gas_cost (get_op_table r op)" "entry_gas_cost (get_op_table r op) \<le> 32000"
  "entry_stack_change (get_op_table r op) \<le> 1" "0 \<le> entry_stack_req (get_op_table r op)"
  using gas_costs_range [of r op] traits_stack_range [of op] by (auto simp: get_op_table_def)

lemma add_to_block_simps:
  "ba_gas_cost (add_to_block info b) = ba_gas_cost b + entry_gas_cost info"
  "ba_stack_change (add_to_block info b) = ba_stack_change b + entry_stack_change info"
  "ba_stack_req (add_to_block info b) = max (ba_stack_req b) (entry_stack_req info - ba_stack_change b)"
  "ba_stack_max_growth (add_to_block info b) = max (ba_stack_max_growth b) (ba_stack_change b + entry_stack_change info)"
  by (simp_all add: add_to_block_def Let_def)

lemma compile_bounds:
  assumes b2: "b2 = fst (compile (get_op_table r) c p b np k)"
  shows "ba_gas_cost b \<le> ba_gas_cost b2"
    and "ba_stack_req b \<le> ba_stack_req b2"
    and "ba_stack_max_growth b \<le> ba_stack_max_growth b2"
    and "ba_gas_cost b2 \<le> ba_gas_cost b + 32000 * int (length c - p)"
    and "ba_stack_max_growth b2 \<le> max (ba_stack_max_growth b) (ba_stack_change b + int (length c - p))"
proof -
  let ?t = "get_op_table r"
  have "ba_gas_cost b \<le> ba_gas_cost (fst (compile t c p b np k)) \<and>
    ba_stack_req b \<le> ba_stack_req (fst (compile t c p b np k)) \<and>
    ba_stack_max_growth b \<le> ba_stack_max_growth (fst (compile t c p b np k)) \<and>
    ba_gas_cost (fst (compile t c p b np k)) \<le> ba_gas_cost b + 32000 * int (length c - p) \<and>
    ba_stack_max_growth (fst (compile t c p b np k)) \<le> max (ba_stack_max_growth b) (ba_stack_change b + int (length c - p))"
    if "t = ?t" for t
    using that
  proof (induction t c p b np k rule: compile.induct)
    case (1 t c p b np k)
    let ?b' = "add_to_block (t (opcode_at c p)) b"
    note e = op_entry_range [of r "opcode_at c p"]
    show ?case
    proof (cases "p < length c")
      case False
      then show ?thesis by (simp add: compile.simps [of t c p])
    next
      case True
      note ap = after_push_gt [OF True]
      have ap2: "int (length c - p) \<ge> 1 + int (length c - after_push c p)" using ap True by simp
      show ?thesis
      proof (cases "ends_block c p")
        case ends: True
        have "fst (compile t c p b np k) = ?b'" using True ends by (simp add: compile.simps [of t c p] Let_def case_prod_beta)
        with e ap2 1(3) show ?thesis by (auto simp: add_to_block_simps)
      next
        case False
        let ?c = "compile t c (after_push c p) ?b' (np + length (own_push c p)) (next_index c p k)"
        have "fst (compile t c p b np k) = fst ?c" using True False by (simp add: compile.simps [of t c p] Let_def case_prod_beta)
        moreover from 1(2) [OF True refl refl refl refl False 1(3)] have
          "ba_gas_cost ?b' \<le> ba_gas_cost (fst ?c)" "ba_stack_req ?b' \<le> ba_stack_req (fst ?c)"
          "ba_stack_max_growth ?b' \<le> ba_stack_max_growth (fst ?c)"
          "ba_gas_cost (fst ?c) \<le> ba_gas_cost ?b' + 32000 * int (length c - after_push c p)"
          "ba_stack_max_growth (fst ?c) \<le> max (ba_stack_max_growth ?b') (ba_stack_change ?b' + int (length c - after_push c p))"
          by blast+
        ultimately show ?thesis using e ap2 1(3) unfolding add_to_block_simps by auto
      qed
    qed
  qed
  from this [OF refl] show
    "ba_gas_cost b \<le> ba_gas_cost b2" "ba_stack_req b \<le> ba_stack_req b2"
    "ba_stack_max_growth b \<le> ba_stack_max_growth b2" "ba_gas_cost b2 \<le> ba_gas_cost b + 32000 * int (length c - p)"
    "ba_stack_max_growth b2 \<le> max (ba_stack_max_growth b) (ba_stack_change b + int (length c - p))"
    unfolding b2 by blast+
qed

text \<open>
  The limits of the technique: jump destinations fit in 32-bit integers, gas is a non-negative
  64-bit integer, and either the gas is below \<open>2\<^sup>3\<^sup>2 - 1\<close> or the code is too short for the cost of a block
  to saturate. Code within the size limit of contracts always is; init code may be longer.
\<close>

definition within_limits :: "bytes \<Rightarrow> int \<Rightarrow> bool" where
  "within_limits c gas \<longleftrightarrow> length c < 2 ^ 29 \<and> gas < 2 ^ 63 \<and>
     (gas < 2 ^ 32 - 1 \<or> max_instruction_base_cost * int (length c) < 2 ^ 32)"

lemma within_limits_code_size: "length c \<le> max_code_size \<Longrightarrow> gas < 2 ^ 63 \<Longrightarrow> within_limits c gas"
  by (simp add: within_limits_def max_code_size_def max_instruction_base_cost_def)

lemma within_limits_mono: "within_limits c gas \<Longrightarrow> gas' \<le> gas \<Longrightarrow> within_limits c gas'"
  by (auto simp: within_limits_def)

lemma within_limitsD:
  "within_limits c gas \<Longrightarrow> length c < 2 ^ 29" "within_limits c gas \<Longrightarrow> length c < 2 ^ 63"
  "within_limits c gas \<Longrightarrow> length c < 2 ^ 64" "within_limits c gas \<Longrightarrow> gas < 2 ^ 63"
  by (auto simp: within_limits_def)

text \<open>Within the limits, saturated block data makes no difference to the checks of a block header.\<close>

lemma close_exact:
  assumes B: "B = fst (compile (get_op_table r) c p (new_block i) np k)"
  shows "within_limits c gas \<Longrightarrow> gas < bi_gas_cost (close B) \<longleftrightarrow> gas < ba_gas_cost B"
    and "within_limits c gas \<Longrightarrow> ba_gas_cost B \<le> gas \<Longrightarrow> bi_gas_cost (close B) = ba_gas_cost B"
    and "h \<le> 1024 \<Longrightarrow> h < bi_stack_req (close B) \<longleftrightarrow> h < ba_stack_req B"
    and "0 \<le> h \<Longrightarrow> 1024 < h + bi_stack_max_growth (close B) \<longleftrightarrow> 1024 < h + ba_stack_max_growth B"
    and "length c \<le> max_code_size \<Longrightarrow> bi_gas_cost (close B) = ba_gas_cost B"
    and "length c \<le> max_code_size \<Longrightarrow> bi_stack_max_growth (close B) = ba_stack_max_growth B"
proof -
  have cost: "ba_gas_cost B \<le> 32000 * int (length c - p)" and growth: "ba_stack_max_growth B \<le> int (length c - p)"
    unfolding B using compile_bounds(4,5) [OF refl, of r c p "new_block i" np k] by (simp_all add: new_block_def)
  then have cost': "ba_gas_cost B \<le> 32000 * int (length c)" by linarith
  show gas: "gas < bi_gas_cost (close B) \<longleftrightarrow> gas < ba_gas_cost B" if "within_limits c gas"
    using that cost' by (auto simp: close_def clamp_def within_limits_def max_instruction_base_cost_def)
  show "bi_gas_cost (close B) = ba_gas_cost B" if "within_limits c gas" "ba_gas_cost B \<le> gas"
    using that cost' by (auto simp: close_def clamp_def within_limits_def max_instruction_base_cost_def)
  show "h < bi_stack_req (close B) \<longleftrightarrow> h < ba_stack_req B" if "h \<le> 1024"
    using that by (simp add: close_def clamp_def)
  show "1024 < h + bi_stack_max_growth (close B) \<longleftrightarrow> 1024 < h + ba_stack_max_growth B" if "0 \<le> h"
    using that by (simp add: close_def clamp_def)
  show "bi_gas_cost (close B) = ba_gas_cost B" "bi_stack_max_growth (close B) = ba_stack_max_growth B"
    if "length c \<le> max_code_size"
    using that cost growth by (simp_all add: close_def clamp_def max_code_size_def)
qed

section \<open>The dispatch tables agree\<close>

text \<open>The function of the Advanced interpreter for a function of the Baseline one.\<close>

fun advanced_fn :: "baseline_name \<Rightarrow> instruction_exec_fn" where
  "advanced_fn (Generic fn_stop) = Fn_stop"
| "advanced_fn (Generic fn_sstore) = Fn_sstore"
| "advanced_fn (Generic fn_gas) = Fn_gas"
| "advanced_fn (Generic fn_jumpdest) = Fn_beginblock"
| "advanced_fn (Generic (fn_create kind)) = Fn_create kind"
| "advanced_fn (Generic (fn_call kind static)) = Fn_call kind static"
| "advanced_fn (Generic (fn_return st)) = Fn_return st"
| "advanced_fn (Generic fn_invalid) = Fn_invalid"
| "advanced_fn (Generic fn_selfdestruct) = Fn_selfdestruct"
| "advanced_fn (Generic n) = Fn_op n"
| "advanced_fn fn_jump = Fn_jump"
| "advanced_fn fn_jumpi = Fn_jumpi"
| "advanced_fn fn_pc = Fn_pc"
| "advanced_fn (fn_push n) = (if n \<le> 8 then Fn_push_small else Fn_push_full)"

lemma set_range_split:
  "lo \<le> m \<Longrightarrow> m < hi \<Longrightarrow> set_range lo hi f t = set_range (Suc m) hi f (set_range lo m f t)"
  by (auto simp: set_range_def)

theorem dispatch_agrees: "instruction_implementations op = map_option advanced_fn (op2fn op)"
proof -
  have "tables_agree (\<lambda>x y. x = map_option advanced_fn y) instruction_implementations op2fn"
  proof -
    have swap: "f(OP_REVERT := x, OP_INVALID := y) = f(OP_INVALID := y, OP_REVERT := x)" for f :: "nat \<Rightarrow> instruction_exec_fn option" and x y
      by (rule fun_upd_twist) simp
    have split: "set_range OP_PUSH1 OP_PUSH32 f t = set_range OP_PUSH9 OP_PUSH32 f (set_range OP_PUSH1 OP_PUSH8 f t)" for f and t :: "nat \<Rightarrow> 'z"
      using set_range_split [of OP_PUSH1 OP_PUSH8 OP_PUSH32 f t] by simp
    show ?thesis
      unfolding instruction_implementations_def op2fn_def swap split
      by (intro tables_agree_upd tables_agree_range tables_agree_base) simp_all
  qed
  then show ?thesis by (simp add: tables_agree_def)
qed

end
