(* ===== verification/Block_Relation.thy ===== *)
theory Block_Relation
  imports Gas_Shift Advanced Advanced_Compile
begin

text \<open>
  The Advanced interpreter computes what the Baseline interpreter computes. The Advanced one
  charges the gas and checks the stack of a whole basic block at its start, so inside a block its
  gas is behind by the base cost of the instructions to come, and it may stop at the start of a
  block where Baseline stops later. Both then fail: \<open>doomed\<close> is the situation of a Baseline run
  inside a block whose requirements it does not meet, and \<open>doomed_fails\<close> shows that such a run
  ends with an exceptional halt. \<open>in_block\<close> is the relation between the two states inside a block,
  \<open>at_block\<close> the relation at the start of one.
\<close>

section \<open>Baseline inside a block\<close>

lemma invoke_height:
  assumes "contract d f s" "\<And>f'. f \<noteq> CodePosition f'" "\<And>f'. f \<noteq> Terminating f'"
  shows "wp (invoke f s p) (\<lambda>(s', q). case q of None \<Rightarrow> \<not> ok_status (status s')
    | Some q' \<Rightarrow> q' = p + 1 \<and> gas_left s' \<le> gas_left s \<and> int (length (stack s')) = int (length (stack s)) + d)"
proof (cases f)
  case (Succeeding h)
  from assms(1) Succeeding obtain s' where "h s = Some s'" "s' = s\<lparr>stack := stack s'\<rparr>"
    "int (length (stack s')) = int (length (stack s)) + d" by (auto simp: succeeds_def wp_iff)
  moreover have "gas_left (s\<lparr>stack := st\<rparr>) = gas_left s" for st by simp
  ultimately have "gas_left s' = gas_left s" by metis
  with Succeeding \<open>h s = _\<close> \<open>int _ = _\<close> show ?thesis by simp
next
  case (MayFail h)
  from assms(1) MayFail obtain c s' where "h s = Some (c, s')" "gas_left s' \<le> gas_left s" "c \<noteq> IVMC_REVERT"
    "c = IVMC_SUCCESS \<longrightarrow> int (length (stack s')) = int (length (stack s)) + d"
    by (auto simp: may_fail_def wp_iff)
  with MayFail show ?thesis by (simp add: ok_status_def)
qed (use assms in blast)+

lemma dispatch_height:
  fixes s :: "(CodeAnalysis, 'h, 'z) state"
  assumes b: "op2fn op = Some b" and HL: "host_ok H" "store32 L"
    and rd: "ready (stack_height_required (traits op)) (stack_height_change (traits op)) s"
    and go: "invoke (baseline_impl L H b) s p = Some (s', Some q)"
  shows "int (length (stack s')) = int (length (stack s)) + stack_height_change (traits op)"
proof (cases b)
  case (Generic n)
  note tr = op2fn_traits [OF b]
  have con: "contract (snd (needs n)) (impl L H n) s"
    using impl_contract [OF op2fn_valid, of op n s H L] b Generic rd tr HL by simp
  have ncp: "impl L H n \<noteq> CodePosition f'" for f' by (cases n) simp_all
  have "impl L H n \<noteq> Terminating f'" for f' :: "(CodeAnalysis, 'h, 'z) state \<Rightarrow> _"
    using go Generic by (auto simp: bind_eq_Some_conv)
  from wpD [OF invoke_height [OF con ncp this, of p]] go Generic tr show ?thesis by auto
qed (use go op2fn_traits [OF b] in \<open>auto simp: jump_instr_def jumpi_instr_def jump_impl_def pc_instr_def push_instr_def
      push_instr_value_def on_stack_def bind_eq_Some_conv pop_eq_Some Let_def split: if_splits\<close>)

text \<open>What passing the requirements means.\<close>

definition meets :: "ivmc_revision \<Rightarrow> nat \<Rightarrow> ('a, 'h, 'z) state \<Rightarrow> bool" where
  "meets r op s \<longleftrightarrow> gas_costs r op \<noteq> undefined_cost \<and> gas_costs r op \<le> gas_left s \<and>
     stack_height_required (traits op) \<le> int (length (stack s)) \<and>
     (0 < stack_height_change (traits op) \<longrightarrow> length (stack s) < stack_limit)"

lemma base_step_dispatch:
  assumes inv: "base_inv L H g c s p" and p: "p < length c" and m: "meets (revision s) (opcode_at c p) s"
  obtains b where "op2fn (opcode_at c p) = Some b"
    "baseline_step L H s p = invoke (baseline_impl L H b) (s\<lparr>gas_left := gas_left s - gas_costs (revision s) (opcode_at c p)\<rparr>) p"
    "ready (stack_height_required (traits (opcode_at c p))) (stack_height_change (traits (opcode_at c p)))
       (s\<lparr>gas_left := gas_left s - gas_costs (revision s) (opcode_at c p)\<rparr>)"
proof -
  let ?op = "opcode_at c p"
  have start: "instr_start c p" and an: "analysis s = Some (analyze_baseline g c)" using inv by (simp_all add: base_inv_def)
  note opc = base_opcode(1,3) [OF start, of g]
  from m gas_costs_defined_since [of "revision s" ?op] op2fn_defined [of ?op] obtain b where b: "op2fn ?op = Some b"
    by (auto simp: meets_def)
  have req: "stack_height_required (traits ?op) \<le> 17" using traits_stack_range [of ?op] by simp
  have "check_requirements (get_baseline_instruction_table (revision s)) s ?op =
      (IVMC_SUCCESS, s\<lparr>gas_left := gas_left s - gas_costs (revision s) ?op\<rparr>)"
    using m req by (auto simp: check_requirements_def get_baseline_instruction_table_def meets_def Let_def stack_limit_def)
  then have "baseline_step L H s p = invoke (baseline_impl L H b) (s\<lparr>gas_left := gas_left s - gas_costs (revision s) ?op\<rparr>) p"
    using opc p b by (simp add: baseline_step_def an Let_def)
  moreover have "ready (stack_height_required (traits ?op)) (stack_height_change (traits ?op))
      (s\<lparr>gas_left := gas_left s - gas_costs (revision s) ?op\<rparr>)"
    using m inv by (auto simp: ready_def base_inv_def meets_def state_wf_def)
  ultimately show ?thesis using b that by blast
qed

lemma base_step_unmet:
  assumes inv: "base_inv L H g c s p" and p: "p < length c" and m: "\<not> meets (revision s) (opcode_at c p) s"
  shows "\<exists>s'. baseline_step L H s p = Some (s', None) \<and> \<not> ok_status (status s')"
proof -
  let ?op = "opcode_at c p"
  have start: "instr_start c p" and an: "analysis s = Some (analyze_baseline g c)"
    and wf: "length (stack s) \<le> stack_limit" using inv by (simp_all add: base_inv_def state_wf_def)
  note opc = base_opcode(1,3) [OF start, of g]
  obtain st s' where cr: "check_requirements (get_baseline_instruction_table (revision s)) s ?op = (st, s')"
    by (cases "check_requirements (get_baseline_instruction_table (revision s)) s ?op")
  from cr wf have "\<not> ok_status st"
  proof (cases rule: check_requirements_cases)
    case (fail k)
    then show ?thesis by simp
  next
    case ok
    with m show ?thesis by (simp add: meets_def)
  qed
  with cr opc p show ?thesis by (auto simp: baseline_step_def an Let_def ok_status_def)
qed

lemma terminating_fns:
  "impl L H n = Terminating f \<Longrightarrow> n = fn_stop \<or> (\<exists>st. n = fn_return st) \<or> n = fn_invalid \<or> n = fn_selfdestruct"
  by (cases n) simp_all

lemma op2fn_return: "op2fn op = Some (Generic (fn_return st)) \<Longrightarrow> op = OP_RETURN \<or> op = OP_REVERT"
  by (auto simp: op2fn_def set_range_def split: if_splits)

lemma op2fn_selfdestruct: "op2fn op = Some (Generic fn_selfdestruct) \<Longrightarrow> op = OP_SELFDESTRUCT"
  by (auto simp: op2fn_def set_range_def split: if_splits)

lemma not_terminator:
  assumes "\<not> is_terminator op" "op2fn op = Some b"
  shows "b \<noteq> fn_jump" "b \<noteq> fn_jumpi" "b \<noteq> Generic fn_stop" "b \<noteq> Generic (fn_return st)" "b \<noteq> Generic fn_selfdestruct"
  using assms op2fn_return [of op st] op2fn_selfdestruct [of op] op2fn_jumps [of op] op2fn_stop [of op]
  by (auto simp: is_terminator_def)

text \<open>One Baseline iteration inside a block: it fails or goes on to the next instruction.\<close>

lemma base_step_block:
  assumes inv: "base_inv L H g c s p" and p: "p < length c" and nt: "\<not> is_terminator (opcode_at c p)"
    and m: "meets (revision s) (opcode_at c p) s"
  shows "wp (baseline_step L H s p) (\<lambda>(s', q). case q of None \<Rightarrow> \<not> ok_status (status s')
    | Some q' \<Rightarrow> q' = next_pos c p \<and> gas_left s' \<le> gas_left s - gas_costs (revision s) (opcode_at c p) \<and>
        int (length (stack s')) = int (length (stack s)) + stack_height_change (traits (opcode_at c p)))"
proof -
  let ?op = "opcode_at c p" and ?k = "gas_left s - gas_costs (revision s) (opcode_at c p)"
  from base_step_dispatch [OF inv p m] obtain b where b: "op2fn ?op = Some b"
    and st: "baseline_step L H s p = invoke (baseline_impl L H b) (s\<lparr>gas_left := ?k\<rparr>) p"
    and rd: "ready (stack_height_required (traits ?op)) (stack_height_change (traits ?op)) (s\<lparr>gas_left := ?k\<rparr>)" .
  note tr = op2fn_traits [OF b] and nt' = not_terminator [OF nt b]
  have HL: "host_ok H" "store32 L" and start: "instr_start c p" and an: "analysis s = Some (analyze_baseline g c)"
    using inv by (simp_all add: base_inv_def)
  note nxt = base_opcode(4) [OF start p]
  have push: "wp (push_instr_value v (s\<lparr>gas_left := ?k\<rparr>)) (\<lambda>s'. gas_left s' \<le> ?k \<and> int (length (stack s')) = int (length (stack s)) + 1)"
    if "ready 0 1 (s\<lparr>gas_left := ?k\<rparr>)" for v
    using that by (simp add: push_instr_value_def on_stack_def ready_def)
  show ?thesis
  proof (cases b)
    case (Generic n)
    then have np: "next_pos c p = p + 1" using next_pos_plain [of c p] op2fn_push [of ?op] b by (cases "is_push ?op") auto
    have con: "contract (snd (needs n)) (impl L H n) (s\<lparr>gas_left := ?k\<rparr>)"
      using impl_contract [OF op2fn_valid, of ?op n] b Generic rd tr HL by simp
    show ?thesis
    proof (cases "n = fn_invalid")
      case True
      with Generic st show ?thesis by (simp add: invalid_instr_def ok_status_def)
    next
      case False
      have n1: "impl L H n \<noteq> CodePosition f'" for f' by (cases n) simp_all
      have n2: "impl L H n \<noteq> Terminating f'" for f'
        using terminating_fns [of L H n f'] nt' Generic False by auto
      have "wp (invoke (impl L H n) (s\<lparr>gas_left := ?k\<rparr>) p) (\<lambda>(s', q). case q of None \<Rightarrow> \<not> ok_status (status s')
        | Some q' \<Rightarrow> q' = p + 1 \<and> gas_left s' \<le> ?k \<and> int (length (stack s')) = int (length (stack s)) + snd (needs n))"
        using invoke_height [OF con n1 n2, of p] by (simp cong: option.case_cong)
      then show ?thesis using st Generic np tr by (simp cong: option.case_cong)
    qed
  next
    case fn_pc
    then have np: "next_pos c p = p + 1" using next_pos_plain [of c p] op2fn_push [of ?op] b by (cases "is_push ?op") auto
    have "ready 0 1 (s\<lparr>gas_left := ?k\<rparr>)" using rd tr fn_pc by (simp add: ready_def)
    from push [OF this] show ?thesis
      using st fn_pc np tr by (simp add: pc_instr_def wp_rules)
  next
    case (fn_push n)
    then have n: "is_push ?op" "n = push_len ?op" using b op2fn_push by auto
    then have np: "next_pos c p = p + (n + 1)" using next_pos_push [of c p] by simp
    have "ready 0 1 (s\<lparr>gas_left := ?k\<rparr>)" using rd tr fn_push by (simp add: ready_def)
    from push [OF this] show ?thesis
      using st fn_push np tr nxt an by (simp add: push_instr_def wp_rules Let_def length_padded)
  qed (use nt' in simp_all)
qed

section \<open>Runs that are bound to fail\<close>

text \<open>
  Inside block \<open>b\<close> at position \<open>p\<close>, where the requirements of the instructions up to here were met
  and those of the whole block are not. \<open>h0\<close> is the stack height at the start of the block.
\<close>

definition doomed :: "ivmc_revision \<Rightarrow> bytes \<Rightarrow> nat \<Rightarrow> block_analysis \<Rightarrow> nat \<Rightarrow> nat \<Rightarrow> ('a, 'h, 'z) state \<Rightarrow> bool" where
  "doomed r c p b np j s \<longleftrightarrow>
     (let B = fst (compile (get_op_table r) c (min p (length c)) b np j);
          h0 = int (length (stack s)) - ba_stack_change b
      in ba_stack_req b \<le> h0 \<and> h0 + ba_stack_max_growth b \<le> int stack_limit \<and>
         (gas_left s < ba_gas_cost B - ba_gas_cost b \<or> h0 < ba_stack_req B \<or>
          int stack_limit < h0 + ba_stack_max_growth B))"

lemma entry_defined:
  assumes "gas_costs r op \<noteq> undefined_cost"
  shows "entry_gas_cost (get_op_table r op) = gas_costs r op"
    "entry_stack_req (get_op_table r op) = stack_height_required (traits op)"
    "entry_stack_change (get_op_table r op) = stack_height_change (traits op)"
    "entry_fn (get_op_table r op) = instruction_implementations op"
  using assms by (simp_all add: get_op_table_def)

lemma min_next_pos: "p < length c \<Longrightarrow> min (next_pos c p) (length c) = after_push c p"
  by (simp add: after_push_def)

text \<open>A doomed run does not pass the end of its block, and stays doomed inside.\<close>

lemma doomed_step:
  assumes d: "doomed (revision s) c p b np j s" and p: "p < length c"
    and wf: "length (stack s) \<le> stack_limit" and m: "meets (revision s) (opcode_at c p) s"
  shows "\<not> ends_block c p"
    and "gas_left s' \<le> gas_left s - gas_costs (revision s) (opcode_at c p) \<Longrightarrow>
      int (length (stack s')) = int (length (stack s)) + stack_height_change (traits (opcode_at c p)) \<Longrightarrow>
      revision s' = revision s \<Longrightarrow>
      doomed (revision s') c (next_pos c p) (add_to_block (get_op_table (revision s) (opcode_at c p)) b)
        (np + length (own_push c p)) (next_index c p j) s'"
proof -
  let ?op = "opcode_at c p" and ?t = "get_op_table (revision s)"
  let ?b' = "add_to_block (?t ?op) b"
  define B where "B = fst (compile ?t c p b np j)"
  define h where "h = int (length (stack s))"
  have def: "gas_costs (revision s) ?op \<noteq> undefined_cost" using m by (simp add: meets_def)
  note e = entry_defined [OF def]
  have d': "ba_stack_req b \<le> h - ba_stack_change b" "h - ba_stack_change b + ba_stack_max_growth b \<le> int stack_limit"
    "gas_left s < ba_gas_cost B - ba_gas_cost b \<or> h - ba_stack_change b < ba_stack_req B \<or>
     int stack_limit < h - ba_stack_change b + ba_stack_max_growth B"
    using d p by (simp_all add: doomed_def Let_def B_def h_def)
  have le: "h + stack_height_change (traits ?op) \<le> int stack_limit"
    using m traits_stack_range [of ?op] wf
    by (cases "0 < stack_height_change (traits ?op)") (auto simp: meets_def h_def)
  have req: "stack_height_required (traits ?op) \<le> h" "gas_costs (revision s) ?op \<le> gas_left s"
    using m by (simp_all add: meets_def h_def)
  show *: "\<not> ends_block c p"
  proof
    assume "ends_block c p"
    then have "B = ?b'" using p by (simp add: B_def compile.simps [of _ c p] Let_def case_prod_beta)
    with d' le req e show False by (auto simp: add_to_block_simps)
  qed
  let ?B = "fst (compile ?t c (after_push c p) ?b' (np + length (own_push c p)) (next_index c p j))"
  have B: "B = ?B" using p * by (simp add: B_def compile.simps [of _ c p] Let_def case_prod_beta)
  show "doomed (revision s') c (next_pos c p) ?b' (np + length (own_push c p)) (next_index c p j) s'"
    if "gas_left s' \<le> gas_left s - gas_costs (revision s) ?op"
      "int (length (stack s')) = int (length (stack s)) + stack_height_change (traits ?op)" "revision s' = revision s"
    using d' le req e that unfolding doomed_def that(3) min_next_pos [OF p] Let_def B [symmetric]
    by (auto simp: add_to_block_simps h_def)
qed

theorem doomed_fails:
  assumes "base_inv L H g c s p" "doomed (revision s) c p b np j s" "loop (baseline_step L H) n s p = Exited s'"
  shows "\<not> ok_status (status s')"
  using assms
proof (induction n arbitrary: s p b np j)
  case 0
  then show ?case by simp
next
  case (Suc n)
  let ?r = "revision s"
  have gas: "0 \<le> gas_left s" and wf: "length (stack s) \<le> stack_limit"
    using Suc.prems(1) by (simp_all add: base_inv_def state_wf_def)
  have p: "p < length c"
  proof (rule ccontr)
    assume "\<not> p < length c"
    then have "fst (compile (get_op_table ?r) c (min p (length c)) b np j) = b" by (simp add: compile.simps)
    with Suc.prems(2) gas show False by (auto simp: doomed_def Let_def)
  qed
  show ?case
  proof (cases "meets ?r (opcode_at c p) s")
    case False
    with base_step_unmet [OF Suc.prems(1) p] Suc.prems(3) show ?thesis by auto
  next
    case True
    note ds = doomed_step [OF Suc.prems(2) p wf True]
    have nt: "\<not> is_terminator (opcode_at c p)" using ds(1) by (simp add: ends_block_def)
    from wpD [OF base_step_block [OF Suc.prems(1) p nt True]] obtain t q where
      step: "baseline_step L H s p = Some (t, q)" and
      q: "case q of None \<Rightarrow> \<not> ok_status (status t) | Some q' \<Rightarrow> q' = next_pos c p \<and>
        gas_left t \<le> gas_left s - gas_costs ?r (opcode_at c p) \<and>
        int (length (stack t)) = int (length (stack s)) + stack_height_change (traits (opcode_at c p))" by blast
    show ?thesis
    proof (cases q)
      case None
      with step q Suc.prems(3) show ?thesis by simp
    next
      case (Some q')
      with step wpD [OF base_step_post [OF Suc.prems(1)]] have
        inv: "base_inv L H g c t q'" and "env_same s t" by (auto simp: base_post_def)
      then have "revision t = ?r" by (simp add: env_same_def)
      with ds(2) [of t] q Some have "doomed (revision t) c q' (add_to_block (get_op_table ?r (opcode_at c p)) b)
          (np + length (own_push c p)) (next_index c p j) t" by simp
      from Suc.IH [OF inv this] Some step Suc.prems(3) show ?thesis by simp
    qed
  qed
qed

section \<open>The relation between the two interpreters\<close>

type_synonym adv_ext = "unit AdvancedExecutionState_ext"

text \<open>The Advanced state that belongs to a Baseline state: \<open>k\<close> less gas, block cost \<open>x\<close>.\<close>

definition adv_of :: "ivmc_revision \<Rightarrow> bytes \<Rightarrow> int \<Rightarrow> int \<Rightarrow> (CodeAnalysis, 'h) ExecutionState \<Rightarrow> 'h adv_state" where
  "adv_of r c k x s = recast k (Some (analyze r c)) \<lparr>current_block_cost = x\<rparr> s"

definition in_block ::
  "ivmc_revision \<Rightarrow> bytes \<Rightarrow> nat \<Rightarrow> block_analysis \<Rightarrow> nat \<Rightarrow> nat \<Rightarrow> (CodeAnalysis, 'h) ExecutionState \<Rightarrow> 'h adv_state \<Rightarrow> bool" where
  "in_block r c p b np j s t \<longleftrightarrow>
     (let B = fst (compile (get_op_table r) c (min p (length c)) b np j);
          k = ba_gas_cost B - ba_gas_cost b;
          h0 = int (length (stack s)) - ba_stack_change b
      in code_at (get_op_table r) c (instrs (analyze r c)) (push_values (analyze r c)) (min p (length c)) b np j \<and>
         (\<exists>st. t = adv_of r c k (ba_gas_cost B) (s\<lparr>stack := st\<rparr>) \<and> (p < length c \<longrightarrow> st = stack s)) \<and>
         k \<le> gas_left s \<and> ba_stack_req B \<le> h0 \<and> h0 + ba_stack_max_growth B \<le> int stack_limit)"

definition at_block ::
  "ivmc_revision \<Rightarrow> bytes \<Rightarrow> nat \<Rightarrow> nat \<Rightarrow> nat \<Rightarrow> (CodeAnalysis, 'h) ExecutionState \<Rightarrow> 'h adv_state \<Rightarrow> bool" where
  "at_block r c p np j s t \<longleftrightarrow>
     block_at (get_op_table r) c (instrs (analyze r c)) (push_values (analyze r c)) (min p (length c)) np j \<and>
     (\<exists>x. t = adv_of r c 0 x s)"

definition related ::
  "ivmc_revision \<Rightarrow> bytes \<Rightarrow> nat \<Rightarrow> nat \<Rightarrow> (CodeAnalysis, 'h) ExecutionState \<Rightarrow> 'h adv_state \<Rightarrow> bool" where
  "related r c p j s t \<longleftrightarrow> (\<exists>b np. in_block r c p b np j s t) \<or> (\<exists>np. at_block r c p np j s t)"

lemma adv_of_sel [simp]:
  "gas_left (adv_of r c k x s) = gas_left s - k" "stack (adv_of r c k x s) = stack s"
  "analysis (adv_of r c k x s) = Some (analyze r c)" "current_block_cost (adv_of r c k x s) = x"
  "status (adv_of r c k x s) = status s" "memory (adv_of r c k x s) = memory s" "host (adv_of r c k x s) = host s"
  "output_size (adv_of r c k x s) = output_size s" "output_offset (adv_of r c k x s) = output_offset s"
  "return_data (adv_of r c k x s) = return_data s"
  by (simp_all add: adv_of_def recast_def)

lemma adv_of_gas: "adv_of r c k x (s\<lparr>gas_left := g\<rparr>) = adv_of r c (k + gas_left s - g) x s"
  by (simp add: adv_of_def recast_def)

lemma get_op_beginblock: "entry_fn (get_op_table r OPX_BEGINBLOCK) = Some Fn_beginblock"
  and get_op_stop: "entry_fn (get_op_table r OP_STOP) = Some Fn_stop"
proof -
  have d: "gas_costs r OP_JUMPDEST \<noteq> undefined_cost" "gas_costs r OP_STOP \<noteq> undefined_cost"
    by (simp_all add: gas_costs_control undefined_cost_def)
  have "op2fn OP_JUMPDEST = Some (Generic fn_jumpdest)" "op2fn OP_STOP = Some (Generic fn_stop)"
    by (simp_all add: op2fn_def set_range_def)
  with entry_defined(4) [OF d(1)] entry_defined(4) [OF d(2)] dispatch_agrees [of OP_JUMPDEST] dispatch_agrees [of OP_STOP]
  show "entry_fn (get_op_table r OPX_BEGINBLOCK) = Some Fn_beginblock" "entry_fn (get_op_table r OP_STOP) = Some Fn_stop"
    by simp_all
qed

text \<open>An exceptional halt, without output.\<close>

definition halted :: "('a, 'h, 'z) state \<Rightarrow> bool" where
  "halted t \<longleftrightarrow> \<not> ok_status (status t) \<and> output_size t = 0"

text \<open>The start of a block: its requirements are met, or both interpreters fail.\<close>

lemma at_block_step:
  assumes inv: "base_inv L H g c s p" and r: "revision s = r" and lim: "within_limits c (gas_left s)"
    and ab: "at_block r c p np j s t"
  shows "(\<exists>t'. advanced_step L H t j = Some (t', Some (Suc j)) \<and> in_block r c p (new_block j) np (Suc j) s t') \<or>
    (\<exists>t'. advanced_step L H t j = Some (t', None) \<and> halted t' \<and> doomed r c p (new_block j) np (Suc j) s)"
proof -
  let ?tb = "get_op_table r" and ?p = "min p (length c)"
  define B where "B = fst (compile ?tb c ?p (new_block j) np (Suc j))"
  from ab obtain x where t: "t = adv_of r c 0 x s" by (auto simp: at_block_def)
  from ab have ba: "block_at ?tb c (instrs (analyze r c)) (push_values (analyze r c)) ?p np j" by (simp add: at_block_def)
  note hd = block_at_header [OF ba]
  have h: "int (length (stack s)) \<le> 1024" using inv by (simp add: base_inv_def state_wf_def stack_limit_def)
  note ex = close_exact(1,2) [OF B_def lim] close_exact(3) [OF B_def h] close_exact(4) [OF B_def, of "int (length (stack s))"]
  have step: "advanced_step L H t j = opx_beginblock (Arg_block (close B)) j t"
    using hd(1,2) by (simp add: advanced_step_def t header_def get_op_beginblock B_def)
  have nb: "ba_gas_cost (new_block j) = 0" "ba_stack_req (new_block j) = 0" "ba_stack_max_growth (new_block j) = 0"
    "ba_stack_change (new_block j) = 0" by (simp_all add: new_block_def)
  have up: "adv_of r c 0 x s\<lparr>gas_left := gas_left s - k, current_block_cost := y\<rparr> = adv_of r c k y s" for k y
    by (simp add: adv_of_def recast_def)
  show ?thesis
  proof (cases "ba_gas_cost B \<le> gas_left s \<and> ba_stack_req B \<le> int (length (stack s)) \<and>
      int (length (stack s)) + ba_stack_max_growth B \<le> 1024")
    case True
    then have "advanced_step L H t j = Some (adv_of r c (ba_gas_cost B) (ba_gas_cost B) s, Some (Suc j))"
      unfolding step unfolding opx_beginblock_def t using ex h by (auto simp: Let_def stack_limit_def up not_less)
    moreover have "in_block r c p (new_block j) np (Suc j) s (adv_of r c (ba_gas_cost B) (ba_gas_cost B) s)"
      unfolding in_block_def B_def [symmetric] Let_def nb
      using True hd(3) by (auto simp: stack_limit_def intro!: exI [of _ "stack s"])
    ultimately show ?thesis by blast
  next
    case False
    moreover have "output_size s = 0" using inv by (simp add: base_inv_def)
    ultimately have "\<exists>t'. advanced_step L H t j = Some (t', None) \<and> halted t'"
      unfolding step unfolding opx_beginblock_def t using ex h
      by (auto simp: Let_def stack_limit_def exit_def ok_status_def halted_def)
    moreover have "doomed r c p (new_block j) np (Suc j) s"
      unfolding doomed_def B_def [symmetric] Let_def nb using False h by (auto simp: stack_limit_def)
    ultimately show ?thesis by blast
  qed
qed

section \<open>One instruction inside a block\<close>

text \<open>What is known of the two states inside a block, at an opcode that is defined.\<close>

lemma in_block_here:
  assumes ib: "in_block r c p b np j s t" and p: "p < length c" and r: "revision s = r"
    and def: "gas_costs r (opcode_at c p) \<noteq> undefined_cost"
    and b': "b' = add_to_block (get_op_table r (opcode_at c p)) b"
    and B: "B = fst (compile (get_op_table r) c p b np j)"
    and k: "k = ba_gas_cost B - ba_gas_cost b'"
  shows "meets r (opcode_at c p) s" "0 \<le> k"
    "t = adv_of r c k (ba_gas_cost B) (s\<lparr>gas_left := gas_left s - gas_costs r (opcode_at c p)\<rparr>)"
    "k \<le> gas_left s - gas_costs r (opcode_at c p)"
    "code_at (get_op_table r) c (instrs (analyze r c)) (push_values (analyze r c)) p b np j"
    "ends_block c p \<Longrightarrow> k = 0"
proof -
  let ?tb = "get_op_table r" and ?op = "opcode_at c p"
  note e = entry_defined [OF def]
  from ib p obtain st where t: "t = adv_of r c (ba_gas_cost B - ba_gas_cost b) (ba_gas_cost B) (s\<lparr>stack := st\<rparr>)" "st = stack s"
    and ca: "code_at ?tb c (instrs (analyze r c)) (push_values (analyze r c)) p b np j"
    and gas: "ba_gas_cost B - ba_gas_cost b \<le> gas_left s"
    and req: "ba_stack_req B \<le> int (length (stack s)) - ba_stack_change b"
    and gr: "int (length (stack s)) - ba_stack_change b + ba_stack_max_growth B \<le> int stack_limit"
    by (auto simp: in_block_def Let_def B [symmetric])
  show "code_at ?tb c (instrs (analyze r c)) (push_values (analyze r c)) p b np j" by (rule ca)
  have bnd: "ba_gas_cost b' \<le> ba_gas_cost B" "ba_stack_req b' \<le> ba_stack_req B" "ba_stack_max_growth b' \<le> ba_stack_max_growth B"
    using code_at_step(3,4) [OF ca p b'] compile_bounds(1-3) [OF refl, of b' r c "after_push c p" "np + length (own_push c p)" "next_index c p j"]
    by (cases "ends_block c p"; simp add: B)+
  then show "0 \<le> k" by (simp add: k)
  have b'g: "ba_gas_cost b' = ba_gas_cost b + gas_costs r ?op" by (simp add: b' add_to_block_simps e)
  show "meets r ?op s"
    using bnd gas req gr def k
    unfolding b' add_to_block_simps e by (auto simp: meets_def stack_limit_def)
  show "k \<le> gas_left s - gas_costs r ?op" using gas b'g by (simp add: k)
  show "t = adv_of r c k (ba_gas_cost B) (s\<lparr>gas_left := gas_left s - gas_costs r ?op\<rparr>)"
    using t b'g by (simp add: k adv_of_gas)
  show "k = 0" if "ends_block c p" using code_at_step(3) [OF ca p b' that] by (simp add: k B)
qed

text \<open>The instruction after it: in the same block or at the start of the next.\<close>

lemma block_next:
  assumes ib: "in_block r c p b np j s t" and p: "p < length c" and r: "revision s = r"
    and def: "gas_costs r (opcode_at c p) \<noteq> undefined_cost"
    and b': "b' = add_to_block (get_op_table r (opcode_at c p)) b"
    and B: "B = fst (compile (get_op_table r) c p b np j)"
    and k: "k = ba_gas_cost B - ba_gas_cost b'"
    and h: "int (length (stack s2)) = int (length (stack s)) + stack_height_change (traits (opcode_at c p))"
    and t2: "t2 = adv_of r c k (ba_gas_cost B) (s2\<lparr>stack := st\<rparr>)" "next_pos c p < length c \<or> ends_block c p \<longrightarrow> st = stack s2"
    and gas: "k \<le> gas_left s2"
  shows "related r c (next_pos c p) (if opcode_at c p = OP_JUMPDEST then j else Suc j) s2 t2"
proof -
  let ?tb = "get_op_table r" and ?np = "np + length (own_push c p)"
  note here = in_block_here [OF ib p r def b' B k]
  note step = code_at_step(3,4) [OF here(5) p b']
  from ib p have req: "ba_stack_req B \<le> int (length (stack s)) - ba_stack_change b"
    "int (length (stack s)) - ba_stack_change b + ba_stack_max_growth B \<le> int stack_limit"
    by (auto simp: in_block_def Let_def B [symmetric])
  show ?thesis
  proof (cases "ends_block c p")
    case True
    have j: "next_index c p j - 1 = (if opcode_at c p = OP_JUMPDEST then j else Suc j)" using True by (simp add: next_index_def)
    have "at_block r c (next_pos c p) ?np (next_index c p j - 1) s2 t2"
      unfolding at_block_def min_next_pos [OF p]
      using step(1) [OF True] here(6) [OF True] t2 True by auto
    then show ?thesis unfolding j related_def by blast
  next
    case False
    have j: "next_index c p j = (if opcode_at c p = OP_JUMPDEST then j else Suc j)" using False by (simp add: next_index_def)
    note s = step(2) [OF False, folded B]
    have ch: "ba_stack_change b' = ba_stack_change b + stack_height_change (traits (opcode_at c p))"
      by (simp add: b' add_to_block_simps entry_defined [OF def])
    have "in_block r c (next_pos c p) b' ?np (next_index c p j) s2 t2"
      unfolding in_block_def min_next_pos [OF p] s [THEN conjunct1, symmetric] k [symmetric] Let_def
      using s t2 gas h req ch False by auto
    then show ?thesis unfolding j related_def by blast
  qed
qed

lemma block_doomed:
  assumes ib: "in_block r c p b np j s t" and p: "p < length c" and r: "revision s = r"
    and def: "gas_costs r (opcode_at c p) \<noteq> undefined_cost"
    and b': "b' = add_to_block (get_op_table r (opcode_at c p)) b"
    and B: "B = fst (compile (get_op_table r) c p b np j)"
    and k: "k = ba_gas_cost B - ba_gas_cost b'"
    and h: "int (length (stack s2)) = int (length (stack s)) + stack_height_change (traits (opcode_at c p))"
    and gas: "gas_left s2 < k" "0 \<le> gas_left s2"
  shows "\<exists>b2 np2 j2. doomed r c (next_pos c p) b2 np2 j2 s2"
proof -
  let ?tb = "get_op_table r" and ?np = "np + length (own_push c p)"
  note here = in_block_here [OF ib p r def b' B k]
  have ne: "\<not> ends_block c p" using here(6) gas by auto
  note s = code_at_step(4) [OF here(5) p b' ne, folded B]
  from ib p have req: "ba_stack_req B \<le> int (length (stack s)) - ba_stack_change b"
    "int (length (stack s)) - ba_stack_change b + ba_stack_max_growth B \<le> int stack_limit"
    by (auto simp: in_block_def Let_def B [symmetric])
  have ch: "ba_stack_change b' = ba_stack_change b + stack_height_change (traits (opcode_at c p))"
    by (simp add: b' add_to_block_simps entry_defined [OF def])
  have "ba_stack_req b' \<le> ba_stack_req B" "ba_stack_max_growth b' \<le> ba_stack_max_growth B"
    using s compile_bounds(2,3) [OF refl, of b' r c "after_push c p" ?np "next_index c p j"] by simp_all
  then have "doomed r c (next_pos c p) b' ?np (next_index c p j) s2"
    unfolding doomed_def min_next_pos [OF p] s [THEN conjunct1, symmetric] Let_def
    using gas h req ch k by auto
  then show ?thesis by blast
qed

end
