(* ===== verification/Matching.thy ===== *)
theory Matching
  imports Block_Relation
begin

text \<open>
  The simulation of the Baseline interpreter by the Advanced one, instruction by instruction:
  \<open>matched\<close> says what an Advanced iteration owes to a Baseline one, \<open>spot\<close> collects what is known at
  a defined opcode inside a block, and there is one lemma per kind of instruction.
\<close>

section \<open>Matching iterations\<close>

text \<open>
  Final states: after a success or a revert the observable parts are equal, otherwise both
  interpreters report some exceptional halt.
\<close>

definition agree :: "(CodeAnalysis, 'h) ExecutionState \<Rightarrow> 'h adv_state \<Rightarrow> bool" where
  "agree s t \<longleftrightarrow>
     (if ok_status (status s)
      then status t = status s \<and> gas_left t = gas_left s \<and> memory t = memory s \<and> host t = host s \<and>
           output_size t = output_size s \<and> (output_size s \<noteq> 0 \<longrightarrow> output_offset t = output_offset s)
      else halted t)"

text \<open>
  The result \<open>(s1, q)\<close> of a Baseline iteration, against the Advanced state \<open>t\<close> at \<open>j\<close>: both end; or
  Advanced fails and Baseline is bound to; or both go on; or Advanced has nothing to do.
\<close>

definition matched ::
  "lib \<Rightarrow> 'h host_interface \<Rightarrow> ivmc_revision \<Rightarrow> bytes \<Rightarrow> 'h adv_state \<Rightarrow> nat \<Rightarrow>
   (CodeAnalysis, 'h) ExecutionState \<times> nat option \<Rightarrow> bool" where
  "matched L H r c t j = (\<lambda>(s1, q). case q of
     None \<Rightarrow> \<exists>t1. advanced_step L H t j = Some (t1, None) \<and> agree s1 t1
   | Some q' \<Rightarrow>
       (\<exists>t1 b np k. advanced_step L H t j = Some (t1, None) \<and> halted t1 \<and> doomed r c q' b np k s1) \<or>
       (\<exists>t1 j'. advanced_step L H t j = Some (t1, Some j') \<and> related r c q' j' s1 t1) \<or>
       related r c q' j s1 t)"

text \<open>The situation at a defined opcode inside a block; \<open>s1\<close> is the Baseline state after the charge.\<close>

definition spot where
  "spot r c p b np j s t b' B k s1 \<longleftrightarrow>
     in_block r c p b np j s t \<and> p < length c \<and> revision s = r \<and> output_size s = 0 \<and>
     gas_costs r (opcode_at c p) \<noteq> undefined_cost \<and>
     b' = add_to_block (get_op_table r (opcode_at c p)) b \<and>
     B = fst (compile (get_op_table r) c p b np j) \<and> k = ba_gas_cost B - ba_gas_cost b' \<and>
     s1 = s\<lparr>gas_left := gas_left s - gas_costs r (opcode_at c p)\<rparr>"

lemma spot_facts:
  assumes "spot r c p b np j s t b' B k s1"
  shows "0 \<le> k" "t = adv_of r c k (ba_gas_cost B) s1" "k \<le> gas_left s1" "ends_block c p \<Longrightarrow> k = 0"
    "code_at (get_op_table r) c (instrs (analyze r c)) (push_values (analyze r c)) p b np j"
    "length (stack s1) = length (stack s)" "revision s1 = r" "p < length c" "output_size s1 = 0"
  using assms in_block_here [of r c p b np j s t b' B k] by (auto simp: spot_def)

lemma spot_instr:
  assumes "spot r c p b np j s t b' B k s1" "op2fn (opcode_at c p) = Some f" "opcode_at c p \<noteq> OP_JUMPDEST"
  shows "advanced_step L H t j = exec_fn L H (advanced_fn f) (arg_at c p (ba_gas_cost b') np) j t"
proof -
  note sf = spot_facts [OF assms(1)]
  have b': "b' = add_to_block (get_op_table r (opcode_at c p)) b" and def: "gas_costs r (opcode_at c p) \<noteq> undefined_cost"
    using assms(1) by (simp_all add: spot_def)
  note i = code_at_step(1) [OF sf(5,8) b' assms(3)]
  have "entry_fn (get_op_table r (opcode_at c p)) = Some (advanced_fn f)"
    using entry_defined(4) [OF def] dispatch_agrees [of "opcode_at c p"] assms(2) by simp
  with i show ?thesis by (simp add: advanced_step_def sf(2))
qed

lemma spot_next:
  assumes "spot r c p b np j s t b' B k s1" "opcode_at c p \<noteq> OP_JUMPDEST"
    and "int (length (stack s2)) = int (length (stack s1)) + stack_height_change (traits (opcode_at c p))" "k \<le> gas_left s2"
  shows "related r c (next_pos c p) (Suc j) s2 (adv_of r c k (ba_gas_cost B) s2)"
  using assms block_next [of r c p b np j s t b' B k s2 "adv_of r c k (ba_gas_cost B) s2" "stack s2"] by (simp add: spot_def)

lemma spot_doomed:
  assumes "spot r c p b np j s t b' B k s1"
    and "int (length (stack s2)) = int (length (stack s1)) + stack_height_change (traits (opcode_at c p))"
    and "gas_left s2 < k" "0 \<le> gas_left s2"
  shows "\<exists>b2 np2 j2. doomed r c (next_pos c p) b2 np2 j2 s2"
  using assms block_doomed [of r c p b np j s t b' B k s2] by (simp add: spot_def)

section \<open>Instructions\<close>

lemma matched_succeeding:
  fixes f0 :: "(CodeAnalysis, 'h) ExecutionState \<Rightarrow> (CodeAnalysis, 'h) ExecutionState option"
  assumes sp: "spot r c p b np j s t b' B k s1" and f: "op2fn (opcode_at c p) = Some (Generic n)"
    and n: "impl L H n = Succeeding f0" "n \<noteq> fn_gas" "n \<noteq> fn_jumpdest" and np: "next_pos c p = p + 1"
    and con: "contract (stack_height_change (traits (opcode_at c p))) (impl L H n) s1"
  shows "wp (invoke (impl L H n) s1 p) (matched L H r c t j)"
proof -
  note sf = spot_facts [OF sp]
  have nj: "opcode_at c p \<noteq> OP_JUMPDEST" using f n(3) by (auto simp: op2fn_def set_range_def)
  obtain g0 :: "'h adv_state \<Rightarrow> 'h adv_state option" where g0: "impl L H n = Succeeding g0" using n(1) by (cases n) auto
  have adv: "advanced_fn (Generic n) = Fn_op n" using n by (cases n) auto
  from con n(1) obtain s2 where s2: "f0 s1 = Some s2" "s2 = s1\<lparr>stack := stack s2\<rparr>"
    "int (length (stack s2)) = int (length (stack s1)) + stack_height_change (traits (opcode_at c p))"
    by (auto simp: succeeds_def wp_iff)
  have gas: "gas_left s2 = gas_left s1" by (subst s2(2)) simp
  have "g0 t = Some (adv_of r c k (ba_gas_cost B) s2)"
    using natural_succeeding [OF n(1) g0 n(2), of k "Some (analyze r c)" "\<lparr>current_block_cost = ba_gas_cost B\<rparr>"] s2(1)
    by (simp add: natural_def sf(2) adv_of_def)
  then have "advanced_step L H t j = Some (adv_of r c k (ba_gas_cost B) s2, Some (Suc j))"
    using spot_instr [OF sp f nj, of L H] adv g0 by simp
  with spot_next [OF sp nj s2(3)] gas sf(3) n(1) s2(1) np show ?thesis
    by (auto simp: matched_def)
qed

lemma matched_may_fail:
  fixes f0 :: "(CodeAnalysis, 'h) ExecutionState \<Rightarrow> (ivmc_status_code \<times> (CodeAnalysis, 'h) ExecutionState) option"
  assumes sp: "spot r c p b np j s t b' B k s1" and f: "op2fn (opcode_at c p) = Some (Generic n)"
    and n: "impl L H n = MayFail f0" "\<not> reads_gas n" and np: "next_pos c p = p + 1"
    and con: "contract (stack_height_change (traits (opcode_at c p))) (impl L H n) s1"
    and cont: "contract (stack_height_change (traits (opcode_at c p))) (impl L H n) t"
  shows "wp (invoke (impl L H n) s1 p) (matched L H r c t j)"
proof -
  note sf = spot_facts [OF sp]
  have nj: "opcode_at c p \<noteq> OP_JUMPDEST" using f n(1) by (auto simp: op2fn_def set_range_def)
  obtain g0 :: "'h adv_state \<Rightarrow> (ivmc_status_code \<times> 'h adv_state) option" where g0: "impl L H n = MayFail g0"
    using n(1) by (cases n) auto
  have adv: "advanced_fn (Generic n) = Fn_op n" using n by (cases n) auto
  from con n(1) sf(9) obtain cd s2 where s2: "f0 s1 = Some (cd, s2)" "cd \<noteq> IVMC_REVERT" "output_size s2 = 0"
    "cd = IVMC_SUCCESS \<longrightarrow> 0 \<le> gas_left s2 \<and>
       int (length (stack s2)) = int (length (stack s1)) + stack_height_change (traits (opcode_at c p))"
    by (auto simp: may_fail_def wp_iff)
  have sh: "shifts k (Some (analyze r c)) \<lparr>current_block_cost = ba_gas_cost B\<rparr> (f0 s1) (g0 t)"
    using impl_shifts [OF n(1) g0 n(2) sf(1)] by (simp add: sf(2) adv_of_def)
  have step: "advanced_step L H t j = op_wrap (MayFail g0) j t"
    using spot_instr [OF sp f nj, of L H] adv g0 by simp
  from sh s2(1) consider (same) "g0 t = Some (cd, adv_of r c k (ba_gas_cost B) s2)"
    | (out) t' where "g0 t = Some (IVMC_OUT_OF_GAS, t')" "cd = IVMC_SUCCESS \<longrightarrow> gas_left s2 < k"
    by (auto simp: shifts_def adv_of_def)
  then show ?thesis
  proof cases
    case same
    show ?thesis
    proof (cases "cd = IVMC_SUCCESS")
      case True
      then have "k \<le> gas_left s2" using cont g0 same by (simp add: may_fail_def)
      with True spot_next [OF sp nj, of s2] s2 n(1) np same step show ?thesis by (auto simp: matched_def)
    next
      case False
      with same step s2 n(1) show ?thesis by (auto simp: matched_def agree_def ok_status_def exit_def halted_def)
    qed
  next
    case out
    moreover have "output_size t' = 0" using cont g0 out sf(2,9) by (simp add: may_fail_def)
    ultimately have a: "\<exists>t1. advanced_step L H t j = Some (t1, None) \<and> halted t1"
      by (simp add: step exit_def ok_status_def halted_def)
    show ?thesis
    proof (cases "cd = IVMC_SUCCESS")
      case True
      with spot_doomed [OF sp, of s2] s2 out a n(1) np show ?thesis by (auto simp: matched_def)
    next
      case False
      with a s2 n(1) show ?thesis by (auto simp: matched_def agree_def ok_status_def)
    qed
  qed
qed

text \<open>The gas of the block still to come is what the Advanced interpreter corrects by.\<close>

lemma spot_correction:
  assumes "spot r c p b np j s t b' B k s1"
  shows "current_block_cost t - ba_gas_cost b' = k" "t\<lparr>gas_left := gas_left t + k\<rparr> = adv_of r c 0 (ba_gas_cost B) s1"
  using spot_facts(2) [OF assms] assms by (simp_all add: spot_def adv_of_def recast_def)

lemma adv_of_shift: "(adv_of r c 0 x s)\<lparr>gas_left := gas_left s - k\<rparr> = adv_of r c k x s"
  by (simp add: adv_of_def recast_def)

lemma gas_op_arg: "gas_op (opcode_at c p) \<Longrightarrow> arg_at c p cost np = Arg_number cost"
  by (auto simp: arg_at_def gas_op_def any_small_push_def any_large_push_def Let_def)

lemma matched_exact_gas:
  fixes f0 :: "(CodeAnalysis, 'h) ExecutionState \<Rightarrow> (ivmc_status_code \<times> (CodeAnalysis, 'h) ExecutionState) option"
    and g0 :: "'h adv_state \<Rightarrow> (ivmc_status_code \<times> 'h adv_state) option"
  assumes sp: "spot r c p b np j s t b' B k s1" and f: "op2fn (opcode_at c p) = Some (Generic n)"
    and n: "impl L H n = MayFail f0" "impl L H n = MayFail g0" "reads_gas n"
    and np: "next_pos c p = p + 1" and g: "gas_op (opcode_at c p)"
    and ex: "exec_fn L H (advanced_fn (Generic n)) arg j t = with_exact_gas g0 arg j t"
    and con: "contract (stack_height_change (traits (opcode_at c p))) (impl L H n) s1"
    and arg: "arg = Arg_number (ba_gas_cost b')"
  shows "wp (invoke (impl L H n) s1 p) (matched L H r c t j)"
proof -
  note sf = spot_facts [OF sp] and co = spot_correction [OF sp]
  have nj: "opcode_at c p \<noteq> OP_JUMPDEST" using g by (auto simp: gas_op_def)
  from con n(1) sf(9) obtain cd s2 where s2: "f0 s1 = Some (cd, s2)" "cd \<noteq> IVMC_REVERT" "output_size s2 = 0"
    "cd = IVMC_SUCCESS \<longrightarrow> 0 \<le> gas_left s2 \<and>
       int (length (stack s2)) = int (length (stack s1)) + stack_height_change (traits (opcode_at c p))"
    by (auto simp: may_fail_def wp_iff)
  have g0: "g0 (adv_of r c 0 (ba_gas_cost B) s1) = Some (cd, adv_of r c 0 (ba_gas_cost B) s2)"
    using impl_same0_reads [OF n, of "Some (analyze r c)" "\<lparr>current_block_cost = ba_gas_cost B\<rparr>" s1] s2(1)
    by (simp add: same0_def adv_of_def)
  have "advanced_step L H t j = with_exact_gas g0 arg j t"
    using spot_instr [OF sp f nj, of L H] gas_op_arg [OF g] ex arg by simp
  then have step: "advanced_step L H t j =
      (if cd \<noteq> IVMC_SUCCESS then Some (exit cd (adv_of r c 0 (ba_gas_cost B) s2))
       else if gas_left s2 < k then Some (exit IVMC_OUT_OF_GAS (adv_of r c k (ba_gas_cost B) s2))
       else Some (adv_of r c k (ba_gas_cost B) s2, Some (Suc j)))"
    by (simp add: with_exact_gas_def arg co g0 adv_of_shift Let_def)
  show ?thesis
  proof (cases "cd = IVMC_SUCCESS")
    case False
    with step s2 n(1) show ?thesis by (auto simp: matched_def agree_def ok_status_def exit_def halted_def)
  next
    case True
    show ?thesis
    proof (cases "gas_left s2 < k")
      case lt: True
      with True s2 spot_doomed [OF sp, of s2] step n(1) np show ?thesis
        by (auto simp: matched_def exit_def ok_status_def halted_def)
    next
      case False
      with True s2 spot_next [OF sp nj, of s2] step n(1) np show ?thesis by (auto simp: matched_def)
    qed
  qed
qed

lemma matched_gas:
  assumes sp: "spot r c p b np j s t b' B k s1" and f: "op2fn (opcode_at c p) = Some (Generic fn_gas)"
    and L: "lib_ok L" and small: "gas_left s1 < 2 ^ 63" and np: "next_pos c p = p + 1" and g: "gas_op (opcode_at c p)"
    and con: "contract (stack_height_change (traits (opcode_at c p))) (impl L H fn_gas) s1"
  shows "wp (invoke (impl L H fn_gas) s1 p) (matched L H r c t j)"
proof -
  note sf = spot_facts [OF sp] and co = spot_correction [OF sp]
  have nj: "opcode_at c p \<noteq> OP_JUMPDEST" using g by (auto simp: gas_op_def)
  from con obtain s2 where s2: "gas_instr L s1 = Some s2" "s2 = s1\<lparr>stack := stack s2\<rparr>"
    "int (length (stack s2)) = int (length (stack s1)) + stack_height_change (traits (opcode_at c p))"
    by (auto simp: succeeds_def wp_iff)
  have gas: "gas_left s2 = gas_left s1" by (subst s2(2)) simp
  have pos: "0 \<le> gas_left s1" using sf(1,3) by simp
  then have "intx_of_int64 L (gas_left s1) = word_of_int (gas_left s1)" using L small by (simp add: lib_ok_def)
  moreover have "(ucast (word_of_int (gas_left s1) :: u64) :: uint256) = word_of_int (gas_left s1)"
    using pos small by (simp add: unsigned_of_int take_bit_int_eq_self)
  ultimately have v: "intx_of_int64 L (gas_left s1) = ucast (word_of_int (gas_left s1) :: u64)" by simp
  have gl: "gas_left t + k = gas_left s1" by (simp add: sf(2))
  have "push_instr_value (ucast (word_of_int (gas_left s1) :: u64)) t = Some (adv_of r c k (ba_gas_cost B) s2)"
    using s2(1) by (simp add: sf(2) adv_of_def push_recast gas_instr_def v)
  then have "advanced_step L H t j = Some (adv_of r c k (ba_gas_cost B) s2, Some (Suc j))"
    unfolding spot_instr [OF sp f nj, of L H] gas_op_arg [OF g] advanced_fn.simps exec_fn.simps op_gas_def
      arg_number.simps Let_def co(1) gl bind.bind_lunit by simp
  with spot_next [OF sp nj s2(3)] gas sf(3) s2(1) np show ?thesis by (auto simp: matched_def)
qed

lemma return_matches:
  assumes "return_instr st s1 = Some (cd, s2)" and con: "terminates (return_instr st s1) s1" and st: "ok_status st" and t: "t = adv_of r c 0 x s1"
  shows "\<exists>t2. op_return st t = Some (t2, None) \<and> agree (s2\<lparr>status := cd\<rparr>) t2"
proof -
  from assms(1) obtain off size ok s3 where stk: "stk_get (stack s1) 0 = Some off" "stk_get (stack s1) 1 = Some size"
    and cm: "check_memory s1 off size = Some (ok, s3)"
    and s2: "if ok then cd = st \<and> s2 = s3\<lparr>output_offset := to_size off, output_size := to_size size\<rparr>
             else cd = IVMC_OUT_OF_GAS \<and> s2 = s3"
    by (auto simp: return_instr_def bind_eq_Some_conv split: if_splits)
  have "check_memory t off size = Some (ok, adv_of r c 0 x s3)"
    using check_memory_same0 [of "Some (analyze r c)" "\<lparr>current_block_cost = x\<rparr>" s1 off size] cm
    by (simp add: same0_def t adv_of_def)
  then have "op_return st t = Some (if ok
      then exit st (let u = (adv_of r c 0 x s3)\<lparr>output_size := to_size size\<rparr> in
        if to_size size \<noteq> 0 then u\<lparr>output_offset := to_size off\<rparr> else u)
      else exit IVMC_OUT_OF_GAS (adv_of r c 0 x s3))"
    using stk by (simp add: op_return_def t Let_def)
  moreover have "\<not> ok \<Longrightarrow> output_size s3 = 0" using con assms(1) s2 by (simp add: terminates_def ok_status_def)
  ultimately show ?thesis
    using s2 st by (cases ok) (auto simp: exit_def agree_def ok_status_def halted_def Let_def)
qed

lemma matched_terminating:
  fixes f0 :: "(CodeAnalysis, 'h) ExecutionState \<Rightarrow> (ivmc_status_code \<times> (CodeAnalysis, 'h) ExecutionState) option"
  assumes sp: "spot r c p b np j s t b' B k s1" and f: "op2fn (opcode_at c p) = Some (Generic n)"
    and n: "impl L H n = Terminating f0" and k: "n \<noteq> fn_invalid \<longrightarrow> k = 0"
    and con: "contract (stack_height_change (traits (opcode_at c p))) (impl L H n) s1"
  shows "wp (invoke (impl L H n) s1 p) (matched L H r c t j)"
proof -
  note sf = spot_facts [OF sp]
  have nj: "opcode_at c p \<noteq> OP_JUMPDEST" using f n by (auto simp: op2fn_def set_range_def)
  note step = spot_instr [OF sp f nj, of L H]
  from terminating_fns [OF n] consider "n = fn_invalid" | "n = fn_stop" | st where "n = fn_return st" | "n = fn_selfdestruct"
    by blast
  then show ?thesis
  proof cases
    case 1
    with step show ?thesis
      by (simp add: matched_def invalid_instr_def op_invalid_def exit_def agree_def ok_status_def halted_def sf)
  next
    case 2
    with step k show ?thesis
      by (simp add: matched_def stop_instr_def op_stop_def exit_def agree_def ok_status_def sf(2))
  next
    case (3 st)
    with k sf(2) have t: "t = adv_of r c 0 (ba_gas_cost B) s1" by simp
    from con 3 obtain cd s2 where s2: "return_instr st s1 = Some (cd, s2)" by (auto simp: terminates_def wp_iff)
    from return_matches [OF s2 _ _ t] con op2fn_valid [OF f] 3 obtain t2 where
      "op_return st t = Some (t2, None)" "agree (s2\<lparr>status := cd\<rparr>) t2" by auto
    with step 3 s2 show ?thesis by (simp add: matched_def)
  next
    case 4
    with k sf(2) have t: "t = adv_of r c 0 (ba_gas_cost B) s1" by simp
    from con 4 obtain cd s2 where s2: "selfdestruct_instr L H s1 = Some (cd, s2)" "\<not> ok_status cd \<longrightarrow> output_size s2 = 0"
      by (auto simp: terminates_def wp_iff)
    have "selfdestruct_instr L H t = Some (cd, adv_of r c 0 (ba_gas_cost B) s2)"
      using selfdestruct_same0 [of "Some (analyze r c)" "\<lparr>current_block_cost = ba_gas_cost B\<rparr>" L H s1] s2
      by (simp add: same0_def t adv_of_def)
    with step 4 s2 show ?thesis by (auto simp: matched_def op_selfdestruct_def exit_def agree_def halted_def)
  qed
qed

section \<open>Instructions with their own functions\<close>

lemma push_value_eq:
  "length (stack s) < stack_limit \<Longrightarrow> push_instr_value v s = Some (s\<lparr>stack := v # stack s\<rparr>)"
  by (simp add: push_instr_value_def on_stack_def)

lemma adv_of_stack: "(adv_of r c k x s)\<lparr>stack := st\<rparr> = adv_of r c k x (s\<lparr>stack := st\<rparr>)"
  by (simp add: adv_of_def recast_def)

text \<open>A push of one value, which may differ when the end of the code comes next.\<close>

lemma matched_push_value:
  assumes sp: "spot r c p b np j s t b' B k s1" and nj: "opcode_at c p \<noteq> OP_JUMPDEST"
    and h: "length (stack s1) < stack_limit" "stack_height_change (traits (opcode_at c p)) = 1"
    and step: "advanced_step L H t j = Some (t\<lparr>stack := v' # stack t\<rparr>, Some (Suc j))"
    and v: "next_pos c p < length c \<or> ends_block c p \<longrightarrow> v' = v"
  shows "matched L H r c t j (s1\<lparr>stack := v # stack s1\<rparr>, Some (next_pos c p))"
proof -
  note sf = spot_facts [OF sp]
  have t2: "t\<lparr>stack := v' # stack t\<rparr> = adv_of r c k (ba_gas_cost B) (s1\<lparr>stack := v # stack s1\<rparr>\<lparr>stack := v' # stack s1\<rparr>)"
    by (simp add: sf(2) adv_of_stack)
  have "related r c (next_pos c p) (Suc j) (s1\<lparr>stack := v # stack s1\<rparr>) (t\<lparr>stack := v' # stack t\<rparr>)"
    using block_next [of r c p b np j s t b' B k "s1\<lparr>stack := v # stack s1\<rparr>", OF _ _ _ _ _ _ _ _ t2] sp nj h v sf(3)
    by (simp add: spot_def)
  with step show ?thesis by (auto simp: matched_def)
qed

lemma matched_pc:
  assumes sp: "spot r c p b np j s t b' B k s1" and f: "op2fn (opcode_at c p) = Some fn_pc"
    and L: "lib_ok L" and len: "length c < 2 ^ 63" and h: "length (stack s1) < stack_limit"
  shows "wp (invoke (baseline_impl L H fn_pc) s1 p) (matched L H r c t j)"
proof -
  note sf = spot_facts [OF sp]
  have op: "opcode_at c p = OP_PC" using f by (auto simp: op2fn_def set_range_def split: if_splits)
  have np: "next_pos c p = p + 1" using op by (simp add: next_pos_def push_len_def is_push_def)
  have p: "p < 2 ^ 63" using sf(8) len by simp
  then have "intx_of_int64 L (int p) = word_of_int (int p)" using L by (simp add: lib_ok_def)
  moreover have "(ucast (of_nat p :: u64) :: uint256) = of_nat p"
    using p by (simp add: unsigned_of_nat take_bit_nat_eq_self)
  ultimately have v: "intx_of_int64 L (int p) = ucast (of_nat p :: u64)" by simp
  have "arg_at c p (ba_gas_cost b') np = Arg_number (int p)"
    using op by (simp add: arg_at_def any_small_push_def any_large_push_def gas_op_def Let_def)
  with spot_instr [OF sp f, of L H] op h have
    "advanced_step L H t j = Some (t\<lparr>stack := ucast (of_nat p :: u64) # stack t\<rparr>, Some (Suc j))"
    by (simp add: op_pc_def push_value_eq sf(2) v)
  from matched_push_value [OF sp _ h _ this] op np show ?thesis
    using h op2fn_traits [OF f] by (simp add: pc_instr_def push_value_eq)
qed

text \<open>The two values of a push instruction whose data is complete.\<close>

lemma complete_push_data:
  assumes "is_push (opcode_at c p)" "next_pos c p \<le> length c"
  shows "push_data c p = take (push_len (opcode_at c p)) (drop (p + 1) (padded_code (analyze_baseline g c)))"
    "length (push_data c p) = push_len (opcode_at c p)"
proof -
  let ?n = "push_len (opcode_at c p)"
  have np: "next_pos c p = p + 1 + ?n" by (simp add: next_pos_def)
  have d: "push_data c p = take ?n (drop (p + 1) c)" using assms np by (simp add: push_data_def after_push_def)
  with assms np show l: "length (push_data c p) = ?n" by simp
  show "push_data c p = take ?n (drop (p + 1) (padded_code (analyze_baseline g c)))"
    using assms(2) np l code_end_ge [of c]
    by (intro nth_equalityI) (simp_all add: length_padded, simp add: d padded_code_prefix length_padded)
qed

lemma adv_push_value:
  assumes push: "is_push op" and op: "op = opcode_at c p" and p: "p < length c"
  defines "data \<equiv> push_data c p @ replicate (push_len op - length (push_data c p)) 0"
  shows "any_small_push op \<Longrightarrow> ucast (small_push_loop (push_data c p) ((op - OP_PUSH1) * 8) 0) = (of_nat (be_value data) :: uint256)"
    "any_large_push op \<Longrightarrow> own_push c p = [of_nat (be_value data)]"
proof -
  have l: "length (push_data c p) \<le> Suc (op - OP_PUSH1)" and n: "push_len op = Suc (op - OP_PUSH1)"
    using push op by (simp_all add: push_data_def after_push_def next_pos_def push_len_def)
  show "ucast (small_push_loop (push_data c p) ((op - OP_PUSH1) * 8) 0) = (of_nat (be_value data) :: uint256)"
    if "any_small_push op"
  proof -
    have "op - OP_PUSH1 < 8" using that by (auto simp: any_small_push_def)
    from small_push_value [OF l this] show ?thesis by (simp add: data_def n)
  qed
  show "own_push c p = [of_nat (be_value data)]" if "any_large_push op"
  proof -
    have "op - OP_PUSH1 < 32" using that by (auto simp: any_large_push_def)
    from large_push_value [OF l this] that show ?thesis by (simp add: data_def n own_push_def flip: op)
  qed
qed

lemma matched_push:
  assumes sp: "spot r c p b np j s t b' B k s1" and f: "op2fn (opcode_at c p) = Some (fn_push n)"
    and L: "lib_ok L" and h: "length (stack s1) < stack_limit"
    and an: "analysis s1 = Some (analyze_baseline g c)" and e: "next_pos c p \<le> code_end c"
  shows "wp (invoke (baseline_impl L H (fn_push n)) s1 p) (matched L H r c t j)"
proof -
  note sf = spot_facts [OF sp]
  let ?op = "opcode_at c p"
  define v :: uint256 where "v = of_nat (be_value (push_data c p @ replicate (n - length (push_data c p)) 0))"
  have push: "is_push ?op" and n: "n = push_len ?op" using f op2fn_push by auto
  have nj: "?op \<noteq> OP_JUMPDEST" using push by (auto simp: is_push_def)
  have n32: "n \<le> 32" using push n by (auto simp: push_len_def is_push_def)
  have np: "next_pos c p = p + (n + 1)" using n by (simp add: next_pos_def)
  have b': "b' = add_to_block (get_op_table r ?op) b" using sp by (simp add: spot_def)
  note val = adv_push_value [OF push refl sf(8), folded n, folded v_def]
  have step: "advanced_step L H t j = Some (t\<lparr>stack := v # stack t\<rparr>, Some (Suc j))"
  proof (cases "any_small_push ?op")
    case True
    then have "n \<le> 8" using push n by (auto simp: any_small_push_def push_len_def)
    with spot_instr [OF sp f nj, of L H] val(1) [OF True] True h show ?thesis
      by (simp add: arg_at_def op_push_small_def push_value_eq sf(2) Let_def)
  next
    case False
    then have large: "any_large_push ?op" using any_push push by blast
    then have "8 < n" using push n by (auto simp: any_large_push_def push_len_def)
    moreover have "np < length (push_values (analyze r c))" "push_values (analyze r c) ! np = v"
      using code_at_step(2) [OF sf(5,8) b' large] val(2) [OF large] by auto
    ultimately show ?thesis using spot_instr [OF sp f nj, of L H] False large h
      by (simp add: arg_at_def op_push_full_def push_value_eq sf(2) Let_def)
  qed
  let ?bv = "be_load L (take n (drop (Suc p) (padded_code (analyze_baseline g c))))"
  have eq: "v = ?bv" if "next_pos c p < length c \<or> ends_block c p"
  proof -
    have "next_pos c p \<le> length c"
    proof (rule ccontr)
      assume "\<not> next_pos c p \<le> length c"
      then have "after_push c p = length c" "\<not> is_terminator ?op"
        using push by (auto simp: after_push_def is_terminator_def is_push_def)
      with that \<open>\<not> next_pos c p \<le> length c\<close> show False by (simp add: ends_block_def)
    qed
    from complete_push_data(1) [OF push this, of g] complete_push_data(2) [OF push this] L n32
    show ?thesis by (simp add: v_def n lib_ok_def)
  qed
  have "wp (invoke (baseline_impl L H (fn_push n)) s1 p) (matched L H r c t j) \<longleftrightarrow>
      matched L H r c t j (s1\<lparr>stack := ?bv # stack s1\<rparr>, Some (next_pos c p))"
    using e np h by (simp add: push_instr_def an length_padded push_value_eq Let_def)
  with matched_push_value [OF sp nj h _ step, of ?bv] eq op2fn_traits [OF f] show ?thesis by simp
qed

lemma matched_jumpdest:
  assumes sp: "spot r c p b np j s t b' B k s1" and f: "op2fn (opcode_at c p) = Some (Generic fn_jumpdest)"
  shows "wp (invoke (impl L H fn_jumpdest) s1 p) (matched L H r c t j)"
proof -
  note sf = spot_facts [OF sp]
  have op: "opcode_at c p = OP_JUMPDEST" using f by (auto simp: op2fn_def set_range_def split: if_splits)
  have np: "next_pos c p = p + 1" using op by (simp add: next_pos_def push_len_def is_push_def)
  have t: "t = adv_of r c k (ba_gas_cost B) (s1\<lparr>stack := stack s1\<rparr>)" by (simp add: sf(2))
  have "related r c (next_pos c p) j s1 t"
    using block_next [of r c p b np j s t b' B k s1, OF _ _ _ _ _ _ _ _ t] sp op sf(3) op2fn_traits [OF f]
    by (simp add: spot_def)
  with np show ?thesis by (simp add: matched_def jumpdest_instr_def)
qed

section \<open>Jumps\<close>

lemma base_jump:
  assumes "analysis s = Some (analyze_baseline g c)" "length c < 2 ^ 64"
  shows "jump_impl s dst = Some (if valid_jumpdest c (unat dst) then (Some (unat dst), s)
    else (None, s\<lparr>status := IVMC_BAD_JUMP_DESTINATION\<rparr>))"
proof -
  have small: "unat dst < length c \<Longrightarrow> to_size dst = unat dst"
    using assms(2) by (simp add: to_size_def to_u64_def unsigned_ucast_eq take_bit_nat_eq_self_iff)
  show ?thesis
    using small by (auto simp: jump_impl_def assms(1) analyze_baseline_unfold valid_jumpdest_def)
qed

text \<open>The index of the block that starts at a jump destination.\<close>

definition jump_index :: "bytes \<Rightarrow> nat \<Rightarrow> nat" where
  "jump_index c q = the (map_of (jumps c 0 1) q)"

lemma jump_index_block:
  assumes "valid_jumpdest c q"
  shows "map_of (jumps c 0 1) q = Some (jump_index c q)"
    "\<exists>np. block_at (get_op_table r) c (instrs (analyze r c)) (push_values (analyze r c)) q np (jump_index c q)"
proof -
  have "q \<in> set (map fst (jumps c 0 1))" using assms jumps_valid [of c 1] by simp
  then obtain t where t: "map_of (jumps c 0 1) q = Some t"
    by (metis (no_types, lifting) domIff dom_map_of_conv_image_fst list.set_map not_None_eq)
  then show m: "map_of (jumps c 0 1) q = Some (jump_index c q)" by (simp add: jump_index_def)
  show "\<exists>np. block_at (get_op_table r) c (instrs (analyze r c)) (push_values (analyze r c)) q np (jump_index c q)"
    by (rule analyze_jumps_block_at [OF map_of_SomeD [OF m]])
qed

lemma adv_jump:
  assumes st: "stack t = d # st" and an: "analysis t = Some (analyze r c)" and len: "length c < 2 ^ 29"
  shows "op_jump t = Some (if valid_jumpdest c (unat d) then (t\<lparr>stack := st\<rparr>, Some (jump_index c (unat d)))
    else exit IVMC_BAD_JUMP_DESTINATION (t\<lparr>stack := st\<rparr>))"
proof (cases "valid_jumpdest c (unat d)")
  case True
  then have "unat d < 2 ^ 29" using len by (simp add: valid_jumpdest_def)
  moreover have "find_jumpdest (analyze r c) (int (unat d)) = int (jump_index c (unat d))"
    using find_jumpdest_jumps [OF len, of r "unat d"] jump_index_block(1) [OF True] by simp
  moreover have "jump_index c (unat d) < length (instrs (analyze r c))"
    using jump_index_block(2) [OF True, of r] block_at_header(1) by blast
  ultimately show ?thesis using True by (simp add: op_jump_def st an Let_def)
next
  case False
  then have "map_of (jumps c 0 1) (unat d) = None"
    using jumps_valid [of c 1] by (simp add: map_of_eq_None_iff)
  then have "find_jumpdest (analyze r c) (int (unat d)) = - 1"
    using find_jumpdest_jumps [OF len, of r "unat d"] by simp
  then show ?thesis using False by (simp add: op_jump_def st an Let_def)
qed

lemma jump_related:
  assumes "valid_jumpdest c q"
  shows "related r c q (jump_index c q) s (adv_of r c 0 x s)"
proof -
  have "min q (length c) = q" using assms by (simp add: valid_jumpdest_def)
  with jump_index_block(2) [OF assms, of r] show ?thesis by (auto simp: related_def at_block_def)
qed

lemma spot_terminator: "spot r c p b np j s t b' B k s1 \<Longrightarrow> is_terminator (opcode_at c p) \<Longrightarrow> k = 0"
  by (erule spot_facts(4)) (simp add: ends_block_def)

lemma matched_jump:
  assumes sp: "spot r c p b np j s t b' B k s1" and f: "op2fn (opcode_at c p) = Some fn_jump"
    and an: "analysis s1 = Some (analyze_baseline g c)" and len: "length c < 2 ^ 29" and h: "stack s1 \<noteq> []"
  shows "wp (invoke (baseline_impl L H fn_jump) s1 p) (matched L H r c t j)"
proof -
  have op: "opcode_at c p = OP_JUMP" using f op2fn_jumps by simp
  then have "k = 0" using spot_terminator [OF sp] by (simp add: is_terminator_def)
  then have t: "t = adv_of r c 0 (ba_gas_cost B) s1" using spot_facts(2) [OF sp] by simp
  from h obtain d st where st: "stack s1 = d # st" by (cases "stack s1") auto
  have "advanced_step L H t j = op_jump t" using spot_instr [OF sp f, of L H] op by simp
  with adv_jump [of t d st r c] st len t have step:
    "advanced_step L H t j = Some (if valid_jumpdest c (unat d)
       then (adv_of r c 0 (ba_gas_cost B) (s1\<lparr>stack := st\<rparr>), Some (jump_index c (unat d)))
       else exit IVMC_BAD_JUMP_DESTINATION (adv_of r c 0 (ba_gas_cost B) (s1\<lparr>stack := st\<rparr>)))"
    by (simp add: adv_of_stack)
  have "jump_instr s1 p = Some (if valid_jumpdest c (unat d) then (Some (unat d), s1\<lparr>stack := st\<rparr>)
      else (None, s1\<lparr>stack := st, status := IVMC_BAD_JUMP_DESTINATION\<rparr>))"
    using base_jump [of "s1\<lparr>stack := st\<rparr>" g c d] an len st by (simp add: jump_instr_def)
  with step jump_related [of c "unat d" r "s1\<lparr>stack := st\<rparr>"] show ?thesis
    using spot_facts(9) [OF sp]
      by (auto simp: matched_def exit_def agree_def ok_status_def halted_def)
qed

lemma matched_jumpi:
  assumes sp: "spot r c p b np j s t b' B k s1" and f: "op2fn (opcode_at c p) = Some fn_jumpi"
    and an: "analysis s1 = Some (analyze_baseline g c)" and len: "length c < 2 ^ 29" and h: "2 \<le> length (stack s1)"
  shows "wp (invoke (baseline_impl L H fn_jumpi) s1 p) (matched L H r c t j)"
proof -
  have op: "opcode_at c p = OP_JUMPI" using f op2fn_jumps by simp
  then have k: "k = 0" using spot_terminator [OF sp] by (simp add: is_terminator_def)
  then have t: "t = adv_of r c 0 (ba_gas_cost B) s1" using spot_facts(2) [OF sp] by simp
  have np: "next_pos c p = p + 1" using op by (simp add: next_pos_def push_len_def is_push_def)
  from h obtain d e st where st: "stack s1 = d # e # st" by (auto simp: length_ge)
  have adv: "advanced_step L H t j = op_jumpi j t" using spot_instr [OF sp f, of L H] op by simp
  show ?thesis
  proof (cases "e = 0")
    case True
    have "advanced_step L H t j = Some (adv_of r c 0 (ba_gas_cost B) (s1\<lparr>stack := st\<rparr>), Some (Suc j))"
      using st True unfolding adv unfolding t by (simp add: op_jumpi_def adv_of_stack stk_get_def)
    moreover have "related r c (next_pos c p) (Suc j) (s1\<lparr>stack := st\<rparr>) (adv_of r c 0 (ba_gas_cost B) (s1\<lparr>stack := st\<rparr>))"
      using spot_next [OF sp, of "s1\<lparr>stack := st\<rparr>"] op st k spot_facts(3) [OF sp] op2fn_traits [OF f] by simp
    ultimately show ?thesis using st True np by (auto simp: matched_def jumpi_instr_def)
  next
    case False
    have jt: "op_jump t = Some (if valid_jumpdest c (unat d)
        then (adv_of r c 0 (ba_gas_cost B) (s1\<lparr>stack := e # st\<rparr>), Some (jump_index c (unat d)))
        else exit IVMC_BAD_JUMP_DESTINATION (adv_of r c 0 (ba_gas_cost B) (s1\<lparr>stack := e # st\<rparr>)))"
      using adv_jump [of t d "e # st" r c] st len t by (simp add: adv_of_stack)
    have step: "advanced_step L H t j = Some (if valid_jumpdest c (unat d)
        then (adv_of r c 0 (ba_gas_cost B) (s1\<lparr>stack := st\<rparr>), Some (jump_index c (unat d)))
        else exit IVMC_BAD_JUMP_DESTINATION (adv_of r c 0 (ba_gas_cost B) (s1\<lparr>stack := st\<rparr>)))"
    proof -
      have "stk_get (stack t) 1 = Some e" by (simp add: t st stk_get_def)
      then show ?thesis
        unfolding adv op_jumpi_def using False jt
        by (simp add: exit_def adv_of_stack adv_of_def recast_def)
    qed
    have "jumpi_instr s1 p = Some (if valid_jumpdest c (unat d) then (Some (unat d), s1\<lparr>stack := st\<rparr>)
        else (None, s1\<lparr>stack := st, status := IVMC_BAD_JUMP_DESTINATION\<rparr>))"
      using base_jump [of "s1\<lparr>stack := st\<rparr>" g c d] an len st False by (simp add: jumpi_instr_def)
    with step jump_related [of c "unat d" r "s1\<lparr>stack := st\<rparr>"] show ?thesis
      using spot_facts(9) [OF sp]
      by (auto simp: matched_def exit_def agree_def ok_status_def halted_def)
  qed
qed

end
