(* ===== verification/Equivalence.thy ===== *)
theory Equivalence
  imports Matching
begin

text \<open>
  The two interpreters compute the same: one Baseline iteration inside a block is matched by at
  most one Advanced iteration (\<open>in_block_step\<close>), and so whole runs end in the same way (\<open>runs_agree\<close>,
  \<open>executions_agree\<close>).
\<close>

section \<open>One iteration\<close>

lemma matched_undefined:
  assumes inv: "base_inv L H g c s p" and r: "revision s = r" and p: "p < length c"
    and ib: "in_block r c p b np j s t" and u: "gas_costs r (opcode_at c p) = undefined_cost"
  shows "wp (baseline_step L H s p) (matched L H r c t j)"
proof -
  have "gas_costs r OP_JUMPDEST \<noteq> undefined_cost" by (simp add: gas_costs_control undefined_cost_def)
  then have nj: "opcode_at c p \<noteq> OP_JUMPDEST" using u by metis
  from ib p have ca: "code_at (get_op_table r) c (instrs (analyze r c)) (push_values (analyze r c)) p b np j"
    and an: "analysis t = Some (analyze r c)" by (auto simp: in_block_def Let_def)
  have "entry_fn (get_op_table r (opcode_at c p)) = Some Fn_undefined" using u by (simp add: get_op_table_def)
  then have "advanced_step L H t j = Some (exit IVMC_UNDEFINED_INSTRUCTION t)"
    using code_at_step(1) [OF ca p refl nj] an by (simp add: advanced_step_def op_undefined_def)
  moreover obtain s' where "baseline_step L H s p = Some (s', None)" "\<not> ok_status (status s')"
    using base_step_unmet [OF inv p] u r by (auto simp: meets_def)
  moreover have "output_size t = 0" using inv ib by (auto simp: in_block_def base_inv_def Let_def)
  ultimately show ?thesis by (simp add: matched_def agree_def exit_def ok_status_def halted_def)
qed

lemma matched_end:
  assumes inv: "base_inv L H g c s p" and r: "revision s = r" and p: "length c \<le> p"
    and ib: "in_block r c p b np j s t"
  shows "wp (baseline_step L H s p) (matched L H r c t j)"
proof -
  have start: "instr_start c p" and ban: "analysis s = Some (analyze_baseline g c)" and gas: "0 \<le> gas_left s"
    and wf: "length (stack s) \<le> stack_limit"
    using inv by (simp_all add: base_inv_def state_wf_def)
  note opc = base_opcode(1,2) [OF start, of g]
  have cost: "gas_costs (revision s) OP_STOP = 0" by (rule gas_costs_control)
  have tr: "stack_height_required (traits OP_STOP) = 0" "stack_height_change (traits OP_STOP) = 0"
    using op2fn_traits [of OP_STOP "Generic fn_stop"] op2fn_stop [of OP_STOP] by simp_all
  have "check_requirements (get_baseline_instruction_table (revision s)) s OP_STOP = (IVMC_SUCCESS, s)"
    using cost tr gas by (simp add: check_requirements_def get_baseline_instruction_table_def Let_def undefined_cost_def)
  then have base: "baseline_step L H s p = Some (s\<lparr>status := IVMC_SUCCESS\<rparr>, None)"
    using opc p op2fn_stop [of OP_STOP] by (simp add: baseline_step_def ban stop_instr_def Let_def)
  from ib p obtain st where ca: "code_at (get_op_table r) c (instrs (analyze r c)) (push_values (analyze r c)) (length c) b np j"
    and t: "t = adv_of r c (ba_gas_cost (fst (compile (get_op_table r) c (length c) b np j)) - ba_gas_cost b)
      (ba_gas_cost (fst (compile (get_op_table r) c (length c) b np j))) (s\<lparr>stack := st\<rparr>)"
    by (auto simp: in_block_def Let_def)
  note ce = code_at_end [OF ca order_refl]
  from ce(2,3) have "advanced_step L H t j = Some (exit IVMC_SUCCESS t)"
    by (simp add: advanced_step_def t new_instruction_def get_op_stop op_stop_def)
  with base show ?thesis by (simp add: matched_def agree_def exit_def ok_status_def t ce(1))
qed

lemma op2fn_gas_ops:
  "op2fn op = Some (Generic n) \<Longrightarrow> reads_gas n \<Longrightarrow> gas_op op"
  by (auto simp: op2fn_def set_range_def gas_op_def split: if_splits)

lemma matched_generic:
  assumes sp: "spot r c p b np j s t b' B k s1" and f: "op2fn (opcode_at c p) = Some (Generic n)"
    and L: "lib_ok L" and H: "host_ok H" and small: "gas_left s1 < 2 ^ 63"
    and rd: "ready (stack_height_required (traits (opcode_at c p))) (stack_height_change (traits (opcode_at c p))) s1"
  shows "wp (invoke (impl L H n) s1 p) (matched L H r c t j)"
proof -
  note sf = spot_facts [OF sp] and tr = op2fn_traits [OF f]
  have np: "next_pos c p = p + 1" using next_pos_plain [of c p] op2fn_push [of "opcode_at c p"] f
    by (cases "is_push (opcode_at c p)") auto
  have rdt: "ready (stack_height_required (traits (opcode_at c p))) (stack_height_change (traits (opcode_at c p))) t"
    using rd sf(3) by (simp add: ready_def state_wf_def sf(2))
  note st32 = lib_ok_store32 [OF L]
  have con: "contract (stack_height_change (traits (opcode_at c p))) (impl L H n) s1"
    using impl_contract [OF op2fn_valid [OF f] _ H st32, of s1] rd tr by simp
  have cont: "contract (stack_height_change (traits (opcode_at c p))) (impl L H n) t"
    using impl_contract [OF op2fn_valid [OF f] _ H st32, of t] rdt tr by simp
  note gas = op2fn_gas_ops [OF f]
  consider (jd) "n = fn_jumpdest" | (gas) "n = fn_gas"
    | (reads) "n = fn_sstore \<or> (\<exists>kind static. n = fn_call kind static) \<or> (\<exists>kind. n = fn_create kind)"
    | (halt) f0 where "impl L H n = (Terminating f0 :: (CodeAnalysis, 'a) ExecutionState instr_fn)"
    | (may) f0 where "impl L H n = (MayFail f0 :: (CodeAnalysis, 'a) ExecutionState instr_fn)" "\<not> reads_gas n"
    | (succ) f0 where "impl L H n = (Succeeding f0 :: (CodeAnalysis, 'a) ExecutionState instr_fn)" "n \<noteq> fn_gas" "n \<noteq> fn_jumpdest"
    by (cases n) auto
  then show ?thesis
  proof cases
    case jd
    with matched_jumpdest [OF sp] f show ?thesis by simp
  next
    case gas
    with matched_gas [OF sp _ L small np] f op2fn_gas_ops [OF f] con show ?thesis by simp
  next
    case reads
    have r: "reads_gas n" and g: "gas_op (opcode_at c p)" using reads gas by auto
    note me = matched_exact_gas [OF sp f _ _ r np g _ con refl]
    from reads show ?thesis
      by (elim disjE exE) (rule me; simp add: op_sstore_def op_call_def op_create_def)+
  next
    case halt
    have "k = 0" if "n \<noteq> fn_invalid"
      using spot_terminator [OF sp] terminating_fns [OF halt] that f op2fn_stop [of "opcode_at c p"]
        op2fn_return [of "opcode_at c p"] op2fn_selfdestruct [of "opcode_at c p"]
      by (auto simp: is_terminator_def)
    with matched_terminating [OF sp f halt _ con] show ?thesis by blast
  next
    case may
    with matched_may_fail [OF sp f may np con cont] show ?thesis by simp
  next
    case succ
    with matched_succeeding [OF sp f succ np con] show ?thesis by simp
  qed
qed

theorem in_block_step:
  assumes inv: "base_inv L H g c s p" and r: "revision s = r" and lim: "within_limits c (gas_left s)"
    and L: "lib_ok L" and ib: "in_block r c p b np j s t"
  shows "wp (baseline_step L H s p) (matched L H r c t j)"
proof (cases "p < length c")
  case False
  with matched_end [OF inv r _ ib] show ?thesis by simp
next
  case p: True
  let ?op = "opcode_at c p"
  show ?thesis
  proof (cases "gas_costs r ?op = undefined_cost")
    case True
    with matched_undefined [OF inv r p ib] show ?thesis by simp
  next
    case def: False
    define b' where "b' = add_to_block (get_op_table r ?op) b"
    define B where "B = fst (compile (get_op_table r) c p b np j)"
    define k where "k = ba_gas_cost B - ba_gas_cost b'"
    define s1 where "s1 = s\<lparr>gas_left := gas_left s - gas_costs r ?op\<rparr>"
    have sp: "spot r c p b np j s t b' B k s1"
      using ib p r def inv by (simp add: base_inv_def spot_def b'_def B_def k_def s1_def)
    note here = in_block_here [OF ib p r def b'_def B_def k_def]
    from base_step_dispatch [OF inv p] here(1) r obtain f where f: "op2fn ?op = Some f"
      and step: "baseline_step L H s p = invoke (baseline_impl L H f) s1 p"
      and rd: "ready (stack_height_required (traits ?op)) (stack_height_change (traits ?op)) s1"
      by (metis s1_def)
    have H: "host_ok H" and start: "instr_start c p" and an: "analysis s1 = Some (analyze_baseline g c)"
      using inv by (simp_all add: base_inv_def s1_def)
    note len' = within_limitsD(1,2) [OF lim] and small = within_limitsD(4) [OF lim]
    have small': "gas_left s1 < 2 ^ 63"
      using small gas_costs_range [of r ?op] def by (auto simp: s1_def)
    note tr = op2fn_traits [OF f]
    show ?thesis
    proof (cases f)
      case (Generic n)
      with matched_generic [OF sp _ L H small' rd] f step show ?thesis by simp
    next
      case fn_jump
      then have "stack s1 \<noteq> []" using rd tr by (auto simp: ready_def)
      with matched_jump [OF sp _ an len'(1)] f fn_jump step show ?thesis by simp
    next
      case fn_jumpi
      then have "2 \<le> length (stack s1)" using rd tr by (simp add: ready_def)
      with matched_jumpi [OF sp _ an len'(1)] f fn_jumpi step show ?thesis by simp
    next
      case fn_pc
      then have "length (stack s1) < stack_limit" using rd tr by (simp add: ready_def)
      with matched_pc [OF sp _ L len'(2)] f fn_pc step show ?thesis by simp
    next
      case (fn_push n)
      then have "length (stack s1) < stack_limit" using rd tr by (simp add: ready_def)
      with matched_push [OF sp _ L _ an] f fn_push step base_opcode(4) [OF start p] show ?thesis by simp
    qed
  qed
qed

section \<open>Whole runs\<close>

text \<open>
  A Baseline run of \<open>n\<close> iterations against an Advanced run of at most twice as many: a Baseline
  iteration is one Advanced one, and one more at the start of a block.
\<close>

definition follows ::
  "lib \<Rightarrow> 'h host_interface \<Rightarrow> nat \<Rightarrow> 'h adv_state \<Rightarrow> nat \<Rightarrow> (CodeAnalysis, 'h) ExecutionState \<Rightarrow> bool" where
  "follows L H m t j s' \<longleftrightarrow> (\<exists>t'. loop (advanced_step L H) m t j = Exited t' \<and> agree s' t')"

lemma follows_exit: "advanced_step L H t j = Some (t1, None) \<Longrightarrow> agree s' t1 \<Longrightarrow> follows L H (Suc m) t j s'"
  by (simp add: follows_def)

lemma follows_step: "advanced_step L H t j = Some (t1, Some j') \<Longrightarrow> follows L H m t1 j' s' \<Longrightarrow> follows L H (Suc m) t j s'"
  by (simp add: follows_def)

lemma follows_mono: "follows L H m t j s' \<Longrightarrow> m \<le> m' \<Longrightarrow> follows L H m' t j s'"
  using loop_mono by (fastforce simp: follows_def)

lemma agree_halted: "\<not> ok_status (status s') \<Longrightarrow> halted t \<Longrightarrow> agree s' t"
  by (simp add: agree_def)

lemma in_block_run:
  assumes L: "lib_ok L"
    and inv: "base_inv L H g c s p" and r: "revision s = r" and lim: "within_limits c (gas_left s)"
    and ib: "in_block r c p b np j s t" and run: "loop (baseline_step L H) (Suc n) s p = Exited s'"
    and IH: "\<And>s p t j. base_inv L H g c s p \<Longrightarrow> revision s = r \<Longrightarrow> within_limits c (gas_left s) \<Longrightarrow> related r c p j s t \<Longrightarrow>
      loop (baseline_step L H) n s p = Exited s' \<Longrightarrow> follows L H (2 * n) t j s'"
  shows "follows L H (Suc (2 * n)) t j s'"
proof -
  from wpD [OF in_block_step [OF inv r lim L ib]] obtain s1 q where
    st: "baseline_step L H s p = Some (s1, q)" and m: "matched L H r c t j (s1, q)" by auto
  show ?thesis
  proof (cases q)
    case None
    with m st run show ?thesis by (auto simp: matched_def intro: follows_exit)
  next
    case (Some q')
    from wpD [OF base_step_post [OF inv]] st Some have inv1: "base_inv L H g c s1 q'" and r1: "revision s1 = r"
      and lim1: "within_limits c (gas_left s1)"
      using r within_limits_mono [OF lim] by (auto simp: base_post_def env_same_def)
    have run1: "loop (baseline_step L H) n s1 q' = Exited s'" using run st Some by simp
    note IH1 = IH [OF inv1 r1 lim1 _ run1]
    from m Some consider
        (fails) t1 b1 np1 k1 where "advanced_step L H t j = Some (t1, None)" "halted t1" "doomed r c q' b1 np1 k1 s1"
      | (goes) t1 j' where "advanced_step L H t j = Some (t1, Some j')" "related r c q' j' s1 t1"
      | (stays) "related r c q' j s1 t"
      by (auto simp: matched_def)
    then show ?thesis
    proof cases
      case fails
      have "\<not> ok_status (status s')" using doomed_fails [OF inv1 _ run1] fails(3) r1 by simp
      with fails show ?thesis by (auto intro: follows_exit agree_halted)
    next
      case goes
      with IH1 show ?thesis by (auto intro: follows_step)
    next
      case stays
      from follows_mono [OF IH1 [OF this]] show ?thesis by simp
    qed
  qed
qed

theorem runs_agree:
  assumes "lib_ok L"
    and "base_inv L H g c s p" "revision s = r" "within_limits c (gas_left s)" "related r c p j s t"
    and "loop (baseline_step L H) n s p = Exited s'"
  shows "follows L H (2 * n) t j s'"
  using assms(2-)
proof (induction n arbitrary: s p t j)
  case 0
  then show ?case by simp
next
  case (Suc n)
  from Suc.prems(4) consider b np where "in_block r c p b np j s t" | np where "at_block r c p np j s t"
    by (auto simp: related_def)
  then show ?case
  proof cases
    case 1
    have "follows L H (Suc (2 * n)) t j s'"
      by (rule in_block_run [OF assms(1) Suc.prems(1-3) 1 Suc.prems(5)]) (rule Suc.IH)
    from follows_mono [OF this] show ?thesis by simp
  next
    case 2
    from at_block_step [OF Suc.prems(1-3) this] show ?thesis
    proof (elim disjE exE conjE)
      fix t' assume a: "advanced_step L H t j = Some (t', Some (Suc j))" "in_block r c p (new_block j) np (Suc j) s t'"
      have "follows L H (Suc (2 * n)) t' (Suc j) s'"
        by (rule in_block_run [OF assms(1) Suc.prems(1-3) a(2) Suc.prems(5)]) (rule Suc.IH)
      from follows_step [OF a(1) this] show ?thesis by simp
    next
      fix t' assume a: "advanced_step L H t j = Some (t', None)" "halted t'" "doomed r c p (new_block j) np (Suc j) s"
      then have "\<not> ok_status (status s')" using doomed_fails [OF Suc.prems(1) _ Suc.prems(5)] Suc.prems(2) by simp
      with a show ?thesis by (auto intro: follows_exit agree_halted)
    qed
  qed
qed

section \<open>Results\<close>

text \<open>What the caller sees of an execution: the result, and the state of the host.\<close>

definition same_result ::
  "ivmc_result \<times> ('a, 'h, 'y) state \<Rightarrow> ivmc_result \<times> ('b, 'h, 'z) state \<Rightarrow> bool" where
  "same_result = (\<lambda>(rb, s) (ra, t).
     if ok_status (res_status rb) then ra = rb \<and> host t = host s
     else \<not> ok_status (res_status ra) \<and> res_gas_left ra = res_gas_left rb \<and> res_output ra = res_output rb)"

lemma agree_result:
  assumes "run_final s0 s" "agree s t"
  shows "\<exists>rb ra. state_result s = Some rb \<and> state_result t = Some ra \<and> same_result (rb, s) (ra, t)"
  using assms
  by (auto simp: state_result_def run_final_def agree_def same_result_def ok_status_def mem_read_def halted_def split: if_splits)

lemma adv_start:
  "(new_adv_state m r h c)\<lparr>analysis := Some (analyze r c)\<rparr> =
     adv_of r c 0 0 (baseline_start (new_state m r h c) (analyze_baseline g c))"
  unfolding baseline_start_new
  by (simp add: new_adv_state_def adv_of_def recast_def new_state_def ExecutionState.extend_def)

theorem executions_agree:
  assumes L: "lib_ok L" and H: "host_ok H" and lim: "within_limits c (msg_gas m)"
    and gas: "0 \<le> msg_gas m" and n: "baseline_fuel m c \<le> n"
  shows "\<exists>x y. baseline_execute_ivmc L H g n h r m c = Exited x \<and>
    advanced_execute_ivmc L H (2 * n) h r m c = Exited y \<and> same_result x y"
proof -
  let ?s = "baseline_start (new_state m r h c) (analyze_baseline g c)"
  let ?t = "(new_adv_state m r h c)\<lparr>analysis := Some (analyze r c)\<rparr>"
  note len64 = within_limitsD(3) [OF lim]
  have inv: "base_inv L H g c ?s 0" by (rule baseline_start_inv [OF H lib_ok_store32 [OF L] len64 gas])
  have rev: "revision ?s = r" "within_limits c (gas_left ?s)" using lim unfolding baseline_start_new by (simp_all add: new_state_def)
  have mu: "base_mu c ?s 0 < n" using baseline_fuel_enough [of c m r h g] n by linarith
  from base.loop_exits [OF inv mu] obtain s' where run: "loop (baseline_step L H) n ?s 0 = Exited s'"
    and fin: "run_final ?s s'" by blast
  have "related r c 0 0 ?s ?t"
    unfolding related_def at_block_def adv_start [where g = g] using analyze_block_at_0 [of r c] by auto
  from runs_agree [OF L inv rev this run] obtain t' where
    "loop (advanced_step L H) (2 * n) ?t 0 = Exited t'" "agree s' t'" by (auto simp: follows_def)
  with agree_result [OF fin this(2)] run show ?thesis
    by (auto simp: baseline_execute_ivmc_def baseline_execute_def advanced_execute_ivmc_def advanced_execute_def)
qed

end
