(* ===== verification/Vm.thy ===== *)
theory Vm
  imports Tracing Equivalence
begin

text \<open>
  The instance of the virtual machine (\<^verbatim>\<open>vm.hpp\<close>, \<^verbatim>\<open>vm.cpp\<close>): options choose the interpreter and add
  tracers, \<open>vm_execute\<close> is the call through the function pointer \<^verbatim>\<open>execute\<close> of the instance. The ABI
  version and the version string come from outside the sources and are arguments of the
  constructor.

  The main result is that options never change what an execution computes: \<open>vm_execute_agree\<close>.
\<close>

section \<open>The instance and its options\<close>

datatype execute_fn = Baseline_execute | Advanced_execute

record VM =
  abi_version :: int
  vm_name :: string
  vm_version :: string
  execute_ptr :: execute_fn
  m_first_tracer :: "Tracer list"

definition ivmc_create_ivmone :: "int \<Rightarrow> string \<Rightarrow> VM" where
  "ivmc_create_ivmone abi version =
     \<lparr>abi_version = abi, vm_name = ''ivmone'', vm_version = version, execute_ptr = Advanced_execute,
      m_first_tracer = []\<rparr>"

text \<open>The loop of \<^verbatim>\<open>add_tracer\<close> down to the first empty pointer.\<close>

fun add_to_chain :: "Tracer list \<Rightarrow> Tracer \<Rightarrow> Tracer list" where
  "add_to_chain [] tracer = [tracer]"
| "add_to_chain (t # ts) tracer = t # add_to_chain ts tracer"

definition add_tracer :: "VM \<Rightarrow> Tracer \<Rightarrow> VM" where
  "add_tracer vm tracer = vm\<lparr>m_first_tracer := add_to_chain (m_first_tracer vm) tracer\<rparr>"

definition get_tracer :: "VM \<Rightarrow> Tracer list option" where
  "get_tracer vm = (if m_first_tracer vm = [] then None else Some (m_first_tracer vm))"

datatype ivmc_set_option_result =
  IVMC_SET_OPTION_SUCCESS | IVMC_SET_OPTION_INVALID_NAME | IVMC_SET_OPTION_INVALID_VALUE

text \<open>The name and the value are C strings; the null pointer counts as the empty string.\<close>

definition set_option :: "VM \<Rightarrow> string option \<Rightarrow> string option \<Rightarrow> ivmc_set_option_result \<times> VM" where
  "set_option vm c_name c_value =
     (let name = (case c_name of Some s \<Rightarrow> s | None \<Rightarrow> []);
          value = (case c_value of Some s \<Rightarrow> s | None \<Rightarrow> [])
      in if name = ''O'' then
           (if value = ''0'' then (IVMC_SET_OPTION_SUCCESS, vm\<lparr>execute_ptr := Baseline_execute\<rparr>)
            else if value = ''2'' then (IVMC_SET_OPTION_SUCCESS, vm\<lparr>execute_ptr := Advanced_execute\<rparr>)
            else (IVMC_SET_OPTION_INVALID_VALUE, vm))
         else if name = ''trace'' then (IVMC_SET_OPTION_SUCCESS, add_tracer vm create_instruction_tracer)
         else if name = ''histogram'' then (IVMC_SET_OPTION_SUCCESS, add_tracer vm create_histogram_tracer)
         else (IVMC_SET_OPTION_INVALID_NAME, vm))"

section \<open>Execution\<close>

text \<open>\<^verbatim>\<open>baseline::execute(vm, state, analysis)\<close>: with tracers or without.\<close>

definition baseline_execute_vm ::
  "trace_lib \<Rightarrow> lib \<Rightarrow> 'h host_interface \<Rightarrow> nat \<Rightarrow> VM \<Rightarrow> stream \<Rightarrow> (CodeAnalysis, 'h) ExecutionState \<Rightarrow> CodeAnalysis \<Rightarrow>
   ((ivmc_result \<times> (CodeAnalysis, 'h) ExecutionState) \<times> VM \<times> stream) outcome" where
  "baseline_execute_vm T L H n vm out s a =
     (case get_tracer vm of
        Some ts \<Rightarrow>
          (case baseline_execute_traced T L H n s a ts out of
             Undefined \<Rightarrow> Undefined | Running \<Rightarrow> Running
           | Exited (x, ts, out) \<Rightarrow> Exited (x, vm\<lparr>m_first_tracer := ts\<rparr>, out))
      | None \<Rightarrow>
          (case baseline_execute L H n s a of
             Undefined \<Rightarrow> Undefined | Running \<Rightarrow> Running
           | Exited x \<Rightarrow> Exited (x, vm, out)))"

text \<open>
  \<^verbatim>\<open>vm->execute(vm, host, ctx, rev, msg, code, code_size)\<close> with at most \<open>n\<close> iterations: the result, the
  state of the host, the instance and the stream afterwards.
\<close>

definition vm_execute ::
  "trace_lib \<Rightarrow> lib \<Rightarrow> 'h host_interface \<Rightarrow> (nat \<Rightarrow> byte) \<Rightarrow> nat \<Rightarrow> VM \<Rightarrow> stream \<Rightarrow> 'h \<Rightarrow> ivmc_revision \<Rightarrow>
   ivmc_message \<Rightarrow> bytes \<Rightarrow> ((ivmc_result \<times> 'h) \<times> VM \<times> stream) outcome" where
  "vm_execute T L H garbage n vm out ctx r m c =
     (case execute_ptr vm of
        Baseline_execute \<Rightarrow>
          (case baseline_execute_vm T L H n vm out (new_state m r ctx c) (analyze_baseline garbage c) of
             Undefined \<Rightarrow> Undefined | Running \<Rightarrow> Running
           | Exited ((res, s), vm, out) \<Rightarrow> Exited ((res, host s), vm, out))
      | Advanced_execute \<Rightarrow>
          (case advanced_execute_ivmc L H n ctx r m c of
             Undefined \<Rightarrow> Undefined | Running \<Rightarrow> Running
           | Exited (res, s) \<Rightarrow> Exited ((res, host s), vm, out)))"

section \<open>Options\<close>

lemma add_to_chain_eq: "add_to_chain ts t = ts @ [t]"
  by (induction ts) simp_all

text \<open>Between executions every tracer of the chain is at rest.\<close>

definition vm_wf :: "VM \<Rightarrow> bool" where
  "vm_wf vm \<longleftrightarrow> list_all tracer_rest (m_first_tracer vm)"

lemma vm_wf_create: "vm_wf (ivmc_create_ivmone abi version)"
  by (simp add: vm_wf_def ivmc_create_ivmone_def)

lemma vm_wf_set_option: "vm_wf vm \<Longrightarrow> vm_wf (snd (set_option vm name value))"
  by (simp add: vm_wf_def set_option_def add_tracer_def add_to_chain_eq create_instruction_tracer_def
      create_histogram_tracer_def trace_rest_def Let_def)

text \<open>A sequence of options.\<close>

definition set_options :: "VM \<Rightarrow> (string option \<times> string option) list \<Rightarrow> VM" where
  "set_options = foldl (\<lambda>vm (name, value). snd (set_option vm name value))"

lemma vm_wf_set_options: "vm_wf vm \<Longrightarrow> vm_wf (set_options vm opts)"
  by (induction opts arbitrary: vm) (auto simp: set_options_def vm_wf_set_option)

text \<open>What a single option asks for: tracers to add, an interpreter to use.\<close>

fun tracer_option :: "string option \<times> string option \<Rightarrow> Tracer list" where
  "tracer_option (name, value) =
     (if name = Some ''trace'' then [create_instruction_tracer]
      else if name = Some ''histogram'' then [create_histogram_tracer] else [])"

fun interpreter_option :: "execute_fn \<Rightarrow> string option \<times> string option \<Rightarrow> execute_fn" where
  "interpreter_option f (name, value) =
     (if (name, value) = (Some ''O'', Some ''0'') then Baseline_execute
      else if (name, value) = (Some ''O'', Some ''2'') then Advanced_execute else f)"

lemma set_option_eq:
  "snd (set_option vm name value) =
     vm\<lparr>execute_ptr := interpreter_option (execute_ptr vm) (name, value),
        m_first_tracer := m_first_tracer vm @ tracer_option (name, value)\<rparr>"
  by (auto simp: set_option_def add_tracer_def add_to_chain_eq Let_def split: option.splits)

lemma set_option_success:
  "fst (set_option vm name value) = IVMC_SET_OPTION_SUCCESS \<longleftrightarrow>
     0 < length (tracer_option (name, value)) \<or> (name, value) \<in> {(Some ''O'', Some ''0''), (Some ''O'', Some ''2'')}"
  by (auto simp: set_option_def Let_def split: option.splits)

lemma set_options_eq:
  "set_options vm opts =
     vm\<lparr>execute_ptr := foldl interpreter_option (execute_ptr vm) opts,
        m_first_tracer := m_first_tracer vm @ concat (map tracer_option opts)\<rparr>"
proof (induction opts arbitrary: vm)
  case Nil
  then show ?case by (simp add: set_options_def)
next
  case (Cons x xs)
  have "set_options vm (x # xs) = set_options (snd (set_option vm (fst x) (snd x))) xs"
    by (simp add: set_options_def case_prod_beta)
  then show ?case unfolding Cons.IH set_option_eq by simp
qed

section \<open>Options do not change results\<close>

definition results_agree :: "ivmc_result \<times> 'h \<Rightarrow> ivmc_result \<times> 'h \<Rightarrow> bool" where
  "results_agree = (\<lambda>(ra, ha) (rb, hb).
     if ok_status (res_status ra) then rb = ra \<and> hb = ha
     else \<not> ok_status (res_status rb) \<and> res_gas_left rb = res_gas_left ra \<and> res_output rb = res_output ra)"

lemma results_agree_sym: "results_agree x y \<Longrightarrow> results_agree y x"
  by (auto simp: results_agree_def split: if_splits)

lemma results_agree_trans: "results_agree x y \<Longrightarrow> results_agree y z \<Longrightarrow> results_agree x z"
  by (auto simp: results_agree_def split: if_splits)

lemma finish_loop_mono:
  assumes "finish (loop step n s p) = Exited x" "n \<le> m"
  shows "finish (loop step m s p) = Exited x"
proof -
  from assms(1) obtain s' where "loop step n s p = Exited s'" by (cases "loop step n s p") auto
  with loop_mono [OF this assms(2)] assms(1) show ?thesis by simp
qed

lemma vm_execute_baseline:
  assumes L: "lib_ok L" and H: "host_ok H" and lim: "within_limits c (msg_gas m)" and gas: "0 \<le> msg_gas m"
    and n: "2 * baseline_fuel m c \<le> n" and vm: "vm_wf vm"
    and base: "baseline_execute_ivmc L H g0 (baseline_fuel m c) h r m c = Exited (rb, sb)"
  shows "\<exists>x out'. vm_execute T L H g n vm out h r m c = Exited (x, vm, out') \<and> results_agree (rb, host sb) x"
proof (cases "execute_ptr vm")
  case Advanced_execute
  from executions_agree [OF L H lim gas order_refl, of g0 h r] base obtain y where
    y: "advanced_execute_ivmc L H (2 * baseline_fuel m c) h r m c = Exited y" "same_result (rb, sb) y" by auto
  obtain ra t where yy: "y = (ra, t)" by (cases y)
  have "advanced_execute_ivmc L H n h r m c = Exited (ra, t)"
    using y(1) unfolding yy advanced_execute_ivmc_def advanced_execute_def by (rule finish_loop_mono [OF _ n])
  with y(2) yy Advanced_execute show ?thesis
    by (simp add: vm_execute_def same_result_def results_agree_def)
next
  case Baseline_execute
  note inv = baseline_start_inv [OF H lib_ok_store32 [OF L] within_limitsD(3) [OF lim] gas, of g r h]
  have n': "baseline_fuel m c \<le> n" using n by simp
  from executions_agree [OF L H lim gas order_refl, of g0 h r] base obtain y where
    a: "advanced_execute_ivmc L H (2 * baseline_fuel m c) h r m c = Exited y" and y: "same_result (rb, sb) y" by auto
  from executions_agree [OF L H lim gas order_refl, of g h r] a obtain rc sc where
    c: "baseline_execute_ivmc L H g (baseline_fuel m c) h r m c = Exited (rc, sc)" and "same_result (rc, sc) y" by auto
  with y have agree: "results_agree (rb, host sb) (rc, host sc)"
    by (cases y) (auto simp: same_result_def results_agree_def split: if_splits)
  have run: "baseline_execute L H n (new_state m r h c) (analyze_baseline g c) = Exited (rc, sc)"
    using c unfolding baseline_execute_ivmc_def baseline_execute_def by (rule finish_loop_mono [OF _ n'])
  show ?thesis
  proof (cases "m_first_tracer vm = []")
    case True
    with run Baseline_execute agree show ?thesis by (simp add: vm_execute_def baseline_execute_vm_def get_tracer_def)
  next
    case False
    from traced_execute [OF inv _ run, of "m_first_tracer vm" T out] vm obtain out' where
      "baseline_execute_traced T L H n (new_state m r h c) (analyze_baseline g c) (m_first_tracer vm) out =
       Exited ((rc, sc), m_first_tracer vm, out')" by (auto simp: vm_wf_def)
    with False Baseline_execute agree show ?thesis
      by (simp add: vm_execute_def baseline_execute_vm_def get_tracer_def)
  qed
qed

theorem vm_execute_agree:
  assumes "lib_ok L" "host_ok H" "within_limits c (msg_gas m)" "0 \<le> msg_gas m"
    and "2 * baseline_fuel m c \<le> n" "2 * baseline_fuel m c \<le> n'" "vm_wf vm" "vm_wf vm'"
  shows "\<exists>x y o1 o2. vm_execute T L H g n vm out h r m c = Exited (x, vm, o1) \<and>
    vm_execute T L H g' n' vm' out' h r m c = Exited (y, vm', o2) \<and> results_agree x y"
proof -
  from executions_agree [OF assms(1-4) order_refl, of "\<lambda>_. 0" h r] obtain rb sb where
    b: "baseline_execute_ivmc L H (\<lambda>_. 0) (baseline_fuel m c) h r m c = Exited (rb, sb)" by auto
  from vm_execute_baseline [OF assms(1-5,7) b] vm_execute_baseline [OF assms(1-4,6,8) b] show ?thesis
    by (meson results_agree_sym results_agree_trans)
qed

end
