(* ===== verification/Instruction_Semantics.thy ===== *)
theory Instruction_Semantics
  imports Instruction_Contracts
begin

text \<open>
  What single instructions compute: the bit manipulations of \<^verbatim>\<open>SIGNEXTEND\<close>, \<^verbatim>\<open>BYTE\<close> and \<^verbatim>\<open>SAR\<close> against
  their arithmetic meaning, memory and its price, the gas of callees, and the errors of
  instructions that change the state in a static call.
\<close>

section \<open>Bits\<close>

lemma bit_limb: "bit (limb x i) k \<longleftrightarrow> k < 64 \<and> bit x (64 * i + k)"
  by (auto simp: limb_def bit_ucast_iff bit_drop_bit_eq)

lemma limb_negative: "sint (limb x 3) < 0 \<longleftrightarrow> bit x 255"
proof -
  have "sint (limb x 3) < 0 \<longleftrightarrow> bit (limb x 3) 63" by (simp add: sint_uint bit_uint_iff)
  then show ?thesis by (simp add: bit_limb)
qed

lemma small_limb_0: "unat x < 2 ^ 64 \<Longrightarrow> unat (limb x 0) = unat x"
  by (simp add: unat_limb)

text \<open>\<^verbatim>\<open>SAR\<close> is the arithmetic shift, for every shift amount.\<close>

lemma sar_bits:
  assumes "lib_ok L"
  shows "intx_shr L x y OR intx_shl64 L (if sint (limb x 3) < 0 then NOT 0 else 0) (if y < 256 then 256 - limb y 0 else 0) =
    signed_drop_bit (unat y) x"
proof (rule bit_eqI)
  fix k assume "possible_bit TYPE(256 word) k"
  then have k: "k < 256" by simp
  let ?n = "unat y"
  let ?sh = "if y < 256 then 256 - limb y 0 else 0"
  have sh: "unat ?sh = 256 - ?n"
  proof (cases "?n < 256")
    case True
    then have l: "unat (limb y 0) = ?n" by (intro small_limb_0) simp
    have "limb y 0 \<le> 256" using True l by (simp add: word_le_nat_alt)
    then have "unat (256 - limb y 0) = 256 - ?n" using l by (simp add: unat_sub)
    with True show ?thesis by (simp add: word_less_nat_alt)
  next
    case False
    then show ?thesis by (simp add: word_less_nat_alt)
  qed
  have "bit (intx_shr L x y) k \<longleftrightarrow> bit x (?n + k)" using assms by (simp add: lib_ok_def bit_drop_bit_eq)
  moreover have "bit (intx_shl64 L (if sint (limb x 3) < 0 then NOT 0 else 0) ?sh) k \<longleftrightarrow> 256 - ?n \<le> k \<and> bit x 255"
    using assms k sh by (auto simp: lib_ok_def bit_push_bit_iff limb_negative bit_not_iff)
  moreover have "bit x (?n + k) \<Longrightarrow> ?n + k < 256" using bit_imp_le_length [of x "?n + k"] by simp
  ultimately show "bit (intx_shr L x y OR intx_shl64 L (if sint (limb x 3) < 0 then NOT 0 else 0) ?sh) k \<longleftrightarrow>
      bit (signed_drop_bit ?n x) k"
    using k by (auto simp: bit_or_iff bit_signed_drop_bit_iff)
qed

lemma sar_value:
  assumes "lib_ok L" "stack s = y # x # st"
  shows "sar_instr L s = Some (s\<lparr>stack := word_of_int (sint x div 2 ^ unat y) # st\<rparr>)"
proof -
  have "word_of_int (sint (signed_drop_bit (unat y) x)) = signed_drop_bit (unat y) x" by simp
  then have "signed_drop_bit (unat y) x = word_of_int (sint x div 2 ^ unat y)"
    by (simp only: sint_signed_drop_bit_eq drop_bit_eq_div)
  with sar_bits [OF assms(1), of x y] assms(2) show ?thesis
    by (simp add: sar_instr_def on_stack_def Let_def)
qed

text \<open>\<^verbatim>\<open>SIGNEXTEND\<close> extends the sign of the lowest \<open>ext + 1\<close> bytes.\<close>

lemma signextend_bits:
  fixes x :: uint256
  assumes "n < 256"
  shows "(if x AND 2 ^ n \<noteq> 0 then x OR NOT (2 ^ n - 1) else x AND (2 ^ n - 1)) = signed_take_bit n x"
proof -
  have m: "2 ^ n - 1 = (mask n :: uint256)" by (simp add: mask_eq_exp_minus_1)
  have s: "x AND 2 ^ n \<noteq> 0 \<longleftrightarrow> bit x n"
    using bit_iff_and_push_bit_not_eq_0 [of x n] by simp
  show ?thesis
    unfolding m s
    by (rule bit_eqI) (use assms in \<open>auto simp: bit_signed_take_bit_iff bit_or_iff bit_and_iff bit_not_iff bit_mask_iff min_def possible_bit_word\<close>)
qed

lemma signextend_value:
  assumes L: "lib_ok L" and st: "stack s = ext # x # st"
  shows "signextend_instr L s = Some (s\<lparr>stack := signed_take_bit (8 * unat ext + 7) x # st\<rparr>)"
proof (cases "ext < 31")
  case True
  then have e: "unat ext < 31" by (simp add: word_less_nat_alt)
  then have "unat (to_u64 ext) = unat ext" by (simp add: to_u64_def unsigned_ucast_eq take_bit_nat_eq_self_iff)
  with e have "unat (to_u64 ext * 8 + 7) = 8 * unat ext + 7" by (simp add: unat_word_ariths)
  with L have m: "intx_shl64 L 1 (to_u64 ext * 8 + 7) = 2 ^ (8 * unat ext + 7)" by (simp add: lib_ok_def)
  have "8 * unat ext + 7 < 256" using e by simp
  from signextend_bits [OF this, of x] True st m show ?thesis
    by (simp add: signextend_instr_def on_stack_def Let_def split: if_splits)
next
  case False
  then have "31 \<le> unat ext" by (simp add: word_less_nat_alt)
  then have "n < 256 \<Longrightarrow> min (8 * unat ext + 7) n = n" for n by (auto simp: min_def)
  then have "signed_take_bit (8 * unat ext + 7) x = x"
    by (intro bit_eqI) (simp add: bit_signed_take_bit_iff possible_bit_word)
  with False st show ?thesis by (simp add: signextend_instr_def on_stack_def)
qed

text \<open>\<^verbatim>\<open>BYTE\<close> selects a byte, counted from the most significant one.\<close>

lemma byte_value:
  assumes st: "stack s = n # x # st"
  shows "byte_instr s = Some (s\<lparr>stack :=
    (if unat n < 32 then take_bit 8 (drop_bit (8 * (31 - unat n)) x) else 0) # st\<rparr>)"
proof (cases "unat n < 32")
  case True
  then have n: "n < 32" by (simp add: word_less_nat_alt)
  have "unat (limb n 0 mod 32) = unat n" using True small_limb_0 [of n] by (simp add: unat_mod)
  moreover have "(ucast (drop_bit ((31 - unat n) mod 8 * 8) (limb x ((31 - unat n) div 8)) AND (255 :: u64)) :: uint256) =
      take_bit 8 (drop_bit (8 * (31 - unat n)) x)"
  proof (rule bit_eqI)
    fix k assume "possible_bit TYPE(256 word) k"
    let ?i = "31 - unat n"
    have m: "bit (255 :: u64) k \<longleftrightarrow> k < 8"
      using bit_mask_iff [of 8 k, where ?'a = u64] by (auto simp: mask_eq_exp_minus_1 possible_bit_word)
    have "8 * (?i div 8) + ?i mod 8 = ?i" by (rule mult_div_mod_eq)
    then have i: "64 * (?i div 8) + (?i mod 8 * 8 + k) = 8 * ?i + k" by linarith
    have "?i mod 8 < 8" by (rule mod_less_divisor) simp
    then have "k < 8 \<Longrightarrow> ?i mod 8 * 8 + k < 64" by linarith
    then show "bit (ucast (drop_bit (?i mod 8 * 8) (limb x (?i div 8)) AND (255 :: u64)) :: uint256) k \<longleftrightarrow>
        bit (take_bit 8 (drop_bit (8 * ?i) x)) k"
      by (simp only: bit_unsigned_iff bit_and_iff m bit_drop_bit_eq bit_limb bit_take_bit_iff i o_def) auto
  qed
  ultimately show ?thesis using n True st by (simp add: byte_instr_def on_stack_def Let_def)
next
  case False
  then have "\<not> n < 32" by (simp add: word_less_nat_alt)
  with False st show ?thesis by (simp add: byte_instr_def on_stack_def Let_def)
qed

section \<open>Memory and its price\<close>

text \<open>The number of words of a memory that holds \<open>n\<close> bytes.\<close>

definition words_for :: "nat \<Rightarrow> nat" where
  "words_for n = (n + 31) div 32"

text \<open>What a memory access does, in full: \<open>reach\<close> is the end of the accessed range.\<close>

definition memory_access :: "('a, 'h, 'z) state \<Rightarrow> nat \<Rightarrow> bool \<times> ('a, 'h, 'z) state" where
  "memory_access s reach =
     (let cost = memory_cost (int (words_for reach)) - memory_cost (int (length (memory s) div 32)) in
      if reach \<le> length (memory s) then (True, s)
      else if gas_left s < cost then (False, s\<lparr>gas_left := gas_left s - cost\<rparr>)
      else (True, s\<lparr>gas_left := gas_left s - cost,
                    memory := memory s @ replicate (32 * words_for reach - length (memory s)) 0\<rparr>))"

lemma grow_memory_access:
  assumes big: "length (memory s) < unat n" and bound: "unat n \<le> 2 ^ 33"
  shows "grow_memory s n = Some (memory_access s (unat n))"
proof -
  have nw: "num_words n = int (words_for (unat n))"
    using bound unfolding words_for_def by (intro num_words_eq) simp
  have "length (memory s) < 32 * words_for (unat n)" using big unfolding words_for_def by simp
  then have "mem_grow (memory s) (32 * words_for (unat n)) =
      Some (memory s @ replicate (32 * words_for (unat n) - length (memory s)) 0)" by (simp add: mem_grow_def)
  moreover have "nat (num_words n * 32) = 32 * words_for (unat n)" by (simp add: nw)
  ultimately show ?thesis
    using big by (simp add: grow_memory_def memory_access_def nw Let_def not_le)
qed

lemma check_memory64_access:
  assumes "unat sz < 2 ^ 32"
  shows "check_memory64 s off sz = Some (if unat off < 2 ^ 32 then memory_access s (unat off + unat sz) else (False, s))"
proof (cases "unat off < 2 ^ 32")
  case False
  with small_limbs [of off] show ?thesis by (auto simp: check_memory64_def)
next
  case True
  have off: "unat (to_u64 off) = unat off"
    using True by (simp add: to_u64_def unsigned_ucast_eq take_bit_nat_eq_self_iff)
  have sum: "unat (to_u64 off + sz) = unat off + unat sz"
    using True assms off by (simp add: unat_word_ariths)
  show ?thesis
  proof (cases "length (memory s) < unat off + unat sz")
    case g: True
    from True small_limbs [of off] g sum have "check_memory64 s off sz = grow_memory s (to_u64 off + sz)"
      by (auto simp: check_memory64_def Let_def)
    with grow_memory_access [of s "to_u64 off + sz"] g sum True assms show ?thesis by simp
  next
    case False
    with True small_limbs [of off] sum show ?thesis
      by (auto simp: check_memory64_def memory_access_def Let_def)
  qed
qed

lemma check_memory_access:
  "check_memory s off sz = Some (if sz = 0 then (True, s)
     else if unat sz < 2 ^ 32 \<and> unat off < 2 ^ 32 then memory_access s (unat off + unat sz) else (False, s))"
proof (cases "sz = 0 \<or> 2 ^ 32 \<le> unat sz")
  case True
  with small_limbs [of sz] show ?thesis by (auto simp: check_memory_def not_le)
next
  case False
  then have u: "unat (to_u64 sz) = unat sz"
    by (simp add: to_u64_def unsigned_ucast_eq take_bit_nat_eq_self_iff not_le)
  from False small_limbs [of sz] have "check_memory s off sz = check_memory64 s off (to_u64 sz)"
    by (auto simp: check_memory_def not_le)
  with check_memory64_access [of "to_u64 sz" s off] False u show ?thesis by (auto simp: not_le)
qed

text \<open>The price of memory is a function of its size alone, so the order of accesses does not matter.\<close>

lemma memory_access_price:
  assumes "memory_access s reach = (True, s')" "length (memory s) mod 32 = 0"
  shows "length (memory s') = max (length (memory s)) (32 * words_for reach)"
    "gas_left s - gas_left s' = memory_cost (int (length (memory s') div 32)) - memory_cost (int (length (memory s) div 32))"
    "s' = s\<lparr>gas_left := gas_left s', memory := memory s'\<rparr>"
proof -
  have w: "32 * words_for reach \<le> length (memory s)" if "reach \<le> length (memory s)"
  proof -
    obtain k where k: "length (memory s) = 32 * k" using assms(2) by blast
    have "(reach + 31) div 32 \<le> (32 * k + 31) div 32" using that k by (intro div_le_mono) simp
    then show ?thesis by (simp add: words_for_def k)
  qed
  have w': "\<not> reach \<le> length (memory s) \<Longrightarrow> length (memory s) < 32 * words_for reach"
    unfolding words_for_def by simp
  show "length (memory s') = max (length (memory s)) (32 * words_for reach)"
    using assms(1) w w' by (auto simp: memory_access_def Let_def max_def split: if_splits)
  show "gas_left s - gas_left s' = memory_cost (int (length (memory s') div 32)) - memory_cost (int (length (memory s) div 32))"
    using assms(1) w' by (auto simp: memory_access_def Let_def split: if_splits)
  show "s' = s\<lparr>gas_left := gas_left s', memory := memory s'\<rparr>"
    using assms(1) by (auto simp: memory_access_def Let_def split: if_splits)
qed

lemma memory_access_zeros:
  assumes "memory_access s reach = (True, s')"
  shows "memory s' = memory s @ replicate (length (memory s') - length (memory s)) 0"
  using assms by (auto simp: memory_access_def Let_def split: if_splits)

lemma update_twice:
  "u = t\<lparr>gas_left := g, memory := m\<rparr> \<Longrightarrow> t = s\<lparr>gas_left := g', memory := m'\<rparr> \<Longrightarrow> u = s\<lparr>gas_left := g, memory := m\<rparr>"
  for u t s :: "('a, 'h, 'z) state"
  by simp

lemma memory_access_twice:
  assumes a: "memory_access s a = (True, s1)" "memory_access s1 b = (True, s2)" and wf: "length (memory s) mod 32 = 0"
    and w: "w = max (length (memory s)) (max (32 * words_for a) (32 * words_for b))"
  shows "s2 = s\<lparr>gas_left := gas_left s - (memory_cost (int (w div 32)) - memory_cost (int (length (memory s) div 32))),
    memory := memory s @ replicate (w - length (memory s)) 0\<rparr>"
proof -
  note a1 = memory_access_price [OF a(1) wf]
  have "length (memory s1) mod 32 = 0" using wf a1(1) by (simp add: max_def)
  note a2 = memory_access_price [OF a(2) this]
  have l: "length (memory s2) = w" using a1(1) a2(1) w by (simp add: max.assoc)
  have g: "gas_left s2 = gas_left s - (memory_cost (int (w div 32)) - memory_cost (int (length (memory s) div 32)))"
    using a1(2) a2(2) l by simp
  have "memory s2 = memory s @ replicate (length (memory s1) - length (memory s) + (length (memory s2) - length (memory s1))) 0"
    using memory_access_zeros [OF a(1)] memory_access_zeros [OF a(2)] by (metis append.assoc replicate_add)
  moreover have "length (memory s1) - length (memory s) + (length (memory s2) - length (memory s1)) = w - length (memory s)"
    using a1(1) a2(1) l by simp
  moreover have "s2 = s\<lparr>gas_left := gas_left s2, memory := memory s2\<rparr>"
    by (rule update_twice [OF a2(3) a1(3)])
  ultimately show ?thesis using g by simp
qed

lemma memory_access_commutes:
  assumes "memory_access s a = (True, s1)" "memory_access s1 b = (True, s2)"
    and "memory_access s b = (True, t1)" "memory_access t1 a = (True, t2)"
    and "length (memory s) mod 32 = 0"
  shows "s2 = t2"
  using memory_access_twice [OF assms(1,2,5) refl] memory_access_twice [OF assms(3,4,5) refl] by (simp add: max.commute)

lemma memory_cost_bound: "0 \<le> w \<Longrightarrow> w \<le> 2 ^ 28 \<Longrightarrow> memory_cost w \<le> 2 ^ 48"
proof -
  assume "0 \<le> w" "w \<le> 2 ^ 28"
  then have "memory_cost w \<le> memory_cost (2 ^ 28)" by (rule memory_cost_mono)
  also have "\<dots> \<le> 2 ^ 48" by (simp add: memory_cost_def)
  finally show ?thesis .
qed

text \<open>A stored word can be loaded again, without further cost.\<close>

lemma be_load_store: "lib_ok L \<Longrightarrow> be_load L (be_store L v) = v"
  by (simp add: lib_ok_def)

lemma memory_access_again: "memory_access s reach = (True, s') \<Longrightarrow> reach \<le> length (memory s')"
  unfolding memory_access_def words_for_def Let_def by (auto split: if_splits)

lemma mstore_then_mload:
  assumes L: "lib_ok L" and st: "stack s = i # v # st" and ok: "mstore_instr L s = Some (IVMC_SUCCESS, s')"
  shows "mload_instr L (s'\<lparr>stack := i # st\<rparr>) = Some (IVMC_SUCCESS, s'\<lparr>stack := v # st\<rparr>)"
proof -
  have acc: "check_memory64 u i 32 = Some (if unat i < 2 ^ 32 then memory_access u (unat i + 32) else (False, u))"
    for u :: "('a, 'b, 'c) state"
    by (subst check_memory64_access) simp_all
  have len: "length (be_store L v) = 32" using L by (simp add: lib_ok_def)
  from ok st obtain s1 m where i: "unat i < 2 ^ 32" and a: "memory_access (s\<lparr>stack := st\<rparr>) (unat i + 32) = (True, s1)"
    and m: "mem_write (memory s1) (to_size i) (be_store L v) = Some m" and s': "s' = s1\<lparr>memory := m\<rparr>"
    by (auto simp: mstore_instr_def acc bind_eq_Some_conv split: if_splits prod.splits)
  have "unat i + 32 \<le> length m" using memory_access_again [OF a] mem_write_length [OF m] by simp
  then have "memory_access (s'\<lparr>stack := i # st\<rparr>) (unat i + 32) = (True, s'\<lparr>stack := i # st\<rparr>)"
    by (simp add: memory_access_def s')
  moreover have "mem_read m (to_size i) 32 = Some (be_store L v)" using mem_read_write_same [OF m] len by simp
  ultimately show ?thesis using i be_load_store [OF L] by (simp add: mload_instr_def acc s')
qed

section \<open>Return data\<close>

lemma returndatacopy_past_end:
  assumes st: "stack s = mi # ii # sz # st" and past: "length (return_data s) < unat ii + unat sz"
    and len: "length (return_data s) < 2 ^ 63"
  shows "\<exists>ok s'. check_memory (s\<lparr>stack := st\<rparr>) mi sz = Some (ok, s') \<and>
    returndatacopy_instr s = Some (if ok then IVMC_INVALID_MEMORY_ACCESS else IVMC_OUT_OF_GAS, s') \<and>
    take (length (memory s)) (memory s') = memory s"
proof -
  obtain ok s1 where c: "check_memory (s\<lparr>stack := st\<rparr>) mi sz = Some (ok, s1)"
    by (cases "check_memory (s\<lparr>stack := st\<rparr>) mi sz") (auto simp: check_memory_access)
  have rd: "return_data s1 = return_data s" "take (length (memory s)) (memory s1) = memory s"
    using c by (auto simp: check_memory_access memory_access_def Let_def split: if_splits)
  have small: "to_size sz = unat sz" if ok
    using c that by (cases "unat sz < 2 ^ 32")
      (auto simp: check_memory_access to_size_def to_u64_def unsigned_ucast_eq take_bit_nat_eq_self_iff split: if_splits)
  have "unat (to_u64 ii + to_u64 sz) = unat ii + unat sz" if "unat ii \<le> length (return_data s)" ok
  proof -
    have "to_size ii = unat ii"
      using that(1) len by (simp add: to_size_def to_u64_def unsigned_ucast_eq take_bit_nat_eq_self_iff)
    moreover have "unat sz \<le> 2 ^ 33" using c that(2) by (auto simp: check_memory_access split: if_splits)
    ultimately show ?thesis using to_size_sum [of ii sz] small [OF that(2)] that(1) len by simp
  qed
  with st c rd small past show ?thesis
    by (intro exI [of _ ok] exI [of _ s1], cases ok; cases "length (return_data s) < unat ii")
      (simp_all add: returndatacopy_instr_def Let_def)
qed

section \<open>Gas of callees\<close>

text \<open>
  The callee gets no more than was asked for, no more than there is and, since Tangerine Whistle,
  leaves the caller one 64th.
\<close>

lemma callee_gas_limits:
  assumes "callee_gas r gas left = Some g" "0 \<le> left"
  shows "0 \<le> g" "g \<le> left" "g \<le> uint gas" "r \<ge> IVMC_TANGERINE_WHISTLE \<Longrightarrow> g \<le> left - left div 64"
proof -
  define w where "w = (if uint gas < int64_max then sint (to_u64 gas) else int64_max)"
  have w: "0 \<le> w" "w \<le> uint gas"
  proof -
    have "sint (to_u64 gas) = uint gas" if "uint gas < int64_max"
    proof -
      have "int (unat gas) < 2 ^ 63" using that by (simp add: int64_max_def)
      then have lt: "unat gas < 2 ^ 63" by (metis of_nat_less_iff of_nat_numeral of_nat_power)
      then have "unat (to_u64 gas) = unat gas" by (simp add: to_u64_def unsigned_ucast_eq take_bit_nat_eq_self_iff)
      with sint_u64_small [of "to_u64 gas"] lt show ?thesis by simp
    qed
    then show "0 \<le> w" "w \<le> uint gas" by (auto simp: w_def int64_max_def)
  qed
  have d: "left sdiv 64 = left div 64" using assms(2) by (cases "left = 0") (simp_all add: signed_divide_int_def)
  have "left div 64 \<le> left" "0 \<le> left div 64" using assms(2) by simp_all
  with assms(1) w d show "0 \<le> g" "g \<le> left" "g \<le> uint gas" "r \<ge> IVMC_TANGERINE_WHISTLE \<Longrightarrow> g \<le> left - left div 64"
    by (auto simp: callee_gas_def w_def [symmetric] Let_def split: if_splits)
qed

section \<open>Stack permutations\<close>

lemma swap_twice:
  assumes "n < length (stack s)" "0 < n"
  shows "\<exists>s1. swap_instr n s = Some s1 \<and> stack s1 ! 0 = stack s ! n \<and> stack s1 ! n = stack s ! 0 \<and> swap_instr n s1 = Some s"
proof -
  let ?st = "(stack s)[0 := stack s ! n, n := stack s ! 0]"
  have "?st[0 := stack s ! 0, n := stack s ! n] ! i = stack s ! i" if "i < length (stack s)" for i
    using assms that by (cases "i = 0"; cases "i = n") simp_all
  then have "?st[0 := stack s ! 0, n := stack s ! n] = stack s" by (intro nth_equalityI) simp_all
  moreover have "0 < length (stack s)" using assms(1) by linarith
  ultimately have "(?st[0 := ?st ! n])[n := ?st ! 0] = stack s" using assms by simp
  then show ?thesis
    using assms by (auto simp: swap_instr_def on_stack_def stk_get_def stk_set_def nth_list_update)
qed

end
