(* ===== verification/Static_Mode.thy ===== *)
theory Static_Mode
  imports Instruction_Semantics Baseline
begin

text \<open>
  Static calls (\<^verbatim>\<open>IVMC_STATIC\<close>): an execution whose message is static changes the host only by marking
  accounts and storage slots as accessed and by calls that are static again. A \<^verbatim>\<open>CALL\<close> carries no value;
  \<^verbatim>\<open>CALLCODE\<close> and \<^verbatim>\<open>DELEGATECALL\<close> may carry one, but their recipient is the executing account itself.
  \<open>static_host\<close> is the set of host states reachable in this way; the instructions that would
  change the state otherwise fail.
\<close>

section \<open>Host states reachable in static mode\<close>

inductive static_host :: "lib \<Rightarrow> 'h host_interface \<Rightarrow> bytes \<Rightarrow> 'h \<Rightarrow> 'h \<Rightarrow> bool" for L H own h where
  same: "static_host L H own h h"
| account: "static_host L H own h h1 \<Longrightarrow> static_host L H own h (snd (access_account H a h1))"
| storage: "static_host L H own h h1 \<Longrightarrow> static_host L H own h (snd (access_storage H a k h1))"
| call: "static_host L H own h h1 \<Longrightarrow> is_static m \<Longrightarrow> msg_kind m \<in> {IVMC_CALL, IVMC_CALLCODE, IVMC_DELEGATECALL} \<Longrightarrow>
    (if msg_kind m = IVMC_CALL then msg_value m = be_store L 0 else msg_recipient m = own) \<Longrightarrow> static_host L H own h (snd (host_call H m h1))"

lemma static_host_trans: "static_host L H own h1 h2 \<Longrightarrow> static_host L H own h h1 \<Longrightarrow> static_host L H own h h2"
  by (induction rule: static_host.induct) (auto intro: static_host.intros)

section \<open>Instructions\<close>

text \<open>Every result of a computation has a host state reachable from \<open>h\<close>; one rule per construct.\<close>

definition static_ok :: "lib \<Rightarrow> 'h host_interface \<Rightarrow> bytes \<Rightarrow> 'h \<Rightarrow> (ivmc_status_code \<times> ('a, 'h, 'z) state) option \<Rightarrow> bool" where
  "static_ok L H own h r \<longleftrightarrow> (\<forall>c s'. r = Some (c, s') \<longrightarrow> static_host L H own h (host s'))"

lemma static_Some: "static_host L H own h (host s) \<Longrightarrow> static_ok L H own h (Some (c, s))"
  by (simp add: static_ok_def)

lemma static_None: "static_ok L H own h None"
  by (simp add: static_ok_def)

lemma static_bind: "(\<And>x. static_ok L H own h (f x)) \<Longrightarrow> static_ok L H own h (m \<bind> f)"
  by (cases m) (simp_all add: static_ok_def)

lemma static_prod: "(\<And>a b. static_ok L H own h (f a b)) \<Longrightarrow> static_ok L H own h (case p of (a, b) \<Rightarrow> f a b)"
  by (cases p) simp

lemma static_if: "(c \<Longrightarrow> static_ok L H own h a) \<Longrightarrow> (\<not> c \<Longrightarrow> static_ok L H own h b) \<Longrightarrow> static_ok L H own h (if c then a else b)"
  by simp

lemma static_check:
  assumes "\<And>ok s'. host s' = host s \<Longrightarrow> msg s' = msg s \<Longrightarrow> static_ok L H own h (f ok s')"
  shows "static_ok L H own h (check_memory s off sz \<bind> (\<lambda>(ok, s'). f ok s'))"
  using assms by (simp add: check_memory_access memory_access_def Let_def)

lemma static_check64:
  assumes "\<And>ok s'. host s' = host s \<Longrightarrow> static_ok L H own h (f ok s')"
  shows "static_ok L H own h (check_memory64 s off sz \<bind> (\<lambda>(ok, s'). f ok s'))"
  using assms
  by (cases "mem_grow (memory s) (nat (num_words (to_u64 off + sz) * 32))")
    (simp_all add: check_memory64_def grow_memory_def Let_def static_None)

lemma static_charge:
  assumes "static_host L H own h (host s)"
    and "\<And>s'. static_host L H own h (host s') \<Longrightarrow> msg s' = msg s \<Longrightarrow> static_ok L H own h (f s')"
    and "\<And>s'. static_host L H own h (host s') \<Longrightarrow> msg s' = msg s \<Longrightarrow> static_ok L H own h (g s')"
  shows "static_ok L H own h (case charge_cold_account H cost addr s of Inl s' \<Rightarrow> f s' | Inr s' \<Rightarrow> g s')"
proof -
  have "static_host L H own h (snd (access_account H addr (host s)))" using assms(1) by (rule static_host.account)
  with assms show ?thesis
    by (auto simp: charge_cold_account_def use_gas_def Let_def split: prod.split)
qed

lemmas static_rules = static_Some static_check static_check64 static_charge static_bind static_prod static_if static_None

lemma static_memory:
  "static_ok L H (msg_recipient (msg s)) (host s) (exp_instr L s)" "static_ok L H (msg_recipient (msg s)) (host s) (mload_instr L s)"
  "static_ok L H (msg_recipient (msg s)) (host s) (mstore_instr L s)" "static_ok L H (msg_recipient (msg s)) (host s) (mstore8_instr s)"
  "static_ok L H (msg_recipient (msg s)) (host s) (keccak256_instr L s)" "static_ok L H (msg_recipient (msg s)) (host s) (copy_zero_extended d s)"
  "static_ok L H (msg_recipient (msg s)) (host s) (returndatacopy_instr s)"
  unfolding exp_instr_def mload_instr_def mstore_instr_def mstore8_instr_def keccak256_instr_def
    copy_zero_extended_def returndatacopy_instr_def Let_def
  by (intro static_rules; simp add: use_gas_def static_host.same)+

lemma static_accounts:
  "static_ok L H (msg_recipient (msg s)) (host s) (balance_instr L H s)" "static_ok L H (msg_recipient (msg s)) (host s) (extcodesize_instr L H s)"
  "static_ok L H (msg_recipient (msg s)) (host s) (extcodehash_instr L H s)" "static_ok L H (msg_recipient (msg s)) (host s) (extcodecopy_instr L H s)"
  unfolding balance_instr_def extcodesize_instr_def extcodehash_instr_def extcodecopy_instr_def Let_def
  by (intro static_rules; simp add: use_gas_def static_host.same)+

lemma static_sload: "static_ok L H (msg_recipient (msg s)) (host s) (sload_instr L H s)"
proof -
  have "static_host L H (msg_recipient (msg s)) (host s) (snd (access_storage H a k (host s)))" for a k
    by (rule static_host.storage [OF static_host.same])
  then show ?thesis
    unfolding sload_instr_def Let_def case_prod_beta
    by (intro static_rules; simp add: use_gas_def static_host.same)
qed

text \<open>The instructions that are not allowed.\<close>

lemma static_forbidden:
  assumes "is_static (msg s)"
  shows "sstore_instr L H s = Some (IVMC_STATIC_MODE_VIOLATION, s)" "log_instr L H n s = Some (IVMC_STATIC_MODE_VIOLATION, s)"
    "create_instr L H kind s = Some (IVMC_STATIC_MODE_VIOLATION, s)" "selfdestruct_instr L H s = Some (IVMC_STATIC_MODE_VIOLATION, s)"
  using assms by (simp_all add: sstore_instr_def log_instr_def create_instr_def selfdestruct_instr_def)

text \<open>Calls are static again.\<close>

definition quiet :: "lib \<Rightarrow> bytes \<Rightarrow> ivmc_message \<Rightarrow> bool" where
  "quiet L own m \<longleftrightarrow> is_static m \<and> msg_kind m \<in> {IVMC_CALL, IVMC_CALLCODE, IVMC_DELEGATECALL} \<and>
     (if msg_kind m = IVMC_CALL then msg_value m = be_store L 0 else msg_recipient m = own)"

lemma quiet_call_message:
  assumes "is_static m" "kind \<in> {IVMC_CALL, IVMC_CALLCODE, IVMC_DELEGATECALL}" "kind = IVMC_CALL \<Longrightarrow> v = 0"
    and "msg_recipient m = own"
  shows "quiet L own (call_message L kind static m dst v input\<lparr>msg_gas := g\<rparr>)"
  using assms by (auto simp: quiet_def call_message_def is_static_def IVMC_STATIC_def)

lemma static_call_host:
  assumes "quiet L own m" "static_host L H own h (host s)"
  shows "static_ok L H own h (call_host L H m v off n s)"
proof -
  have "static_host L H own h (snd (host_call H m (host s)))"
    using assms by (auto simp: quiet_def intro: static_host.call)
  with assms(2) show ?thesis
    unfolding call_host_def Let_def case_prod_beta
    by (intro static_rules; simp add: use_gas_def)
qed

lemma static_callee: "static_ok L H own h a \<Longrightarrow> (\<And>g. static_ok L H own h (f g)) \<Longrightarrow> static_ok L H own h (case x of None \<Rightarrow> a | Some g \<Rightarrow> f g)"
  by (cases x) simp_all

lemma static_call:
  assumes m: "is_static (msg s)" and kind: "kind \<in> {IVMC_CALL, IVMC_CALLCODE, IVMC_DELEGATECALL}"
  shows "static_ok L H (msg_recipient (msg s)) (host s) (call_instr L H kind static s)"
  unfolding call_instr_def Let_def
  by (intro static_rules static_callee static_call_host quiet_call_message kind; simp add: use_gas_def static_host.same m)

section \<open>Executions\<close>

lemma op2fn_call_kinds:
  "op2fn op = Some (Generic (fn_call kind static)) \<Longrightarrow> kind \<in> {IVMC_CALL, IVMC_CALLCODE, IVMC_DELEGATECALL}"
  by (auto simp: op2fn_def set_range_def split: if_splits)

fun result_of :: "('a, 'h, 'z) state instr_fn \<Rightarrow> ('a, 'h, 'z) state \<Rightarrow> (ivmc_status_code \<times> ('a, 'h, 'z) state) option" where
  "result_of (Succeeding f) s = map_option (Pair IVMC_SUCCESS) (f s)"
| "result_of (MayFail f) s = f s"
| "result_of (Terminating f) s = f s"
| "result_of (CodePosition f) s = None"

lemma static_impl:
  assumes "is_static (msg s)" "op2fn op = Some (Generic n)" "contract d (impl L H n) s"
  shows "static_ok L H (msg_recipient (msg s)) (host s) (result_of (impl L H n) s)"
proof (cases "impl L H n :: ('a, 'b, 'c) state instr_fn")
  case (Succeeding f)
  with assms(3) obtain s' where s': "f s = Some s'" "s' = s\<lparr>stack := stack s'\<rparr>" by (auto simp: succeeds_def wp_iff)
  have "host s' = host s" by (subst s'(2)) simp
  with Succeeding s' show ?thesis by (simp add: static_ok_def static_host.same)
next
  case (MayFail f)
  then show ?thesis
    using static_forbidden [OF assms(1), of L H] static_call [OF assms(1)] op2fn_call_kinds [of op] assms(2)
    by (cases n) (auto simp: static_memory static_accounts static_sload static_Some static_host.same
        calldatacopy_instr_def codecopy_instr_def)
next
  case (Terminating f)
  have ret: "static_ok L H (msg_recipient (msg s)) (host s) (return_instr st s)" for st
    unfolding return_instr_def by (intro static_rules; simp add: static_host.same)
  from Terminating show ?thesis
    using static_forbidden(4) [OF assms(1), of L H] ret
    by (cases n) (auto simp: stop_instr_def invalid_instr_def static_Some static_host.same)
qed (simp add: static_None)

lemma invoke_result:
  assumes "invoke f s p = Some (s', q)" "\<And>f'. f \<noteq> CodePosition f'"
  shows "\<exists>c s1. result_of f s = Some (c, s1) \<and> host s' = host s1"
  using assms by (cases f) (auto simp: bind_eq_Some_conv split: if_splits)

lemma static_code_position:
  assumes "invoke (baseline_impl L H b) s p = Some (s', q)" "\<And>n. b \<noteq> Generic n"
  shows "host s' = host s"
  using assms
  by (cases b) (auto simp: bind_eq_Some_conv jump_instr_def jumpi_instr_def jump_impl_def pc_instr_def push_instr_def
      push_instr_value_def on_stack_def Let_def split: if_splits)

lemma static_step:
  assumes inv: "base_inv L H g c s p" and m: "is_static (msg s)" and st: "baseline_step L H s p = Some (s', q)"
  shows "static_host L H (msg_recipient (msg s)) (host s) (host s')"
proof -
  have an: "analysis s = Some (analyze_baseline g c)" and start: "instr_start c p" and wf: "length (stack s) \<le> stack_limit"
    and HL: "host_ok H" "store32 L" using inv by (simp_all add: base_inv_def state_wf_def)
  let ?op = "unat (padded_code (analyze_baseline g c) ! p)"
  note pc = base_opcode(1) [OF start, of g]
  obtain cd s1 where cr: "check_requirements (get_baseline_instruction_table (revision s)) s ?op = (cd, s1)"
    by (cases "check_requirements (get_baseline_instruction_table (revision s)) s ?op")
  from cr wf show ?thesis
  proof (cases rule: check_requirements_cases)
    case (fail k)
    with st cr an pc show ?thesis by (auto simp: baseline_step_def Let_def ok_status_def static_host.same)
  next
    case ok
    with st cr an pc obtain b where b: "op2fn ?op = Some b" and i: "invoke (baseline_impl L H b) s1 p = Some (s', q)"
      by (auto simp: baseline_step_def Let_def bind_eq_Some_conv)
    have h: "host s1 = host s" "is_static (msg s1)" "msg s1 = msg s" using ok m by simp_all
    show ?thesis
    proof (cases b)
      case (Generic n)
      have rd: "ready (stack_height_required (traits ?op)) (stack_height_change (traits ?op)) s1"
        using ok inv by (auto simp: ready_def base_inv_def state_wf_def)
      have "contract (snd (needs n)) (impl L H n) s1"
        using impl_contract [OF op2fn_valid, of ?op n s1 H L] b Generic rd op2fn_traits [OF b] HL by simp
      note so = static_impl [OF h(2) b [unfolded Generic] this]
      have "impl L H n \<noteq> CodePosition f'" for f' by (cases n) simp_all
      from invoke_result [OF i [unfolded Generic baseline_impl.simps] this] so h show ?thesis
        by (auto simp: static_ok_def)
    qed (use static_code_position [OF i] h static_host.same in auto)
  qed
qed

theorem static_run:
  assumes "base_inv L H g c s p" "is_static (msg s)" "loop (baseline_step L H) n s p = Exited s'"
  shows "static_host L H (msg_recipient (msg s)) (host s) (host s')"
  using assms
proof (induction n arbitrary: s p)
  case 0
  then show ?case by simp
next
  case (Suc n)
  from base.step_defined [OF Suc.prems(1)] obtain s1 q where st: "baseline_step L H s p = Some (s1, q)" by blast
  note h = static_step [OF Suc.prems(1,2) st]
  show ?case
  proof (cases q)
    case None
    with st h Suc.prems(3) show ?thesis by simp
  next
    case (Some q')
    with base_step_post [OF Suc.prems(1)] st have inv: "base_inv L H g c s1 q'" and "env_same s s1"
      by (auto simp: base_post_def)
    then have m: "is_static (msg s1)" and same: "msg s1 = msg s" using Suc.prems(2) by (simp_all add: env_same_def)
    have "loop (baseline_step L H) n s1 q' = Exited s'" using Suc.prems(3) st Some by simp
    from Suc.IH [OF inv m this, unfolded same] h show ?thesis by (rule static_host_trans)
  qed
qed

end
