(* ===== verification/Analysis_Limits.thy ===== *)
theory Analysis_Limits
  imports Advanced_Compile
begin

text \<open>
  How large the tables of the Advanced analysis get, and where the compressed block data stops
  being exact: the vector sizes the analysis reserves, and the saturation of the gas cost of a
  block in code beyond the size limit.
\<close>

section \<open>Table sizes\<close>

lemma after_push_le: "after_push c p \<le> length c"
  by (simp add: after_push_def)

lemma compile_length: "length (snd (compile tbl c p b np k)) \<le> 2 * (length c - p) + 1"
proof (induction tbl c p b np k rule: compile.induct)
  case (1 tbl c p b np k)
  show ?case
  proof (cases "p < length c")
    case False
    then show ?thesis by (simp add: compile.simps)
  next
    case True
    let ?b' = "add_to_block (tbl (opcode_at c p)) b"
    let ?np = "np + length (own_push c p)" and ?k = "next_index c p k"
    have own: "length (own_instr tbl c p cost n) \<le> 1" for cost n by (simp add: length_own_instr)
    have rest: "2 * (length c - after_push c p) + 3 \<le> 2 * (length c - p) + 1"
      using after_push_gt [OF True] after_push_le [of c p] by linarith
    show ?thesis
    proof (cases "ends_block c p")
      case e: True
      have "length (snd (compile tbl c (after_push c p) (new_block (?k - 1)) ?np ?k)) \<le> 2 * (length c - after_push c p) + 1"
        using 1(1) [OF True refl refl refl refl e] by simp
      with own [of "ba_gas_cost ?b'" np] rest True e show ?thesis
        by (simp add: compile.simps [of _ _ p] Let_def case_prod_beta)
    next
      case e: False
      have "length (snd (compile tbl c (after_push c p) ?b' ?np ?k)) \<le> 2 * (length c - after_push c p) + 1"
        using 1(2) [OF True refl refl refl refl e] by simp
      with own [of "ba_gas_cost ?b'" np] rest True e show ?thesis
        by (simp add: compile.simps [of _ _ p] Let_def case_prod_beta)
    qed
  qed
qed

lemma analyze_instrs_length: "length (instrs (analyze r c)) \<le> 2 * length c + 2"
  using compile_length [of "get_op_table r" c 0 "new_block 0" 0 1]
  by (simp add: analyze_compile Let_def case_prod_beta)

lemma pushes_length: "length (pushes c p) \<le> length c - p"
proof (induction c p rule: pushes.induct)
  case (1 c p)
  have "length (own_push c p) \<le> 1" by (simp add: own_push_def)
  with 1 after_push_gt [of p c] after_push_le [of c p] show ?case
    by (cases "p < length c") (simp_all add: pushes.simps [of c p])
qed

lemma analyze_push_values_length: "length (push_values (analyze r c)) \<le> length c"
  using pushes_length [of c 0] by (simp add: analyze_tables)

text \<open>A single \<^verbatim>\<open>JUMP\<close>: two block headers, the jump and the final \<^verbatim>\<open>STOP\<close>.\<close>

lemma analyze_jump_length: "length (instrs (analyze r [0x56])) = 4"
proof -
  have a: "after_push [0x56] 0 = 1" by (simp add: after_push_def next_pos_def push_len_def is_push_def)
  have e: "ends_block [0x56] 0" by (simp add: ends_block_def is_terminator_def)
  show ?thesis
    by (simp add: analyze_compile compile.simps [of _ "[0x56]" 0] compile.simps [of _ "[0x56]" "Suc 0"] a e
        length_own_instr Let_def case_prod_beta)
qed

section \<open>Saturation\<close>

lemma compile_creates:
  fixes n :: nat
  defines "c \<equiv> replicate n (0xf0 :: byte)"
  assumes "p \<le> n"
  shows "ba_gas_cost (fst (compile (get_op_table r) c p b np k)) = ba_gas_cost b + 32000 * int (n - p)"
  using assms(2)
proof (induction "n - p" arbitrary: p b np k)
  case 0
  then show ?case by (simp add: compile.simps c_def)
next
  case (Suc d)
  then have p: "p < length c" by (simp add: c_def)
  then have op: "opcode_at c p = OP_CREATE" by (simp add: c_def)
  have a: "after_push c p = p + 1" using op p by (simp add: after_push_def next_pos_def push_len_def is_push_def)
  have e: "\<not> ends_block c p"
  proof -
    have "length c = n" "p + 1 < n \<Longrightarrow> opcode_at c (p + 1) = OP_CREATE" by (simp_all add: c_def)
    with p op show ?thesis
      unfolding ends_block_def a by (cases "p + 1 < n") (simp_all add: is_terminator_def)
  qed
  have cost: "entry_gas_cost (get_op_table r OP_CREATE) = 32000"
    using gas_costs_create [of r] by (simp add: get_op_table_def undefined_cost_def)
  have "d = n - (p + 1)" using Suc.hyps(2) by simp
  from Suc.hyps(1) [OF this] p have
    "ba_gas_cost (fst (compile (get_op_table r) c (p + 1) (add_to_block (get_op_table r OP_CREATE) b) np' k')) =
     ba_gas_cost b + 32000 + 32000 * int (n - (p + 1))" for np' k'
    by (simp add: c_def add_to_block_simps cost)
  moreover have "int (n - p) = int (n - (p + 1)) + 1" using p by (simp add: c_def)
  ultimately show ?case
    using p e by (simp add: compile.simps [of _ _ p] Let_def case_prod_beta op a)
qed

lemma block_gas_saturates:
  assumes "134218 \<le> n"
  shows "bi_gas_cost (close (fst (compile (get_op_table r) (replicate n 0xf0) 0 (new_block 0) 0 1))) = 2 ^ 32 - 1"
    and "ba_gas_cost (fst (compile (get_op_table r) (replicate n 0xf0) 0 (new_block 0) 0 1)) = 32000 * int n"
  using assms by (simp_all add: compile_creates close_def clamp_def new_block_def)

end
