(* ===== verification/Sample.thy ===== *)
theory Sample
  imports Tracing
begin

text \<open>
  A concrete library, a concrete host and names for the tracers. They satisfy \<open>lib_ok\<close> and \<open>host_ok\<close>, so the properties
  that assume these are about something, and they are executable, so programs can be run in the
  logic. The host keeps one storage, one log and the calls it was asked for; accounts hold no code,
  a call succeeds at once and gives all its gas back.
\<close>

section \<open>Big-endian bytes\<close>

fun be_bytes :: "nat \<Rightarrow> nat \<Rightarrow> bytes" where
  "be_bytes 0 x = []"
| "be_bytes (Suc n) x = be_bytes n (x div 256) @ [of_nat (x mod 256)]"

lemma length_be_bytes [simp]: "length (be_bytes n x) = n"
  by (induction n arbitrary: x) simp_all

lemma be_value_snoc: "be_value (bs @ [b]) = be_value bs * 256 + unat b"
  by (simp add: be_value_def)

lemma be_value_be_bytes: "be_value (be_bytes n x) = x mod 256 ^ n"
proof (induction n arbitrary: x)
  case 0
  then show ?case by (simp add: be_value_def)
next
  case (Suc n)
  have "unat (of_nat (x mod 256) :: byte) = x mod 256"
    by (simp add: unat_of_nat take_bit_eq_mod)
  with Suc show ?case
    by (simp add: be_value_snoc mod_mult2_eq mult.commute)
qed

section \<open>The library\<close>

fun significant_bytes :: "nat \<Rightarrow> nat \<Rightarrow> nat" where
  "significant_bytes 0 x = 0"
| "significant_bytes (Suc n) x = (if x = 0 then 0 else Suc (significant_bytes n (x div 256)))"

lemma significant_bytes_le: "significant_bytes n x \<le> n"
  by (induction n arbitrary: x) simp_all

lemma significant_bytes_bound: "x < 256 ^ n \<Longrightarrow> x < 256 ^ significant_bytes n x"
proof (induction n arbitrary: x)
  case 0
  then show ?case by simp
next
  case (Suc n)
  then have "x div 256 < 256 ^ significant_bytes n (x div 256)"
    by (metis less_mult_imp_div_less power_Suc mult.commute)
  then show ?case by auto
qed

lemma significant_bytes_least: "x \<noteq> 0 \<Longrightarrow> x < 256 ^ n \<Longrightarrow> 256 ^ (significant_bytes n x - 1) \<le> x"
proof (induction n arbitrary: x)
  case 0
  then show ?case by simp
next
  case (Suc n)
  have lt: "x div 256 < 256 ^ n" using Suc.prems(2) by (simp add: less_mult_imp_div_less mult.commute)
  show ?case
  proof (cases "x div 256 = 0")
    case True
    then show ?thesis using Suc.prems by (cases n) simp_all
  next
    case False
    from Suc.IH [OF False lt] have le: "256 ^ (significant_bytes n (x div 256) - 1) \<le> x div 256" .
    have "significant_bytes n (x div 256) \<noteq> 0"
      using False significant_bytes_bound [OF lt] by (metis One_nat_def less_one power_0)
    then have "256 ^ significant_bytes n (x div 256) = 256 * 256 ^ (significant_bytes n (x div 256) - 1)"
      by (metis Suc_diff_1 bot_nat_0.not_eq_extremum power_Suc)
    also have "\<dots> \<le> x" using le by (metis mult_le_mono2 order_trans times_div_less_eq_dividend)
    finally show ?thesis using Suc.prems by simp
  qed
qed

definition sample_lib :: lib where
  "sample_lib =
     \<lparr>intx_div = (\<lambda>x y. x div y), intx_mod = (\<lambda>x y. x mod y),
      intx_sdivrem = (\<lambda>x y. (word_of_int (sint x sdiv sint y), word_of_int (sint x smod sint y))),
      intx_addmod = (\<lambda>x y m. of_nat ((unat x + unat y) mod unat m)),
      intx_mulmod = (\<lambda>x y m. of_nat ((unat x * unat y) mod unat m)),
      intx_exp = (\<lambda>x y. x ^ unat y),
      intx_count_significant_bytes = (\<lambda>x. significant_bytes 32 (unat x)),
      intx_slt = (\<lambda>x y. sint x < sint y),
      intx_shl = (\<lambda>x y. push_bit (unat y) x), intx_shr = (\<lambda>x y. drop_bit (unat y) x),
      intx_shl64 = (\<lambda>x y. push_bit (unat y) x), intx_of_int64 = word_of_int,
      be_load = (\<lambda>bs. of_nat (be_value bs)), be_store = (\<lambda>x. be_bytes 32 (unat x)),
      be_trunc = (\<lambda>x. be_bytes 20 (unat x)), ethash_keccak256 = (\<lambda>bs. replicate 32 0)\<rparr>"

lemma sample_lib_ok: "lib_ok sample_lib"
proof -
  have lt: "unat x < 256 ^ 32" for x :: uint256
    using unsigned_less [of x, where 'a = nat] by simp
  have "(2 :: nat) ^ 160 = 256 ^ 20" by simp
  then show ?thesis
    unfolding lib_ok_def
    using significant_bytes_le significant_bytes_bound [OF lt] significant_bytes_least [OF _ lt] lt
    by (simp add: sample_lib_def be_value_be_bytes unat_eq_0)
qed

section \<open>The host\<close>

record sample_state =
  hs_storage :: "(bytes \<times> bytes) list"
  hs_logs :: "(bytes \<times> bytes list) list"
  hs_calls :: "ivmc_message list"

definition empty_host :: sample_state where
  "empty_host = \<lparr>hs_storage = [], hs_logs = [], hs_calls = []\<rparr>"

definition sample_tx :: ivmc_tx_context where
  "sample_tx =
     \<lparr>tx_gas_price = replicate 32 0, tx_origin = replicate 20 0, block_coinbase = replicate 20 0,
      block_number = 0, block_timestamp = 0, block_gas_limit = 0, block_difficulty = replicate 32 0,
      chain_id = replicate 32 0, block_base_fee = replicate 32 0\<rparr>"

definition sample_host :: "sample_state host_interface" where
  "sample_host =
     \<lparr>account_exists = (\<lambda>a h. False),
      get_storage = (\<lambda>a k h. case map_of (hs_storage h) k of None \<Rightarrow> replicate 32 0 | Some v \<Rightarrow> v),
      set_storage = (\<lambda>a k v h. (IVMC_STORAGE_MODIFIED, h\<lparr>hs_storage := (k, v) # hs_storage h\<rparr>)),
      get_balance = (\<lambda>a h. replicate 32 0), get_code_size = (\<lambda>a h. 0),
      get_code_hash = (\<lambda>a h. replicate 32 0), copy_code = (\<lambda>a off n h. []),
      host_selfdestruct = (\<lambda>a b h. h),
      host_call = (\<lambda>m h. (\<lparr>res_status = IVMC_SUCCESS, res_gas_left = msg_gas m, res_output = [],
                          res_create_address = replicate 20 0\<rparr>, h\<lparr>hs_calls := m # hs_calls h\<rparr>)),
      get_tx_context = (\<lambda>h. sample_tx), get_block_hash = (\<lambda>n h. replicate 32 0),
      emit_log = (\<lambda>a d ts h. h\<lparr>hs_logs := (d, ts) # hs_logs h\<rparr>),
      access_account = (\<lambda>a h. (IVMC_ACCESS_WARM, h)),
      access_storage = (\<lambda>a k h. (IVMC_ACCESS_WARM, h))\<rparr>"

lemma sample_host_ok: "host_ok sample_host"
  by (simp add: host_ok_def sample_host_def)

definition sample_message :: "int \<Rightarrow> ivmc_message" where
  "sample_message gas = zero_message\<lparr>msg_gas := gas\<rparr>"

text \<open>A state in the middle of an execution.\<close>

definition sample_exec :: "int \<Rightarrow> uint256 list \<Rightarrow> (CodeAnalysis, sample_state) ExecutionState" where
  "sample_exec gas st = (new_state (sample_message gas) IVMC_BERLIN empty_host [])\<lparr>stack := st\<rparr>"

lemma sample_exec_simps [simp]:
  "stack (sample_exec gas st) = st" "memory (sample_exec gas st) = []" "return_data (sample_exec gas st) = []"
  "gas_left (sample_exec gas st) = gas" "(sample_exec gas st)\<lparr>stack := st'\<rparr> = sample_exec gas st'"
  by (simp_all add: sample_exec_def new_state_def sample_message_def)

text \<open>Names for the tracers.\<close>

definition sample_trace_lib :: trace_lib where
  "sample_trace_lib =
     \<lparr>instruction_names_table = (\<lambda>r op. if op = 0 then Some ''STOP'' else if op = 0x60 then Some ''PUSH1'' else None),
      hex_byte = (\<lambda>b. show_nat (unat b)), hex = (\<lambda>bs. concat (map (\<lambda>b. show_nat (unat b)) bs)),
      to_string16 = (\<lambda>x. show_nat (unat x)), show_revision = (\<lambda>r. ''revision''), show_status = (\<lambda>s. ''status'')\<rparr>"

section \<open>A program that calls\<close>

text \<open>Seven times \<^verbatim>\<open>MSIZE\<close>, which pushes zero, then \<^verbatim>\<open>CALL\<close>.\<close>

definition sample_call :: bytes where
  "sample_call = replicate 7 0x59 @ [0xf1]"

lemma sample_call_analysis:
  "padded_code (analyze_baseline (\<lambda>_. 7) sample_call) = sample_call @ [0]"
  by (simp add: analyze_baseline_def sample_call_def scan_jumpdests.simps numeral_eq_Suc)

lemma msize_step:
  assumes "analysis s = Some a" "p < length (padded_code a)" "padded_code a ! p = 0x59"
    and "revision s = IVMC_BERLIN" "2 \<le> gas_left s" "length (stack s) < 1024" "memory s = []"
  shows "baseline_step L H s p = Some (s\<lparr>gas_left := gas_left s - 2, stack := 0 # stack s\<rparr>, Some (Suc p))"
proof -
  have op: "op2fn 0x59 = Some (Generic fn_msize)" by (simp add: op2fn_def set_range_def)
  have cost: "gas_costs IVMC_BERLIN 0x59 = 2" by (simp add: gas_costs_defs set_range_def)
  show ?thesis
    using assms op2fn_traits [OF op] op cost
    by (simp add: baseline_step_def check_requirements_def get_baseline_instruction_table_def undefined_cost_def
        stack_limit_def msize_instr_def push_instr_value_def on_stack_def Let_def)
qed

lemma call_zeros:
  assumes "revision s = IVMC_BERLIN" "0 \<le> gas_left s" "stack s = [0, 0, 0, 0, 0, 0, 0]" "msg_depth (msg s) < 1024"
  shows "call_instr sample_lib sample_host IVMC_CALL False s = Some (IVMC_SUCCESS, s\<lparr>stack := [1], return_data := [],
    host := (host s)\<lparr>hs_calls := (call_message sample_lib IVMC_CALL False (msg s) (be_trunc sample_lib 0) 0 [])\<lparr>msg_gas := 0\<rparr> #
      hs_calls (host s)\<rparr>\<rparr>)"
proof -
  have g: "callee_gas IVMC_BERLIN 0 (gas_left s) = Some 0"
    using assms(2) sdiv64 [OF assms(2)] by (simp add: callee_gas_def int64_max_def rev_order to_u64_def)
  have c: "charge_cold_account sample_host k d u = Inr u" for k d and u :: "('a, sample_state, 'b) state"
    by (simp add: charge_cold_account_def sample_host_def)
  show ?thesis
    using assms g
    by (simp add: call_instr_def c check_memory_def call_host_def stack_limit_def to_size_def to_u64_def use_gas_def
        rev_order Let_def) (simp add: sample_host_def of_bool256_def stk_set_def)
qed

lemma call_step:
  assumes "analysis s = Some a" "p < length (padded_code a)" "padded_code a ! p = 0xf1"
    and s: "revision s = IVMC_BERLIN" "100 \<le> gas_left s" "stack s = [0, 0, 0, 0, 0, 0, 0]" "msg_depth (msg s) < 1024"
  shows "\<exists>s'. call_instr sample_lib sample_host IVMC_CALL False (s\<lparr>gas_left := gas_left s - 100\<rparr>) = Some (IVMC_SUCCESS, s') \<and>
    baseline_step sample_lib sample_host s p = Some (s', Some (Suc p))"
proof -
  have op: "op2fn 0xf1 = Some (Generic (fn_call IVMC_CALL False))" by (simp add: op2fn_def set_range_def)
  have cost: "gas_costs IVMC_BERLIN 0xf1 = 100" by (simp add: gas_costs_defs set_range_def warm_storage_read_cost_def)
  show ?thesis
    using assms op2fn_traits [OF op] op cost call_zeros [of "s\<lparr>gas_left := gas_left s - 100\<rparr>"]
    by (simp add: baseline_step_def check_requirements_def get_baseline_instruction_table_def undefined_cost_def
        stack_limit_def call_arity_def Let_def)
qed

lemma stop_step:
  assumes "analysis s = Some a" "p < length (padded_code a)" "padded_code a ! p = 0"
    and "revision s = IVMC_BERLIN" "0 \<le> gas_left s" "length (stack s) < 1024"
  shows "baseline_step L H s p = Some (s\<lparr>status := IVMC_SUCCESS\<rparr>, None)"
proof -
  have op: "op2fn 0 = Some (Generic fn_stop)" by (simp add: op2fn_def set_range_def)
  show ?thesis
    using assms op2fn_traits [OF op] op gas_costs_control(1) [of IVMC_BERLIN]
    by (simp add: baseline_step_def check_requirements_def get_baseline_instruction_table_def undefined_cost_def
        stack_limit_def stop_instr_def Let_def)
qed

text \<open>The message of the call.\<close>

definition called :: "ivmc_message \<Rightarrow> ivmc_message" where
  "called m = (call_message sample_lib IVMC_CALL False m (be_trunc sample_lib 0) 0 [])\<lparr>msg_gas := 0\<rparr>"

lemma sample_call_code:
  "length (padded_code (analyze_baseline (\<lambda>_. 7) sample_call)) = 9"
  "k < 7 \<Longrightarrow> padded_code (analyze_baseline (\<lambda>_. 7) sample_call) ! k = 0x59"
  "padded_code (analyze_baseline (\<lambda>_. 7) sample_call) ! 7 = 0xf1"
  "padded_code (analyze_baseline (\<lambda>_. 7) sample_call) ! 8 = 0"
  unfolding sample_call_analysis by (simp_all add: sample_call_def nth_append)

lemma msize_run:
  assumes s: "analysis s = Some (analyze_baseline (\<lambda>_. 7) sample_call)" "revision s = IVMC_BERLIN" "gas_left s = 1000"
      "stack s = []" "memory s = []" and "k \<le> 7"
  shows "loop (baseline_step L H) (k + n) s 0 =
    loop (baseline_step L H) n (s\<lparr>gas_left := 1000 - 2 * int k, stack := replicate k 0\<rparr>) k"
  using assms(6)
proof (induction k arbitrary: n)
  case 0
  have "s\<lparr>gas_left := 1000, stack := []\<rparr> = s" using s by (cases s) simp
  then show ?case by simp
next
  case (Suc k)
  have "loop (baseline_step L H) (Suc k + n) s 0 =
      loop (baseline_step L H) (Suc n) (s\<lparr>gas_left := 1000 - 2 * int k, stack := replicate k 0\<rparr>) k"
    using Suc.IH [of "Suc n"] Suc.prems by simp
  also have "\<dots> = loop (baseline_step L H) n (s\<lparr>gas_left := 1000 - 2 * int (Suc k), stack := replicate (Suc k) 0\<rparr>) (Suc k)"
    using Suc.prems s sample_call_code(1,2) by (simp add: msize_step [where a = "analyze_baseline (\<lambda>_. 7) sample_call"])
  finally show ?case .
qed

lemma sample_call_run:
  assumes "msg_gas m = 1000" "msg_depth m = 0"
  shows "\<exists>r s. baseline_execute_ivmc sample_lib sample_host (\<lambda>_. 7) 9 empty_host IVMC_BERLIN m sample_call = Exited (r, s) \<and>
    hs_calls (host s) = [called m]"
proof -
  let ?a = "analyze_baseline (\<lambda>_. 7) sample_call" and ?step = "baseline_step sample_lib sample_host"
  define s0 where "s0 = baseline_start (new_state m IVMC_BERLIN empty_host sample_call) ?a"
  have s0: "analysis s0 = Some ?a" "revision s0 = IVMC_BERLIN" "gas_left s0 = 1000" "stack s0 = []" "memory s0 = []" "msg s0 = m"
    "host s0 = empty_host" "output_size s0 = 0" using assms(1) by (simp_all add: s0_def baseline_start_def new_state_def)
  let ?s7 = "s0\<lparr>gas_left := 986, stack := [0, 0, 0, 0, 0, 0, 0]\<rparr>"
  have "loop ?step 9 s0 0 = loop ?step 2 ?s7 7"
    using msize_run [OF s0(1-5), of 7 sample_lib sample_host 2] by (simp add: numeral_eq_Suc)
  moreover obtain s' where c: "call_instr sample_lib sample_host IVMC_CALL False (?s7\<lparr>gas_left := 886\<rparr>) = Some (IVMC_SUCCESS, s')"
    "?step ?s7 7 = Some (s', Some 8)"
    using call_step [of ?s7 ?a 7] s0 sample_call_code assms(2) by auto
  moreover have s': "s' = s0\<lparr>gas_left := 886, stack := [1], return_data := [], host := empty_host\<lparr>hs_calls := [called m]\<rparr>\<rparr>"
    using c(1) call_zeros [of "?s7\<lparr>gas_left := 886\<rparr>"] s0 assms(2) by (simp add: called_def empty_host_def)
  moreover have "?step s' 8 = Some (s'\<lparr>status := IVMC_SUCCESS\<rparr>, None)"
    using stop_step [of s' ?a 8] s0 sample_call_code by (simp add: s')
  ultimately have "loop ?step 9 s0 0 = Exited (s'\<lparr>status := IVMC_SUCCESS\<rparr>)" by (simp add: numeral_2_eq_2)
  then show ?thesis
    using s0 by (simp add: baseline_execute_ivmc_def baseline_execute_def s0_def [symmetric] state_result_def s')
qed

end
