(* ===== verification/Spec2Isabelle.thy ===== *)
theory Spec2Isabelle
  imports Vm Static_Mode Analysis_Limits Sample
begin

text \<open>
  Verification of ivmone, a virtual machine for Ethereum bytecode behind the IVMC interface.

  \<^bold>\<open>The program.\<close> A client creates an instance (\<^verbatim>\<open>lib/ivmone/vm.cpp\<close>), sets options on it and calls
  \<^verbatim>\<open>execute\<close> with a host, a revision, a message and code. Two interpreters can serve the call. Baseline
  (\<^verbatim>\<open>baseline.cpp\<close>) pads the code, finds the jump destinations and then checks and runs one instruction
  after the other; it can report to a chain of tracers (\<^verbatim>\<open>tracing.cpp\<close>). Advanced (\<^verbatim>\<open>analysis.cpp\<close>,
  \<^verbatim>\<open>instructions.cpp\<close>, \<^verbatim>\<open>execution.cpp\<close>) translates the code into a table of function pointers with one
  header per basic block, charges the gas and checks the stack of a whole block at its header, and
  corrects the gas for the instructions that look at it. Both share the state with its stack and
  memory (\<^verbatim>\<open>execution_state.hpp\<close>), the instructions (\<^verbatim>\<open>instructions.hpp\<close>, \<^verbatim>\<open>instructions_calls.cpp\<close>) and the
  tables of costs and traits (\<^verbatim>\<open>instruction_traits.hpp\<close>).

  \<^bold>\<open>The model.\<close> Every C++ function is a HOL function of the same name, with a suffix where HOL has the
  name (\<open>add_instr\<close> for \<^verbatim>\<open>add\<close>). State is passed explicitly. \<open>None\<close> of an option is undefined behaviour of
  the C++ code (access out of range, null function pointer, wrong union member, unreachable case);
  errors of the virtual machine are status codes. Stack items are 256-bit words, sizes and offsets
  that can wrap around are 64-bit words, gas is an integer that C5 shows to stay in range. The sizes
  of buffers (code, input, memory capacity) are natural numbers and the call depth and the
  stack counters of a block are integers: they differ from the C++ types only for buffers
  that do not fit in the address space, call depths of \<open>2\<^sup>3\<^sup>1\<close> and blocks of more than \<open>2\<^sup>2\<^sup>8\<close> bytes.

  \<^item> \<open>Prelude\<close>: machine types, the outcome of a loop, weakest preconditions for options, list lemmas.
  \<^item> \<open>Ivmc\<close>: the interface to packages outside the repository. The host is a record of functions over
    any host state; 256-bit division, byte order and Keccak are a record of functions \<open>lib\<close>.
    \<open>lib_ok\<close> and \<open>host_ok\<close> are their documented behaviour (results of arithmetic, sizes of hashes,
    no more gas returned than given, outputs that fit in the address space). \<open>Sample\<close> has instances
    of both, and a program that calls. \<^verbatim>\<open>std::lower_bound\<close> is modelled by its specification.
  \<^item> \<open>Instruction_Traits\<close>: \<^verbatim>\<open>instruction_traits.hpp\<close>, the tables of all revisions.
  \<^item> \<open>Stack\<close>, \<open>Memory\<close>, \<open>Execution_State\<close>: \<^verbatim>\<open>execution_state.hpp\<close>. The array with a top pointer and the heap
    buffer are modelled as they are, and related to lists by locales with an abstraction function;
    the interpreters work on the lists.
  \<^item> \<open>Code_Analysis\<close>: \<^verbatim>\<open>baseline::analyze\<close> and the starts of instructions, the notion both analyses are
    measured by.
  \<^item> \<open>Instructions\<close>, \<open>Instructions_Calls\<close>, \<open>Dispatch\<close>: all instructions; the tables from opcodes to
    functions of both interpreters.
  \<^item> \<open>Instruction_Lemmas\<close>, \<open>Instruction_Contracts\<close>: the contract of every instruction.
    \<open>Instruction_Semantics\<close>: what the harder ones compute. \<open>Static_Mode\<close>: static messages.
  \<^item> \<open>Baseline\<close>: table, requirements, dispatch, loop and result; the invariant and termination.
  \<^item> \<open>Advanced_Analysis\<close>: \<^verbatim>\<open>analysis.hpp\<close>, \<^verbatim>\<open>analysis.cpp\<close> and the opcode tables of \<^verbatim>\<open>instructions.cpp\<close>.
    \<open>Advanced_Compile\<close>: the translation it computes. \<open>Analysis_Limits\<close>: table sizes and saturation.
  \<^item> \<open>Advanced\<close>: the instruction functions of \<^verbatim>\<open>instructions.cpp\<close> and the loop of \<^verbatim>\<open>execution.cpp\<close>.
  \<^item> \<open>Gas_Shift\<close>, \<open>Block_Relation\<close>, \<open>Matching\<close>, \<open>Equivalence\<close>: the simulation between the interpreters.
    Instructions do not depend on the absolute amount of gas; a run whose block header fails is
    doomed in Baseline as well; each kind of instruction is matched; so whole runs agree.
  \<^item> \<open>Tracing\<close>: \<^verbatim>\<open>tracing.hpp\<close>, \<^verbatim>\<open>tracing.cpp\<close>, \<^verbatim>\<open>execute<true>\<close> of \<^verbatim>\<open>baseline.cpp\<close>. \<open>Vm\<close>: \<^verbatim>\<open>vm.hpp\<close>, \<^verbatim>\<open>vm.cpp\<close>.

  \<^bold>\<open>The properties.\<close> C1 to C5 are about whole executions: both interpreters return, without undefined
  behaviour, they agree, and options do not matter. What involves the Advanced interpreter holds
  within limits (\<open>within_limits\<close>): code below \<open>2\<^sup>2\<^sup>9\<close> bytes, gas below \<open>2\<^sup>6\<^sup>3\<close>, and either gas below
  \<open>2\<^sup>3\<^sup>2 - 1\<close> or code too short for the cost of a block to reach \<open>2\<^sup>3\<^sup>2\<close>; every contract within the size
  limit is. C6 to C13 are about the two code analyses, C14 and C15 about the tables, C16 to C19 about
  stack, memory and state, C20 to C31 about instructions, C32 about static calls, C33 to C36 about
  tracing and options.

  \<^bold>\<open>Fuel.\<close> The loops of the interpreters take a number of iterations. \<open>baseline_fuel\<close>, the gas of the
  message times the length of the code and 34, plus that length and 34, is enough: every jump costs
  gas, and between two jumps the position grows. The Advanced loop visits block headers as well and
  needs no more than twice as many. Theorems about results hold for every larger number. All other
  functions are total.

  \<^bold>\<open>Not modelled.\<close> Failing allocations (the C++ code throws or terminates); releasing memory and the
  destruction of the instance; \<^verbatim>\<open>get_capabilities\<close>, a constant; the ABI version and the version string,
  which are arguments. A nested call is one call of the host, which may run another instance; so
  tracers see one execution at a time here, and \<open>tracer_contract\<close> shows that they keep the contexts
  of enclosing executions. The C header only declares the constructor; tests, benchmarks and
  the fuzzer are not part of the machine.
\<close>

section \<open>The interpreters\<close>

text \<open>C1. The Baseline interpreter always returns: with the stated number of iterations it ends
without undefined behaviour, with at most the gas of the message left; an exceptional halt has
no gas and no output.\<close>

theorem baseline_returns:
  assumes "lib_ok L" "host_ok H" "length c < 2 ^ 64" "0 \<le> msg_gas m"
  shows "\<exists>r s. baseline_execute_ivmc L H garbage (baseline_fuel m c) h rv m c = Exited (r, s) \<and>
    0 \<le> res_gas_left r \<and> res_gas_left r \<le> msg_gas m \<and>
    (\<not> ok_status (res_status r) \<longrightarrow> res_gas_left r = 0 \<and> res_output r = [])"
  by (rule baseline_result [OF assms(2) lib_ok_store32 [OF assms(1)] assms(3,4)])

theorem baseline_returns_witness:
  "\<exists>r s. baseline_execute_ivmc sample_lib sample_host (\<lambda>_. 7) (baseline_fuel (sample_message 100) [0x60, 1])
      empty_host IVMC_BERLIN (sample_message 100) [0x60, 1] = Exited (r, s) \<and>
    0 \<le> res_gas_left r \<and> res_gas_left r \<le> msg_gas (sample_message 100) \<and>
    (\<not> ok_status (res_status r) \<longrightarrow> res_gas_left r = 0 \<and> res_output r = [])"
  by (rule baseline_returns [OF sample_lib_ok sample_host_ok]) (simp_all add: sample_message_def)

text \<open>C2. The two interpreters compute the same. For every contract within the size limit, and for longer
code unless both the gas and the cost of a block can reach \<open>2\<^sup>3\<^sup>2 - 1\<close> (\<open>within_limits\<close>), both return; after
a success or a revert the results (status, gas, output) and the states of the host are equal, and
otherwise both report an exceptional halt without gas and output. The content of uninitialised
memory (\<open>g\<close>) plays no role for this.\<close>

theorem interpreters_agree:
  assumes "lib_ok L" "host_ok H" "within_limits c (msg_gas m)" "0 \<le> msg_gas m"
    and "baseline_fuel m c \<le> n"
  shows "\<exists>x y. baseline_execute_ivmc L H g n h r m c = Exited x \<and>
    advanced_execute_ivmc L H (2 * n) h r m c = Exited y \<and> same_result x y"
  by (rule executions_agree [OF assms])

theorem interpreters_agree_witness:
  "\<exists>x y. baseline_execute_ivmc sample_lib sample_host (\<lambda>_. 7) (baseline_fuel (sample_message 100) [0x60, 1, 0x50])
      empty_host IVMC_BERLIN (sample_message 100) [0x60, 1, 0x50] = Exited x \<and>
    advanced_execute_ivmc sample_lib sample_host (2 * baseline_fuel (sample_message 100) [0x60, 1, 0x50])
      empty_host IVMC_BERLIN (sample_message 100) [0x60, 1, 0x50] = Exited y \<and> same_result x y"
  by (rule interpreters_agree [OF sample_lib_ok sample_host_ok]) (simp_all add: sample_message_def within_limits_def)

text \<open>C3. Within the same limits the Advanced interpreter always returns, without undefined behaviour (no access outside the
instruction table, no call of a null function pointer, no read of the wrong union member), and
its result obeys the same bounds.\<close>

theorem advanced_returns:
  assumes "lib_ok L" "host_ok H" "within_limits c (msg_gas m)" "0 \<le> msg_gas m"
  shows "\<exists>r s. advanced_execute_ivmc L H (2 * baseline_fuel m c) h rv m c = Exited (r, s) \<and>
    0 \<le> res_gas_left r \<and> res_gas_left r \<le> msg_gas m \<and>
    (\<not> ok_status (res_status r) \<longrightarrow> res_gas_left r = 0 \<and> res_output r = [])"
proof -
  from baseline_result [OF assms(2) lib_ok_store32 [OF assms(1)] within_limitsD(3) [OF assms(3)] assms(4)] obtain rb sb where
    b: "baseline_execute_ivmc L H (\<lambda>_. 0) (baseline_fuel m c) h rv m c = Exited (rb, sb)"
    "0 \<le> res_gas_left rb" "res_gas_left rb \<le> msg_gas m"
    "\<not> ok_status (res_status rb) \<longrightarrow> res_gas_left rb = 0 \<and> res_output rb = []" by blast
  from executions_agree [OF assms order_refl, of "\<lambda>_. 0" h rv] b(1) obtain ra t where
    "advanced_execute_ivmc L H (2 * baseline_fuel m c) h rv m c = Exited (ra, t)" "same_result (rb, sb) (ra, t)" by auto
  with b show ?thesis by (cases "ok_status (res_status rb)") (auto simp: same_result_def)
qed

theorem advanced_returns_witness:
  "\<exists>r s. advanced_execute_ivmc sample_lib sample_host (2 * baseline_fuel (sample_message 100) [0x5b, 0x60, 0, 0x56])
      empty_host IVMC_LONDON (sample_message 100) [0x5b, 0x60, 0, 0x56] = Exited (r, s) \<and>
    0 \<le> res_gas_left r \<and> res_gas_left r \<le> msg_gas (sample_message 100) \<and>
    (\<not> ok_status (res_status r) \<longrightarrow> res_gas_left r = 0 \<and> res_output r = [])"
  by (rule advanced_returns [OF sample_lib_ok sample_host_ok]) (simp_all add: sample_message_def within_limits_def)

text \<open>C4. Options never change what an execution computes: within the limits of C2, two instances set up by any sequences of
options (interpreter, tracers), valid or not, agree on every execution, and an execution leaves
the instance as it was.\<close>

theorem options_agree:
  assumes "lib_ok L" "host_ok H" "within_limits c (msg_gas m)" "0 \<le> msg_gas m"
    and "2 * baseline_fuel m c \<le> n" "2 * baseline_fuel m c \<le> n'"
    and "vm = set_options (ivmc_create_ivmone abi ver) opts" "vm' = set_options (ivmc_create_ivmone abi ver) opts'"
  shows "\<exists>x y o1 o2. vm_execute T L H g n vm out h r m c = Exited (x, vm, o1) \<and>
    vm_execute T L H g' n' vm' out' h r m c = Exited (y, vm', o2) \<and> results_agree x y"
  using vm_execute_agree [OF assms(1-6)] vm_wf_set_options [OF vm_wf_create] assms(7,8) by simp

theorem options_agree_witness:
  "\<exists>x y o1 o2.
    vm_execute sample_trace_lib sample_lib sample_host (\<lambda>_. 7) (2 * baseline_fuel (sample_message 100) [0x60, 1])
      (set_options (ivmc_create_ivmone 9 ''0'') [(Some ''O'', Some ''0''), (Some ''trace'', None)]) [] empty_host IVMC_BERLIN
      (sample_message 100) [0x60, 1] =
      Exited (x, set_options (ivmc_create_ivmone 9 ''0'') [(Some ''O'', Some ''0''), (Some ''trace'', None)], o1) \<and>
    vm_execute sample_trace_lib sample_lib sample_host (\<lambda>_. 8) (2 * baseline_fuel (sample_message 100) [0x60, 1])
      (set_options (ivmc_create_ivmone 9 ''0'') []) [] empty_host IVMC_BERLIN (sample_message 100) [0x60, 1] =
      Exited (y, set_options (ivmc_create_ivmone 9 ''0'') [], o2) \<and> results_agree x y"
  by (rule options_agree [OF sample_lib_ok sample_host_ok _ _ order_refl order_refl refl refl])
    (simp_all add: sample_message_def within_limits_def)

text \<open>C5. At every iteration of the Baseline interpreter the stack has at most 1024 items, the memory is a
whole number of words within its bound, the gas is between zero and the gas of the message (so
64-bit gas arithmetic cannot overflow), the message is unchanged and the position is the start of
an instruction.\<close>

theorem baseline_invariant:
  assumes "lib_ok L" "host_ok H" "length c < 2 ^ 64" "0 \<le> msg_gas m"
    and "(s, p) \<in> set (visits (baseline_step L H) n (baseline_start (new_state m r h c) (analyze_baseline g c)) 0)"
  shows "length (stack s) \<le> 1024 \<and> length (memory s) mod 32 = 0 \<and> length (memory s) \<le> memory_bound \<and>
    0 \<le> gas_left s \<and> gas_left s \<le> msg_gas m \<and> msg s = m \<and> instr_start c p"
proof -
  note inv = baseline_start_inv [OF assms(2) lib_ok_store32 [OF assms(1)] assms(3,4), of g r h]
  from obs.visits_inv [OF inv assms(5)] visits_gas [OF inv assms(5)] show ?thesis
    unfolding baseline_start_new by (simp add: base_inv_def state_wf_def stack_limit_def env_same_def new_state_def)
qed

theorem baseline_invariant_witness:
  "\<exists>s p. (s, p) \<in> set (visits (baseline_step sample_lib sample_host) 1
      (baseline_start (new_state (sample_message 100) IVMC_BERLIN empty_host [0x60, 1]) (analyze_baseline (\<lambda>_. 7) [0x60, 1])) 0) \<and>
    length (stack s) \<le> 1024 \<and> length (memory s) mod 32 = 0 \<and> length (memory s) \<le> memory_bound \<and>
    0 \<le> gas_left s \<and> gas_left s \<le> msg_gas (sample_message 100) \<and> msg s = sample_message 100 \<and> instr_start [0x60, 1] p"
proof -
  let ?s = "baseline_start (new_state (sample_message 100) IVMC_BERLIN empty_host [0x60, 1]) (analyze_baseline (\<lambda>_. 7) [0x60, 1])"
  have v: "(?s, 0) \<in> set (visits (baseline_step sample_lib sample_host) 1 ?s 0)" by simp
  from baseline_invariant [OF sample_lib_ok sample_host_ok _ _ v] v show ?thesis
    by (intro exI [of _ ?s] exI [of _ 0] conjI) (simp_all add: sample_message_def)
qed

section \<open>Code analysis\<close>

text \<open>C6. The jump destination map of the Baseline analysis is exact: it has one entry per byte of the code,
which is set just for the \<^verbatim>\<open>JUMPDEST\<close> bytes at which an instruction starts.\<close>

theorem jumpdest_map_exact:
  "jumpdest_map (analyze_baseline g c) = map (valid_jumpdest c) [0..<length c]"
  by (simp add: analyze_baseline_unfold)

text \<open>C7. The padded code is safe to run: it begins with all bytes of the code, unchanged; from every start of an
instruction the opcode and the push data are inside it, and past the end of the code there is a
\<^verbatim>\<open>STOP\<close>.\<close>

theorem padded_code_safe:
  assumes "instr_start c p"
  shows "take (length c) (padded_code (analyze_baseline g c)) = c \<and> p < length (padded_code (analyze_baseline g c)) \<and>
    (p < length c \<longrightarrow> next_pos c p \<le> length (padded_code (analyze_baseline g c)) \<and> instr_start c (next_pos c p)) \<and>
    (length c \<le> p \<longrightarrow> unat (padded_code (analyze_baseline g c) ! p) = OP_STOP)"
proof -
  have "take (length c) (padded_code (analyze_baseline g c)) = c"
    using code_end_ge [of c] by (intro nth_equalityI) (simp_all add: length_padded padded_code_prefix)
  with base_opcode(1-3) [OF assms, of g] base_opcode(4) [OF assms] show ?thesis by (auto simp: length_padded)
qed

theorem padded_code_safe_witness:
  "instr_start [0x7f, 1] (next_pos [0x7f, 1] 0) \<and> length [0x7f, 1 :: byte] \<le> next_pos [0x7f, 1] 0 \<and>
    take 2 (padded_code (analyze_baseline (\<lambda>_. 7) [0x7f, 1])) = [0x7f, 1] \<and>
    unat (padded_code (analyze_baseline (\<lambda>_. 7) [0x7f, 1]) ! next_pos [0x7f, 1] 0) = OP_STOP"
proof -
  have s: "instr_start [0x7f, 1] (next_pos [0x7f, 1] 0)" by (rule instr_start.step [OF instr_start.first]) simp
  have l: "length [0x7f, 1 :: byte] \<le> next_pos [0x7f, 1] 0" by (simp add: next_pos_def push_len_def is_push_def)
  from padded_code_safe [OF s, of "\<lambda>_. 7"] s l show ?thesis by (simp add: numeral_2_eq_2)
qed

text \<open>C8. The Advanced analysis finds the same jump destinations: the search succeeds just for valid
destinations, and its result is the index of the block header of the block that starts there.\<close>

theorem find_jumpdest_exact:
  assumes "length c < 2 ^ 29"
  shows "(find_jumpdest (analyze r c) (int q) \<noteq> - 1 \<longleftrightarrow> valid_jumpdest c q) \<and>
    (valid_jumpdest c q \<longrightarrow> (\<exists>t np. find_jumpdest (analyze r c) (int q) = int t \<and>
       block_at (get_op_table r) c (instrs (analyze r c)) (push_values (analyze r c)) q np t))"
proof -
  note f = find_jumpdest_jumps [OF assms, of r q]
  have "map_of (jumps c 0 1) q = None" if "\<not> valid_jumpdest c q"
    using jumps_valid [of c 1] that by (simp add: map_of_eq_None_iff)
  with f jump_index_block(1) [of c q] jump_index_block(2) [of c q r] show ?thesis by (cases "valid_jumpdest c q") auto
qed

theorem find_jumpdest_exact_witness:
  "length [0x60, 0x5b, 0x5b :: byte] < 2 ^ 29 \<and> valid_jumpdest [0x60, 0x5b, 0x5b] 2 \<and>
    find_jumpdest (analyze IVMC_BERLIN [0x60, 0x5b, 0x5b]) (int 2) \<noteq> - 1"
proof -
  have len: "length [0x60, 0x5b, 0x5b :: byte] < 2 ^ 29" by simp
  have "next_pos [0x60, 0x5b, 0x5b] 0 = 2" by (simp add: next_pos_def push_len_def is_push_def)
  with instr_start.step [OF instr_start.first, of "[0x60, 0x5b, 0x5b]"]
  have "valid_jumpdest [0x60, 0x5b, 0x5b] 2" by (simp add: valid_jumpdest_def)
  with find_jumpdest_exact [OF len, of IVMC_BERLIN 2] len show ?thesis by blast
qed

text \<open>C9. The analysis loop of the Advanced interpreter, which appends instructions and patches block
headers when a block ends, computes the translation \<open>compile\<close>, which knows the data of a block
when it emits its header. The push values are those of the code. The recorded jump offsets are the
valid destinations of the code in ascending order and the recorded targets the indexes of the
headers of the blocks that start there, both as 32-bit numbers.\<close>

theorem analysis_translates:
  "instrs (analyze r c) =
     (let (b, is) = compile (get_op_table r) c 0 (new_block 0) 0 1 in header (get_op_table r) b # is) \<and>
   push_values (analyze r c) = pushes c 0 \<and>
   jumpdest_offsets (analyze r c) = map (\<lambda>q. to_int32 (int q)) (filter (valid_jumpdest c) [0..<length c]) \<and>
   jumpdest_targets (analyze r c) = map (\<lambda>q. to_int32 (int (jump_index c q))) (filter (valid_jumpdest c) [0..<length c]) \<and>
   (\<forall>q. valid_jumpdest c q \<longrightarrow>
      (\<exists>np. block_at (get_op_table r) c (instrs (analyze r c)) (push_values (analyze r c)) q np (jump_index c q)))"
proof -
  have "snd x = jump_index c (fst x)" if "x \<in> set (jumps c 0 1)" for x
    using jumps_sorted [of c 0 1] that by (cases x) (simp add: jump_index_def map_of_is_SomeI strict_sorted_iff)
  then have t: "jumpdest_targets (analyze r c) = map (\<lambda>q. to_int32 (int (jump_index c q))) (map fst (jumps c 0 1))"
    and o: "jumpdest_offsets (analyze r c) = map (\<lambda>q. to_int32 (int q)) (map fst (jumps c 0 1))"
    by (simp_all add: analyze_tables case_prod_beta)
  show ?thesis
    using t [unfolded jumps_filter] o [unfolded jumps_filter] analyze_compile [of r c] analyze_tables(1) [of r c]
      jump_index_block(2) [of c _ r] by simp
qed

theorem analysis_translates_witness:
  "valid_jumpdest [0x60, 0x5b, 0x5b] 2 \<and>
   (\<exists>np. block_at (get_op_table IVMC_BERLIN) [0x60, 0x5b, 0x5b] (instrs (analyze IVMC_BERLIN [0x60, 0x5b, 0x5b]))
      (push_values (analyze IVMC_BERLIN [0x60, 0x5b, 0x5b])) 2 np (jump_index [0x60, 0x5b, 0x5b] 2))"
proof -
  have "next_pos [0x60, 0x5b, 0x5b] 0 = 2" by (simp add: next_pos_def push_len_def is_push_def)
  with instr_start.step [OF instr_start.first, of "[0x60, 0x5b, 0x5b]"]
  have "valid_jumpdest [0x60, 0x5b, 0x5b] 2" by (simp add: valid_jumpdest_def)
  with analysis_translates [of IVMC_BERLIN "[0x60, 0x5b, 0x5b]"] show ?thesis by blast
qed

text \<open>C10. The compressed data of a block is as good as the exact one: although it saturates, the three checks
of a block header decide as they would with the true cost, requirement and growth, within the
limits on gas and code length. For contracts within the size limit the cost and the growth are
exact; the requirement may still saturate, which does not matter to a stack of at most 1024 items.\<close>

theorem block_data_exact:
  assumes "within_limits c gas" "0 \<le> h" "h \<le> 1024"
  shows "let B = fst (compile (get_op_table r) c p (new_block i) np k) in
    (gas < bi_gas_cost (close B) \<longleftrightarrow> gas < ba_gas_cost B) \<and> (h < bi_stack_req (close B) \<longleftrightarrow> h < ba_stack_req B) \<and>
    (1024 < h + bi_stack_max_growth (close B) \<longleftrightarrow> 1024 < h + ba_stack_max_growth B) \<and>
    (length c \<le> max_code_size \<longrightarrow>
       bi_gas_cost (close B) = ba_gas_cost B \<and> bi_stack_max_growth (close B) = ba_stack_max_growth B)"
  using close_exact(1) [OF refl assms(1)] close_exact(3) [OF refl assms(3)] close_exact(4) [OF refl assms(2)]
    close_exact(5,6) [OF refl] by (simp add: Let_def)

theorem block_data_exact_witness:
  "within_limits [0x01] 100 \<and> (0 :: int) \<le> 1024 \<and>
    (let B = fst (compile (get_op_table IVMC_BERLIN) [0x01] 0 (new_block 0) 0 1) in
     (100 < bi_gas_cost (close B) \<longleftrightarrow> 100 < ba_gas_cost B) \<and> bi_gas_cost (close B) = ba_gas_cost B)"
proof -
  have w: "within_limits [0x01] 100" by (simp add: within_limits_def)
  from block_data_exact [OF w, of 0 IVMC_BERLIN 0 0 0 1] w show ?thesis by (simp add: Let_def max_code_size_def)
qed

text \<open>C11. The cost of a block does saturate: for long code, here a sequence of \<^verbatim>\<open>CREATE\<close>, the analysis, which does not
reject it, writes the largest 32-bit number into the header, less than the cost of the
instructions of the block. This is why C2 has limits.\<close>

theorem block_gas_saturation:
  assumes "134218 \<le> n" "B = fst (compile (get_op_table r) (replicate n 0xf0) 0 (new_block 0) 0 1)"
  shows "instrs (analyze r (replicate n 0xf0)) ! 0 = header (get_op_table r) B \<and>
    bi_gas_cost (close B) = 2 ^ 32 - 1 \<and> ba_gas_cost B = 32000 * int n \<and> bi_gas_cost (close B) < ba_gas_cost B"
  using block_gas_saturates [OF assms(1), of r] assms by (simp add: analyze_compile Let_def case_prod_beta)

theorem block_gas_saturation_witness:
  "\<exists>B. B = fst (compile (get_op_table IVMC_BERLIN) (replicate 134218 0xf0) 0 (new_block 0) 0 1) \<and>
    bi_gas_cost (close B) = 2 ^ 32 - 1 \<and> ba_gas_cost B = 32000 * int 134218 \<and> bi_gas_cost (close B) < ba_gas_cost B"
  using block_gas_saturation [OF order_refl refl, of IVMC_BERLIN] by blast

text \<open>C12. The push values of the Advanced analysis: the data bytes there are, as a big-endian number with the
missing bytes zero. Small pushes (up to 8 bytes) are assembled by shifting, large ones by
reversing bytes.\<close>

theorem push_values_correct:
  assumes "is_push (unat (c ! p))" "p < length c"
  defines "value \<equiv> be_value (push_data c p @ replicate (push_len (unat (c ! p)) - length (push_data c p)) 0)"
  shows "(any_small_push (unat (c ! p)) \<longrightarrow>
      ucast (small_push_loop (push_data c p) ((unat (c ! p) - OP_PUSH1) * 8) 0) = (of_nat value :: uint256)) \<and>
    (any_large_push (unat (c ! p)) \<longrightarrow>
      le_load (large_push_loop (push_data c p) (unat (c ! p) - OP_PUSH1) (replicate 32 0)) = of_nat value)"
  using adv_push_value [OF assms(1) refl assms(2)] by (simp add: value_def own_push_def)

theorem push_values_correct_witness:
  "is_push (unat ([0x61, 5, 6 :: byte] ! 0)) \<and> any_small_push (unat ([0x61, 5, 6 :: byte] ! 0)) \<and>
    ucast (small_push_loop (push_data [0x61, 5, 6] 0) ((unat ([0x61, 5, 6 :: byte] ! 0) - OP_PUSH1) * 8) 0) =
      (of_nat (be_value (push_data [0x61, 5, 6] 0 @
         replicate (push_len (unat ([0x61, 5, 6 :: byte] ! 0)) - length (push_data [0x61, 5, 6] 0)) 0)) :: uint256)"
  using push_values_correct [of "[0x61, 5, 6]" 0] by (simp add: is_push_def any_small_push_def)

text \<open>C13. The sizes of the tables: at most two instructions per byte of code and the two every analysis
adds, and at most one push value per byte, so the vector of push values never exceeds the size
reserved for it (the pointers into it stay valid). The size reserved for the instruction table is
exceeded, by a single \<^verbatim>\<open>JUMP\<close> for example.\<close>

theorem analysis_sizes:
  "length (instrs (analyze r c)) \<le> 2 * length c + 2 \<and>
   length (push_values (analyze r c)) \<le> length c + 1 \<and>
   length [0x56 :: byte] + 1 < length (instrs (analyze r [0x56]))"
  using analyze_instrs_length [of r c] analyze_push_values_length [of r c] analyze_jump_length [of r] by simp

section \<open>Tables\<close>

text \<open>C14. The opcode tables of the two interpreters name the same implementations for every opcode.\<close>

theorem dispatch_tables_agree:
  "instruction_implementations op = map_option advanced_fn (op2fn op)"
  by (rule dispatch_agrees)

text \<open>C15. The gas tables and the traits table agree for every revision and opcode: an opcode has a cost just
in the revisions since its introduction; then the cost is within the bound the block data relies
on, and both interpreters have a function for it, so that no null function pointer is called.\<close>

theorem tables_consistent:
  "(gas_costs r op \<noteq> undefined_cost \<longleftrightarrow> (\<exists>r0. since (traits op) = Some r0 \<and> r0 \<le> r)) \<and>
   (gas_costs r op \<noteq> undefined_cost \<longrightarrow> 0 \<le> gas_costs r op \<and> gas_costs r op \<le> max_instruction_base_cost \<and>
      op2fn op \<noteq> None) \<and> entry_fn (get_op_table r op) \<noteq> None"
proof -
  have "op2fn op \<noteq> None" if "gas_costs r op \<noteq> undefined_cost"
    using that gas_costs_defined_since [of r op] op2fn_defined [of op] by auto
  with gas_costs_defined_since [of r op] gas_costs_range [of r op] dispatch_agrees [of op] show ?thesis
    by (auto simp: max_instruction_base_cost_def get_op_table_def)
qed

theorem tables_consistent_witness:
  "gas_costs IVMC_BERLIN OP_CREATE \<noteq> undefined_cost \<and> 0 \<le> gas_costs IVMC_BERLIN OP_CREATE \<and>
   gas_costs IVMC_BERLIN OP_CREATE \<le> max_instruction_base_cost \<and> op2fn OP_CREATE \<noteq> None"
  using tables_consistent [of IVMC_BERLIN OP_CREATE] gas_costs_create [of IVMC_BERLIN] by (simp add: undefined_cost_def)


section \<open>Stack, memory and state\<close>

text \<open>C16. The stack as an array with a top pointer implements the list of items: every sequence of pushes,
pops, reads and writes gives the same values and is undefined at the same point.\<close>

theorem stack_refines:
  assumes "Stack_wf st"
  shows "run_stack Stack_push Stack_pop Stack_get Stack_set st cs = run_stack stk_push stk_pop stk_get stk_set (items st) cs"
  by (rule ptr.run_refines [OF assms])

theorem stack_refines_witness:
  "Stack_wf (Stack_new (\<lambda>_. 9)) \<and>
    run_stack Stack_push Stack_pop Stack_get Stack_set (Stack_new (\<lambda>_. 9)) [Push 5, Push 6, Get 1, Pop] =
    run_stack stk_push stk_pop stk_get stk_set (items (Stack_new (\<lambda>_. 9))) [Push 5, Push 6, Get 1, Pop]"
  using stack_refines [OF Stack_new_wf(1)] Stack_new_wf(1) by blast

text \<open>C17. The memory as a heap buffer implements the list of its bytes: whatever the allocator leaves in fresh
memory, a sequence of growths, reads and writes that is defined on the list gives the same bytes.\<close>

theorem memory_refines:
  assumes "Memory_wf m" "run_mem mem_grow mem_read mem_write (contents m) cs = Some out"
  shows "run_mem (Memory_grow g) Memory_read Memory_write m cs = Some out"
  by (rule buf.run_refines [OF assms])

theorem memory_refines_witness:
  "run_mem mem_grow mem_read mem_write (contents (Memory_new (\<lambda>_. 9))) [Grow 32, Write 1 [5], Read 0 3] = Some [[0, 5, 0]] \<and>
    run_mem (Memory_grow (\<lambda>_. 8)) Memory_read Memory_write (Memory_new (\<lambda>_. 9)) [Grow 32, Write 1 [5], Read 0 3] = Some [[0, 5, 0]]"
proof -
  have r: "run_mem mem_grow mem_read mem_write (contents (Memory_new (\<lambda>_. 9))) [Grow 32, Write 1 [5], Read 0 3] = Some [[0, 5, 0]]"
    by (simp add: Memory_new_wf mem_grow_def mem_read_def mem_write_def numeral_eq_Suc)
  from memory_refines [OF Memory_new_wf(1) r] r show ?thesis by blast
qed

text \<open>C18. The growth policy of the memory: the new capacity is a whole number of pages, holds the requested
size, is at least twice the old one (so growth is amortised) and no more than that or the
requested size rounded up to a page; growing keeps the buffer well-formed.\<close>

theorem memory_growth_policy:
  assumes "Memory_wf m" "Memory_grow g m n = Some m'"
  shows "Memory_wf m' \<and> (m_capacity m < n \<longrightarrow> n \<le> m_capacity m' \<and> 2 * m_capacity m \<le> m_capacity m' \<and>
    m_capacity m' \<le> max (2 * m_capacity m) (n + page_size - 1)) \<and> (n \<le> m_capacity m \<longrightarrow> m_capacity m' = m_capacity m)"
proof -
  have "m_capacity m' = (if m_capacity m < n then next_capacity (m_capacity m) n else m_capacity m)"
    using assms(2) by (auto simp: Memory_grow_def allocate_capacity_def Let_def split: if_splits)
  with Memory_grow_wf [OF assms] next_capacity_ge [of n "m_capacity m"] next_capacity_double [of "m_capacity m" n]
    next_capacity_bound [of "m_capacity m" n] show ?thesis by (simp add: mult.commute)
qed

theorem memory_growth_policy_witness:
  "\<exists>m'. Memory_grow (\<lambda>_. 8) (Memory_new (\<lambda>_. 9)) 64 = Some m' \<and> Memory_wf m' \<and> m_capacity m' = page_size"
proof -
  obtain m' where m': "Memory_grow (\<lambda>_. 8) (Memory_new (\<lambda>_. 9)) 64 = Some m'"
    using Memory_grow_contents [OF Memory_new_wf(1), of 64 "\<lambda>_. 9" "\<lambda>_. 8"]
    by (auto simp: Memory_new_def allocate_capacity_def)
  from memory_growth_policy [OF Memory_new_wf(1) m'] m' show ?thesis
    by (auto simp: Memory_new_def allocate_capacity_def page_size_def)
qed

text \<open>C19. A reset makes a state as good as new: after \<^verbatim>\<open>AdvancedExecutionState::reset\<close> it equals the state of
the constructor, whatever it held.\<close>

theorem reset_fresh:
  "reset_adv_state m r h c s = new_adv_state m r h c"
  by (simp add: reset_adv_state_def new_adv_state_def reset_state_def new_state_def ExecutionState.extend_def)

section \<open>Instructions\<close>

text \<open>C20. Every instruction keeps its contract, \<^verbatim>\<open>PUSH\<close>, \<^verbatim>\<open>PC\<close> and the jumps included. Run at the start of an instruction
in a well-formed state that meets the stack requirement of the traits table, it has no undefined
behaviour; it leaves a well-formed state with the same message, revision, code and analysis and no
more gas; and if execution goes on, the stack height has changed as the traits table says and the
position is the next instruction or, for \<^verbatim>\<open>JUMP\<close> and \<^verbatim>\<open>JUMPI\<close>, a valid destination.\<close>

theorem instructions_keep_contract:
  assumes "lib_ok L" "host_ok H" "length c < 2 ^ 64" "analysis s = Some (analyze_baseline g c)" "status s = IVMC_SUCCESS"
    and "instr_start c p" "p < length c" "op = unat (c ! p)" "op2fn op = Some b"
    and "ready (stack_height_required (traits op)) (stack_height_change (traits op)) s"
  shows "\<exists>s' q. invoke (baseline_impl L H b) s p = Some (s', q) \<and> env_same s s' \<and> state_wf s' \<and> gas_left s' \<le> gas_left s \<and>
    (\<forall>p'. q = Some p' \<longrightarrow> 0 \<le> gas_left s' \<and>
       int (length (stack s')) = int (length (stack s)) + stack_height_change (traits op) \<and>
       (p' = next_pos c p \<or> op \<in> {OP_JUMP, OP_JUMPI} \<and> valid_jumpdest c p'))"
proof -
  note L = lib_ok_store32 [OF assms(1)]
  from wpD [OF dispatch_contract [OF assms(4,3,2) L assms(5-10)]] obtain s' q where
    i: "invoke (baseline_impl L H b) s p = Some (s', q)"
    and q: "case q of None \<Rightarrow> run_final s s'
      | Some q' \<Rightarrow> passes s s' \<and> (q' = next_pos c p \<or> op \<in> {OP_JUMP, OP_JUMPI} \<and> valid_jumpdest c q')" by blast
  have "env_same s s' \<and> state_wf s' \<and> gas_left s' \<le> gas_left s" using q by (cases q) (auto simp: run_final_def passes_def)
  moreover have "0 \<le> gas_left s'" "p' = next_pos c p \<or> op \<in> {OP_JUMP, OP_JUMPI} \<and> valid_jumpdest c p'"
    "int (length (stack s')) = int (length (stack s)) + stack_height_change (traits op)" if "q = Some p'" for p'
    using q that dispatch_height [OF assms(9,2) L assms(10)] i by (auto simp: passes_def)
  ultimately show ?thesis using i by blast
qed

theorem instructions_keep_contract_witness:
  "\<exists>s' q. invoke (baseline_impl sample_lib sample_host (fn_push 1))
      ((new_state (sample_message 100) IVMC_BERLIN empty_host [0x60, 5])\<lparr>analysis := Some (analyze_baseline (\<lambda>_. 7) [0x60, 5])\<rparr>) 0 =
        Some (s', q) \<and> state_wf s' \<and>
    (\<forall>p'. q = Some p' \<longrightarrow> int (length (stack s')) = stack_height_change (traits OP_PUSH1) \<and> p' = next_pos [0x60, 5] 0)"
proof -
  let ?s = "(new_state (sample_message 100) IVMC_BERLIN empty_host [0x60, 5])\<lparr>analysis := Some (analyze_baseline (\<lambda>_. 7) [0x60, 5])\<rparr>
    :: (CodeAnalysis, sample_state) ExecutionState"
  have op: "op2fn OP_PUSH1 = Some (fn_push 1)" by (simp add: op2fn_def set_range_def)
  have rd: "ready (stack_height_required (traits OP_PUSH1)) (stack_height_change (traits OP_PUSH1)) ?s"
    using op2fn_traits [OF op] by (simp add: ready_def new_state_def state_wf_def sample_message_def stack_limit_def)
  from instructions_keep_contract [OF sample_lib_ok sample_host_ok _ _ _ instr_start.first [of "[0x60, 5]"] _ _ op rd, of "\<lambda>_. 7"]
  have "\<exists>s' q. invoke (baseline_impl sample_lib sample_host (fn_push 1)) ?s 0 = Some (s', q) \<and> state_wf s' \<and>
    (\<forall>p'. q = Some p' \<longrightarrow> int (length (stack s')) = int (length (stack ?s)) + stack_height_change (traits OP_PUSH1) \<and>
      p' = next_pos [0x60, 5] 0)" by (auto simp: new_state_def)
  then show ?thesis by (simp add: new_state_def)
qed

text \<open>C21. The requirements of an instruction and the status of each failure: an undefined instruction comes
first, then missing gas, then the stack. Testing the underflow only when the stack is not full, as
the code does, misses nothing.\<close>

theorem requirements_checked:
  assumes "length (stack s) \<le> 1024"
  shows "fst (check_requirements (get_baseline_instruction_table r) s op) =
    (if gas_costs r op = undefined_cost then IVMC_UNDEFINED_INSTRUCTION
     else if gas_left s < gas_costs r op then IVMC_OUT_OF_GAS
     else if int (length (stack s)) < stack_height_required (traits op) then IVMC_STACK_UNDERFLOW
     else if 1024 < int (length (stack s)) + stack_height_change (traits op) then IVMC_STACK_OVERFLOW
     else IVMC_SUCCESS)"
  using assms traits_stack_range [of op]
  by (auto simp: check_requirements_def get_baseline_instruction_table_def stack_limit_def Let_def)

theorem requirements_checked_witness:
  "fst (check_requirements (get_baseline_instruction_table IVMC_BERLIN)
     (new_state (sample_message 100) IVMC_BERLIN empty_host [] :: (CodeAnalysis, sample_state) ExecutionState) OP_JUMP) =
   IVMC_STACK_UNDERFLOW"
proof -
  have "stack_height_required (traits OP_JUMP) = 1" using op2fn_traits [of OP_JUMP fn_jump] op2fn_jumps(1) by simp
  with requirements_checked [of "new_state (sample_message 100) IVMC_BERLIN empty_host [] :: (CodeAnalysis, sample_state) ExecutionState"
      IVMC_BERLIN OP_JUMP] gas_costs_control(2) [of IVMC_BERLIN]
  show ?thesis by (simp add: new_state_def sample_message_def undefined_cost_def)
qed

text \<open>C22. Jumps go to valid destinations and nowhere else, in both interpreters: the Baseline one continues at
the destination, the Advanced one at the header of its block, and any other value on the stack,
however large, ends the execution with \<^verbatim>\<open>IVMC_BAD_JUMP_DESTINATION\<close>.\<close>

theorem jumps_exact:
  assumes "length c < 2 ^ 29" "stack s = d # st" "analysis s = Some (analyze_baseline g c)"
    and "stack t = d # st" "analysis t = Some (analyze r c)"
  shows "jump_instr s p = Some (if valid_jumpdest c (unat d) then (Some (unat d), s\<lparr>stack := st\<rparr>)
      else (None, s\<lparr>stack := st, status := IVMC_BAD_JUMP_DESTINATION\<rparr>)) \<and>
    op_jump t = Some (if valid_jumpdest c (unat d) then (t\<lparr>stack := st\<rparr>, Some (jump_index c (unat d)))
      else (t\<lparr>stack := st, status := IVMC_BAD_JUMP_DESTINATION\<rparr>, None))"
proof -
  have len: "length c < 2 ^ 29" "length c < 2 ^ 64" using assms(1) by simp_all
  from base_jump [of "s\<lparr>stack := st\<rparr>" g c d] adv_jump [OF assms(4,5) len(1)] len assms show ?thesis
    by (simp add: jump_instr_def exit_def)
qed

theorem jumps_exact_witness:
  "jump_instr ((new_state (sample_message 100) IVMC_BERLIN empty_host [0x00])
       \<lparr>stack := [7], analysis := Some (analyze_baseline (\<lambda>_. 7) [0x00])\<rparr>) 0 =
     Some (None, (new_state (sample_message 100) IVMC_BERLIN empty_host [0x00])
       \<lparr>stack := [], analysis := Some (analyze_baseline (\<lambda>_. 7) [0x00]), status := IVMC_BAD_JUMP_DESTINATION\<rparr>)"
proof -
  let ?s = "(new_state (sample_message 100) IVMC_BERLIN empty_host [0x00])
    \<lparr>stack := [7], analysis := Some (analyze_baseline (\<lambda>_. 7) [0x00])\<rparr>"
  let ?t = "(new_adv_state (sample_message 100) IVMC_BERLIN empty_host [0x00])
    \<lparr>stack := [7], analysis := Some (analyze IVMC_BERLIN [0x00])\<rparr>"
  have "length [0x00 :: byte] < 2 ^ 29" "stack ?s = 7 # []" "analysis ?s = Some (analyze_baseline (\<lambda>_. 7) [0x00])"
    "stack ?t = 7 # []" "analysis ?t = Some (analyze IVMC_BERLIN [0x00])" by simp_all
  from jumps_exact [OF this, of 0] show ?thesis by (simp add: valid_jumpdest_def)
qed

text \<open>C23. \<^verbatim>\<open>SAR\<close>, composed of a logical shift and a mask, is the signed division by a power of two that rounds
down, for every shift amount up to \<open>2\<^sup>2\<^sup>5\<^sup>6 - 1\<close>.\<close>

theorem sar_correct:
  assumes "lib_ok L" "stack s = y # x # st"
  shows "sar_instr L s = Some (s\<lparr>stack := word_of_int (sint x div 2 ^ unat y) # st\<rparr>)"
  by (rule sar_value [OF assms])

theorem sar_correct_witness:
  "sar_instr sample_lib (sample_exec 1 [1, -4]) =
    Some (sample_exec 1 [word_of_int (sint (-4 :: uint256) div 2 ^ unat (1 :: uint256))])"
  using sar_correct [OF sample_lib_ok, of "sample_exec 1 [1, -4]" 1 "-4" "[]"] by simp

text \<open>C24. \<^verbatim>\<open>SIGNEXTEND\<close> extends the sign of the lowest \<open>ext + 1\<close> bytes, and leaves the number alone when there
are no more bytes, for every \<open>ext\<close>.\<close>

theorem signextend_correct:
  assumes "lib_ok L" "stack s = ext # x # st"
  shows "signextend_instr L s = Some (s\<lparr>stack := signed_take_bit (8 * unat ext + 7) x # st\<rparr>)"
  by (rule signextend_value [OF assms])

theorem signextend_correct_witness:
  "signextend_instr sample_lib (sample_exec 1 [0, 0x80]) =
    Some (sample_exec 1 [signed_take_bit (8 * unat (0 :: uint256) + 7) 0x80])"
  using signextend_correct [OF sample_lib_ok, of "sample_exec 1 [0, 0x80]" 0 "0x80" "[]"] by simp

text \<open>C25. \<^verbatim>\<open>BYTE\<close>, which picks a limb, shifts and masks it, selects byte \<open>n\<close> from the most significant end, and
zero past the end.\<close>

theorem byte_correct:
  assumes "stack s = n # x # st"
  shows "byte_instr s = Some (s\<lparr>stack :=
    (if unat n < 32 then take_bit 8 (drop_bit (8 * (31 - unat n)) x) else 0) # st\<rparr>)"
  by (rule byte_value [OF assms])

theorem byte_correct_witness:
  "byte_instr (sample_exec 1 [31, 0x1234]) =
    Some (sample_exec 1
      [if unat (31 :: uint256) < 32 then take_bit 8 (drop_bit (8 * (31 - unat (31 :: uint256))) 0x1234) else 0])"
  using byte_correct [of "sample_exec 1 [31, 0x1234]" 31 "0x1234" "[]"] by simp

text \<open>C26. What a memory check does, exactly: an empty range is free, offsets and sizes of \<open>2\<^sup>3\<^sup>2\<close> or more fail, a
range within the memory is free, and otherwise the memory grows with zeros to whole words for the
difference of the quadratic cost, or the gas runs out. The limb tests and the wrapping 64-bit sum
of the code miss nothing.\<close>

theorem check_memory_exact:
  "check_memory s off sz = Some (if sz = 0 then (True, s)
     else if unat sz < 2 ^ 32 \<and> unat off < 2 ^ 32 then memory_access s (unat off + unat sz) else (False, s))"
  by (rule check_memory_access)

text \<open>C27. The price of memory does not depend on the order of accesses: two accesses that succeed in either
order lead to the same state, gas included.\<close>

theorem memory_order_irrelevant:
  assumes "check_memory s off sz = Some (True, s1)" "check_memory s1 off' sz' = Some (True, s2)"
    and "check_memory s off' sz' = Some (True, t1)" "check_memory t1 off sz = Some (True, t2)"
    and "length (memory s) mod 32 = 0"
  shows "s2 = t2"
proof (cases "sz = 0 \<or> sz' = 0")
  case True
  with assms(1-4) show ?thesis by (auto simp: check_memory_access)
next
  case False
  with assms(1-4) have "memory_access s (unat off + unat sz) = (True, s1)" "memory_access s1 (unat off' + unat sz') = (True, s2)"
    "memory_access s (unat off' + unat sz') = (True, t1)" "memory_access t1 (unat off + unat sz) = (True, t2)"
    by (auto simp: check_memory_access split: if_splits)
  from memory_access_commutes [OF this assms(5)] show ?thesis .
qed

theorem memory_order_irrelevant_witness:
  "\<exists>s1 s2 t1 t2. check_memory (sample_exec 100 []) 0 32 = Some (True, s1) \<and> check_memory s1 32 33 = Some (True, s2) \<and>
    check_memory (sample_exec 100 []) 32 33 = Some (True, t1) \<and> check_memory t1 0 32 = Some (True, t2) \<and>
    s2 = t2 \<and> length (memory s1) = 32 \<and> length (memory s2) = 96 \<and> gas_left s1 = 97 \<and> gas_left s2 = 91"
proof -
  define s where "s = sample_exec 100 []"
  define s1 where "s1 = s\<lparr>gas_left := 97, memory := replicate 32 0\<rparr>"
  define s2 where "s2 = s\<lparr>gas_left := 91, memory := replicate 96 0\<rparr>"
  have sel: "memory s = []" "gas_left s = 100" by (simp_all add: s_def)
  note acc = check_memory_access memory_access_def words_for_def memory_cost_def sel Let_def
  have f: "check_memory s 0 32 = Some (True, s1)" "check_memory s 32 33 = Some (True, s2)" "check_memory s2 0 32 = Some (True, s2)"
    by (simp_all add: acc s1_def s2_def)
  have "check_memory s1 32 33 = Some (True, s2)" by (simp add: acc s1_def s2_def replicate_add [symmetric])
  with memory_order_irrelevant [OF f(1) this f(2,3)] f show ?thesis
    by (intro exI [of _ s1] exI [of _ s2]) (simp add: s_def [symmetric] sel, simp add: s1_def s2_def)
qed

text \<open>C28. A word stored with \<^verbatim>\<open>MSTORE\<close> is loaded again by \<^verbatim>\<open>MLOAD\<close>, at no further cost.\<close>

theorem mstore_mload_roundtrip:
  assumes "lib_ok L" "stack s = i # v # st" "mstore_instr L s = Some (IVMC_SUCCESS, s')"
  shows "mload_instr L (s'\<lparr>stack := i # st\<rparr>) = Some (IVMC_SUCCESS, s'\<lparr>stack := v # st\<rparr>)"
  by (rule mstore_then_mload [OF assms])

theorem mstore_mload_roundtrip_witness:
  "\<exists>s'. mstore_instr sample_lib (sample_exec 100 [0, 42]) = Some (IVMC_SUCCESS, s') \<and>
    mload_instr sample_lib (s'\<lparr>stack := [0]\<rparr>) = Some (IVMC_SUCCESS, s'\<lparr>stack := [42]\<rparr>)"
proof -
  let ?s = "sample_exec 100 [0, 42]"
  have a: "check_memory64 (sample_exec 100 []) 0 32 = Some (memory_access (sample_exec 100 []) 32)"
    by (subst check_memory64_access) simp_all
  have "\<exists>s'. mstore_instr sample_lib ?s = Some (IVMC_SUCCESS, s')"
    by (simp add: mstore_instr_def a) (simp add: memory_access_def words_for_def memory_cost_def
        mem_write_def sample_lib_def to_size_def to_u64_def Let_def sample_exec_def new_state_def sample_message_def)
  then obtain s' where s': "mstore_instr sample_lib ?s = Some (IVMC_SUCCESS, s')" by blast
  from mstore_mload_roundtrip [OF sample_lib_ok _ s', of 0 42 "[]"] s' show ?thesis by auto
qed

text \<open>C29. \<^verbatim>\<open>SWAP\<close> exchanges the top with item \<open>n\<close>, and twice is the identity.\<close>

theorem swap_involutive:
  assumes "n < length (stack s)" "0 < n"
  shows "\<exists>s1. swap_instr n s = Some s1 \<and> stack s1 ! 0 = stack s ! n \<and> stack s1 ! n = stack s ! 0 \<and> swap_instr n s1 = Some s"
  by (rule swap_twice [OF assms])

theorem swap_involutive_witness:
  "\<exists>s1. swap_instr 1 (sample_exec 1 [5, 6]) = Some s1 \<and>
    stack s1 ! 0 = 6 \<and> swap_instr 1 s1 = Some (sample_exec 1 [5, 6])"
  using swap_involutive [of 1 "sample_exec 1 [5, 6]"] by auto

text \<open>C30. \<^verbatim>\<open>RETURNDATACOPY\<close> past the end of the return data always fails, however large offset and size are, and
does not overwrite memory: it is out of gas if the memory cannot be paid for, and otherwise an
invalid memory access. The 64-bit sum of offset and size in the code cannot wrap around, because
the size has been checked before and the return data is a buffer in the address space.\<close>

theorem returndatacopy_out_of_range:
  assumes "stack s = mi # ii # sz # st" "length (return_data s) < unat ii + unat sz" "length (return_data s) < 2 ^ 63"
  shows "\<exists>ok s'. check_memory (s\<lparr>stack := st\<rparr>) mi sz = Some (ok, s') \<and>
    returndatacopy_instr s = Some (if ok then IVMC_INVALID_MEMORY_ACCESS else IVMC_OUT_OF_GAS, s') \<and>
    take (length (memory s)) (memory s') = memory s"
  by (rule returndatacopy_past_end [OF assms])

theorem returndatacopy_out_of_range_witness:
  "\<exists>s'. returndatacopy_instr ((sample_exec 100 [0, 2, 3])\<lparr>return_data := [1, 2, 3, 4]\<rparr>) = Some (IVMC_INVALID_MEMORY_ACCESS, s')"
proof -
  let ?s = "(sample_exec 100 [0, 2, 3])\<lparr>return_data := [1, 2, 3, 4]\<rparr>"
  have "stack ?s = 0 # 2 # 3 # []" "length (return_data ?s) < unat (2 :: uint256) + unat (3 :: uint256)" "length (return_data ?s) < 2 ^ 63"
    by simp_all
  from returndatacopy_out_of_range [OF this] obtain ok s' where
    c: "check_memory (?s\<lparr>stack := []\<rparr>) 0 3 = Some (ok, s')" and
    r: "returndatacopy_instr ?s = Some (if ok then IVMC_INVALID_MEMORY_ACCESS else IVMC_OUT_OF_GAS, s')" by blast
  have ok using c by (auto simp: check_memory_access memory_access_def words_for_def memory_cost_def Let_def split: if_splits)
  with r show ?thesis by auto
qed

text \<open>C31. The gas of a callee is not negative, no more than asked for, no more than there is, and since
Tangerine Whistle leaves the caller one 64th.\<close>

theorem callee_gas_bounded:
  assumes "callee_gas r gas left = Some g" "0 \<le> left"
  shows "0 \<le> g \<and> g \<le> left \<and> g \<le> uint gas \<and> (r \<ge> IVMC_TANGERINE_WHISTLE \<longrightarrow> g \<le> left - left div 64)"
  using callee_gas_limits [OF assms] by blast

theorem callee_gas_bounded_witness:
  "callee_gas IVMC_BERLIN 0x8000000000000000 640 = Some 630 \<and> (0 :: int) \<le> 630 \<and> (630 :: int) \<le> 640 - 640 div 64"
proof -
  have g: "callee_gas IVMC_BERLIN 0x8000000000000000 640 = Some 630"
    by (simp add: callee_gas_def int64_max_def rev_order signed_divide_int_def)
  from callee_gas_bounded [OF g] g show ?thesis by (simp add: rev_order)
qed

section \<open>Static calls\<close>

text \<open>C32. An execution with a static message changes the host only by marking accounts and storage slots as
accessed and by further calls, which are static again: no storage write, no log, no creation, no
self-destruction. A \<^verbatim>\<open>CALL\<close> carries no value. \<^verbatim>\<open>CALLCODE\<close> and \<^verbatim>\<open>DELEGATECALL\<close> may carry one, but only to the
executing account itself.\<close>

theorem static_execution:
  assumes "lib_ok L" "host_ok H" "length c < 2 ^ 64" "0 \<le> msg_gas m" "is_static m"
    and "baseline_execute_ivmc L H g n h r m c = Exited (res, s)"
  shows "static_host L H (msg_recipient m) h (host s)"
proof -
  let ?s = "baseline_start (new_state m r h c) (analyze_baseline g c)"
  note inv = baseline_start_inv [OF assms(2) lib_ok_store32 [OF assms(1)] assms(3,4), of g r h]
  from assms(6) have "loop (baseline_step L H) n ?s 0 = Exited s"
    by (auto simp: baseline_execute_ivmc_def baseline_execute_def elim!: finish.elims split: option.splits)
  from static_run [OF inv _ this] assms(5) show ?thesis
    unfolding baseline_start_new by (simp add: new_state_def)
qed

theorem static_execution_witness:
  "\<exists>res s. baseline_execute_ivmc sample_lib sample_host (\<lambda>_. 7) 9 empty_host IVMC_BERLIN (sample_message 1000\<lparr>msg_flags := 1\<rparr>)
      sample_call = Exited (res, s) \<and>
    hs_calls (host s) = [called (sample_message 1000\<lparr>msg_flags := 1\<rparr>)] \<and> is_static (called (sample_message 1000\<lparr>msg_flags := 1\<rparr>)) \<and>
    static_host sample_lib sample_host (msg_recipient (sample_message 1000\<lparr>msg_flags := 1\<rparr>)) empty_host (host s)"
proof -
  let ?m = "sample_message 1000\<lparr>msg_flags := 1\<rparr>"
  have m: "length sample_call < 2 ^ 64" "0 \<le> msg_gas ?m" "is_static ?m" "msg_gas ?m = 1000" "msg_depth ?m = 0"
    and call: "is_static (called ?m)"
    by (simp_all add: sample_call_def sample_message_def zero_message_def is_static_def IVMC_STATIC_def called_def call_message_def)
  from sample_call_run [OF m(4,5)] obtain res s where
    r: "baseline_execute_ivmc sample_lib sample_host (\<lambda>_. 7) 9 empty_host IVMC_BERLIN ?m sample_call = Exited (res, s)"
    and h: "hs_calls (host s) = [called ?m]" by blast
  from static_execution [OF sample_lib_ok sample_host_ok m(1-3) r] r h call show ?thesis by blast
qed

section \<open>Tracing and options\<close>

lemma new_state_env: "msg (new_state m rv h c) = m" "revision (new_state m rv h c) = rv"
  by (simp_all add: new_state_def)

text \<open>C33. Tracing is transparent: with any chain of tracers that are between executions, \<^verbatim>\<open>execute<true>\<close> ends with
the result and the state of \<^verbatim>\<open>execute<false>\<close>, and the tracers are ready for the next execution. No
tracer reads past the code or takes the top of an empty stack of contexts.\<close>

theorem tracing_transparent:
  assumes "lib_ok L" "host_ok H" "length c < 2 ^ 64" "0 \<le> msg_gas m" "list_all tracer_rest ts"
  shows "\<exists>r s out'. baseline_execute L H (baseline_fuel m c) (new_state m rv h c) (analyze_baseline g c) = Exited (r, s) \<and>
    baseline_execute_traced T L H (baseline_fuel m c) (new_state m rv h c) (analyze_baseline g c) ts out = Exited ((r, s), ts, out')"
proof -
  note inv = baseline_start_inv [OF assms(2) lib_ok_store32 [OF assms(1)] assms(3,4), of g rv h]
  from baseline_result [OF assms(2) lib_ok_store32 [OF assms(1)] assms(3,4)] obtain r s where
    "baseline_execute L H (baseline_fuel m c) (new_state m rv h c) (analyze_baseline g c) = Exited (r, s)"
    unfolding baseline_execute_ivmc_def by blast
  with traced_execute [OF inv assms(5) this] show ?thesis by blast
qed

theorem tracing_transparent_witness:
  "\<exists>r s out'. baseline_execute sample_lib sample_host (baseline_fuel (sample_message 100) [0x60, 1])
      (new_state (sample_message 100) IVMC_BERLIN empty_host [0x60, 1]) (analyze_baseline (\<lambda>_. 7) [0x60, 1]) = Exited (r, s) \<and>
    baseline_execute_traced sample_trace_lib sample_lib sample_host (baseline_fuel (sample_message 100) [0x60, 1])
      (new_state (sample_message 100) IVMC_BERLIN empty_host [0x60, 1]) (analyze_baseline (\<lambda>_. 7) [0x60, 1])
      [create_histogram_tracer, create_instruction_tracer] [] =
      Exited ((r, s), [create_histogram_tracer, create_instruction_tracer], out')"
  by (rule tracing_transparent [OF sample_lib_ok sample_host_ok])
    (simp_all add: sample_message_def create_histogram_tracer_def create_instruction_tracer_def trace_rest_def)

text \<open>C34. The histogram tracer reports, for every opcode, the number of times an instruction with this opcode
was started, modulo \<open>2\<^sup>3\<^sup>2\<close>; it prints once, at the end, and does not count the padding.\<close>

theorem histogram_counts:
  assumes "lib_ok L" "host_ok H" "length c + 32 < 2 ^ 32" "0 \<le> msg_gas m"
    and "baseline_execute L H n (new_state m rv h c) (analyze_baseline g c) = Exited (r, s)"
    and "vs = visits (baseline_step L H) n (baseline_start (new_state m rv h c) (analyze_baseline g c)) 0"
  shows "baseline_execute_traced T L H n (new_state m rv h c) (analyze_baseline g c) [create_histogram_tracer] out =
    Exited ((r, s), [create_histogram_tracer], out @ hist_report T (msg_depth m) (instruction_names_table T rv)
      (map (\<lambda>op. of_nat (length (filter (\<lambda>(s', p). p < length c \<and> unat (c ! p) = op) vs))) [0..<256]))"
proof -
  have "length c < 2 ^ 64" using assms(3) by simp
  note inv = baseline_start_inv [OF assms(2) lib_ok_store32 [OF assms(1)] this assms(4), of g rv h]
  from histogram_execute [OF inv assms(3,5,6), of T "\<lparr>hist_contexts = []\<rparr>" out] show ?thesis
    unfolding create_histogram_tracer_def count_op_def new_state_env .
qed

theorem histogram_counts_witness:
  "\<exists>r s vs. baseline_execute sample_lib sample_host (baseline_fuel (sample_message 100) [0x60, 1])
      (new_state (sample_message 100) IVMC_BERLIN empty_host [0x60, 1]) (analyze_baseline (\<lambda>_. 7) [0x60, 1]) = Exited (r, s) \<and>
    vs = visits (baseline_step sample_lib sample_host) (baseline_fuel (sample_message 100) [0x60, 1])
      (baseline_start (new_state (sample_message 100) IVMC_BERLIN empty_host [0x60, 1]) (analyze_baseline (\<lambda>_. 7) [0x60, 1])) 0 \<and>
    baseline_execute_traced sample_trace_lib sample_lib sample_host (baseline_fuel (sample_message 100) [0x60, 1])
      (new_state (sample_message 100) IVMC_BERLIN empty_host [0x60, 1]) (analyze_baseline (\<lambda>_. 7) [0x60, 1])
      [create_histogram_tracer] [] =
    Exited ((r, s), [create_histogram_tracer], [] @ hist_report sample_trace_lib (msg_depth (sample_message 100))
      (instruction_names_table sample_trace_lib IVMC_BERLIN)
      (map (\<lambda>op. of_nat (length (filter (\<lambda>(s', p). p < length [0x60, 1 :: byte] \<and> unat ([0x60, 1 :: byte] ! p) = op) vs))) [0..<256]))"
proof -
  have m: "length [0x60, 1 :: byte] + 32 < 2 ^ 32" "0 \<le> msg_gas (sample_message 100)" "length [0x60, 1 :: byte] < 2 ^ 64"
    by (simp_all add: sample_message_def)
  from baseline_result [OF sample_host_ok lib_ok_store32 [OF sample_lib_ok] m(3,2)] obtain r s where
    "baseline_execute sample_lib sample_host (baseline_fuel (sample_message 100) [0x60, 1])
      (new_state (sample_message 100) IVMC_BERLIN empty_host [0x60, 1]) (analyze_baseline (\<lambda>_. 7) [0x60, 1]) = Exited (r, s)"
    unfolding baseline_execute_ivmc_def by blast
  from histogram_counts [OF sample_lib_ok sample_host_ok m(1,2) this refl, of sample_trace_lib "[]"] this show ?thesis
    by blast
qed

text \<open>C35. The instruction tracer writes one line when the execution starts, one for each instruction in the
order of execution with its position, opcode, gas, stack and memory size before it runs, and one
with the result at the end.\<close>

theorem instruction_trace:
  assumes "lib_ok L" "host_ok H" "length c + 32 < 2 ^ 32" "0 \<le> msg_gas m"
    and "baseline_execute L H n (new_state m rv h c) (analyze_baseline g c) = Exited (r, s)"
    and "vs = visits (baseline_step L H) n (baseline_start (new_state m rv h c) (analyze_baseline g c)) 0"
  shows "baseline_execute_traced T L H n (new_state m rv h c) (analyze_baseline g c) [create_instruction_tracer] out =
    Exited ((r, s), [create_instruction_tracer], out @ start_line T rv m @
      concat (map (\<lambda>(s', p). if p < length c then instr_line T (instruction_names_table T rv) p (unat (c ! p)) s' else []) vs) @
      end_line T (msg_gas m) r)"
proof -
  have "length c < 2 ^ 64" using assms(3) by simp
  note inv = baseline_start_inv [OF assms(2) lib_ok_store32 [OF assms(1)] this assms(4), of g rv h]
  from instruction_trace_execute [OF inv assms(3,5,6), of T out] show ?thesis unfolding new_state_env .
qed

theorem instruction_trace_witness:
  "\<exists>r s out'. baseline_execute sample_lib sample_host (baseline_fuel (sample_message 100) [0x60, 1])
      (new_state (sample_message 100) IVMC_BERLIN empty_host [0x60, 1]) (analyze_baseline (\<lambda>_. 7) [0x60, 1]) = Exited (r, s) \<and>
    baseline_execute_traced sample_trace_lib sample_lib sample_host (baseline_fuel (sample_message 100) [0x60, 1])
      (new_state (sample_message 100) IVMC_BERLIN empty_host [0x60, 1]) (analyze_baseline (\<lambda>_. 7) [0x60, 1])
      [create_instruction_tracer] [] =
    Exited ((r, s), [create_instruction_tracer], start_line sample_trace_lib IVMC_BERLIN (sample_message 100) @ out' @
      end_line sample_trace_lib 100 r)"
proof -
  have m: "length [0x60, 1 :: byte] + 32 < 2 ^ 32" "0 \<le> msg_gas (sample_message 100)" "length [0x60, 1 :: byte] < 2 ^ 64"
    and g: "msg_gas (sample_message 100) = 100" by (simp_all add: sample_message_def)
  from baseline_result [OF sample_host_ok lib_ok_store32 [OF sample_lib_ok] m(3,2)] obtain r s where
    "baseline_execute sample_lib sample_host (baseline_fuel (sample_message 100) [0x60, 1])
      (new_state (sample_message 100) IVMC_BERLIN empty_host [0x60, 1]) (analyze_baseline (\<lambda>_. 7) [0x60, 1]) = Exited (r, s)"
    unfolding baseline_execute_ivmc_def by blast
  from instruction_trace [OF sample_lib_ok sample_host_ok m(1,2) this refl, of sample_trace_lib "[]"] this show ?thesis
    unfolding g append_Nil by blast
qed

text \<open>C36. After any sequence of options the chain holds the requested tracers in the order of the options
after those it had, the interpreter is that of the last valid \<^verbatim>\<open>O\<close> option, and nothing else of the
instance has changed; an option reports success exactly when it asks for a tracer or names an interpreter.\<close>

theorem options_compose:
  "set_options vm opts =
     vm\<lparr>execute_ptr := foldl interpreter_option (execute_ptr vm) opts,
        m_first_tracer := m_first_tracer vm @ concat (map tracer_option opts)\<rparr> \<and>
   (fst (set_option vm name value) = IVMC_SET_OPTION_SUCCESS \<longleftrightarrow>
     0 < length (tracer_option (name, value)) \<or> (name, value) \<in> {(Some ''O'', Some ''0''), (Some ''O'', Some ''2'')})"
  by (simp add: set_options_eq set_option_success)

end
